(* ===== verification/Prelude.thy ===== *)
theory Prelude
  imports Main "HOL-Library.Word"
begin

text \<open>
  What every component of the development shares: C++ exceptions as values, the two kinds of
  effectful computation (\<open>eff\<close> for ordinary functions over a state, \<open>co\<close> for coroutines,
  which may also fail to return), decimal printing and parsing as \<open>fmt\<close>, \<open>operator<<\<close> and
  \<open>std::stoi\<close> do them, and generic lemmas about first-match searches in lists.
\<close>

section \<open>Collections of rules\<close>

named_theorems eff_simps \<open>unfolding rules of the effect combinators\<close>
named_theorems cpp_defs \<open>definitions of the model that proofs unfold as a matter of course\<close>

section \<open>Exceptions\<close>

text \<open>
  The exceptions the sources throw, with their message, the ones the standard library throws on
  their behalf, and the two ways a run can leave the language: a failed \<open>assert\<close> and undefined
  behaviour.
\<close>

datatype exn =
    Runtime_error string
  | Invalid_argument string
  | Out_of_range string
  | Range_error string
  | Bad_function_call
  | System_error int
  | Json_error string
  | Assertion_failed
  | Undefined_behaviour string

type_synonym 'a result = "exn + 'a"

fun result_map :: "('a \<Rightarrow> 'b) \<Rightarrow> 'a result \<Rightarrow> 'b result" where
  "result_map f (Inl e) = Inl e"
| "result_map f (Inr x) = Inr (f x)"

fun result_bind :: "'a result \<Rightarrow> ('a \<Rightarrow> 'b result) \<Rightarrow> 'b result" where
  "result_bind (Inl e) f = Inl e"
| "result_bind (Inr x) f = f x"

lemma result_bind_eq_Inr: "result_bind m f = Inr y \<longleftrightarrow> (\<exists>x. m = Inr x \<and> f x = Inr y)"
  by (cases m) auto

lemma result_map_eq_Inr: "result_map f m = Inr y \<longleftrightarrow> (\<exists>x. m = Inr x \<and> y = f x)"
  by (cases m) auto

section \<open>Functions with effects\<close>

text \<open>
  A C++ function that reads and writes a state \<open>'s\<close> and may throw: the state it leaves behind is
  kept when it throws, since the writes made before the throw stay.
\<close>

type_synonym ('s, 'a) eff = "'s \<Rightarrow> 'a result \<times> 's"

definition eff_return :: "'a \<Rightarrow> ('s, 'a) eff" where
  "eff_return x = (\<lambda>s. (Inr x, s))"

definition eff_throw :: "exn \<Rightarrow> ('s, 'a) eff" where
  "eff_throw e = (\<lambda>s. (Inl e, s))"

definition eff_bind :: "('s, 'a) eff \<Rightarrow> ('a \<Rightarrow> ('s, 'b) eff) \<Rightarrow> ('s, 'b) eff" where
  "eff_bind m f = (\<lambda>s. case m s of (Inl e, s') \<Rightarrow> (Inl e, s') | (Inr x, s') \<Rightarrow> f x s')"

definition eff_lift :: "'a result \<Rightarrow> ('s, 'a) eff" where
  "eff_lift r = (\<lambda>s. (r, s))"

lemma eff_return_apply [eff_simps]: "eff_return x s = (Inr x, s)"
  by (simp add: eff_return_def)

lemma eff_throw_apply [eff_simps]: "eff_throw e s = (Inl e, s)"
  by (simp add: eff_throw_def)

lemma eff_lift_apply [eff_simps]: "eff_lift r s = (r, s)"
  by (simp add: eff_lift_def)

lemma eff_bind_Inr [eff_simps]: "m s = (Inr x, s') \<Longrightarrow> eff_bind m f s = f x s'"
  by (simp add: eff_bind_def)

lemma eff_bind_Inl [eff_simps]: "m s = (Inl e, s') \<Longrightarrow> eff_bind m f s = (Inl e, s')"
  by (simp add: eff_bind_def)

lemma eff_bind_assoc: "eff_bind (eff_bind m f) g = eff_bind m (\<lambda>x. eff_bind (f x) g)"
  by (rule ext) (simp add: eff_bind_def split: prod.splits sum.splits)

lemma eff_bind_eq_Inr:
  "eff_bind m f s = (Inr y, s'') \<longleftrightarrow> (\<exists>x s'. m s = (Inr x, s') \<and> f x s' = (Inr y, s''))"
  by (auto simp: eff_bind_def split: prod.splits sum.splits)

section \<open>Coroutines\<close>

text \<open>
  A coroutine over a state: \<open>None\<close> when it has not returned within the fuel of the loops it
  runs, otherwise the value it returns or the exception it throws.
\<close>

type_synonym ('s, 'a) co = "'s \<Rightarrow> ('a result \<times> 's) option"

definition co_return :: "'a \<Rightarrow> ('s, 'a) co" where
  "co_return x = (\<lambda>s. Some (Inr x, s))"

definition co_throw :: "exn \<Rightarrow> ('s, 'a) co" where
  "co_throw e = (\<lambda>s. Some (Inl e, s))"

definition co_bind :: "('s, 'a) co \<Rightarrow> ('a \<Rightarrow> ('s, 'b) co) \<Rightarrow> ('s, 'b) co" where
  "co_bind m f = (\<lambda>s. case m s of
     None \<Rightarrow> None
   | Some (Inl e, s') \<Rightarrow> Some (Inl e, s')
   | Some (Inr x, s') \<Rightarrow> f x s')"

definition co_run :: "('s, 'a) eff \<Rightarrow> ('s, 'a) co" where
  "co_run m = (\<lambda>s. Some (m s))"

lemma co_return_apply [eff_simps]: "co_return x s = Some (Inr x, s)"
  by (simp add: co_return_def)

lemma co_throw_apply [eff_simps]: "co_throw e s = Some (Inl e, s)"
  by (simp add: co_throw_def)

lemma co_run_apply [eff_simps]: "co_run m s = Some (m s)"
  by (simp add: co_run_def)

lemma co_bind_Inr [eff_simps]: "m s = Some (Inr x, s') \<Longrightarrow> co_bind m f s = f x s'"
  by (simp add: co_bind_def)

lemma co_bind_Inl [eff_simps]: "m s = Some (Inl e, s') \<Longrightarrow> co_bind m f s = Some (Inl e, s')"
  by (simp add: co_bind_def)

lemma co_bind_None [eff_simps]: "m s = None \<Longrightarrow> co_bind m f s = None"
  by (simp add: co_bind_def)

lemma co_bind_eq_Some:
  "co_bind m f s = Some (r, s'') \<longleftrightarrow>
     (\<exists>e. m s = Some (Inl e, s'') \<and> r = Inl e) \<or>
     (\<exists>x s'. m s = Some (Inr x, s') \<and> f x s' = Some (r, s''))"
  by (auto simp: co_bind_def split: option.splits prod.splits sum.splits)

lemma co_bind_return: "co_bind m co_return = m"
  by (rule ext) (simp add: co_bind_def co_return_def split: option.splits prod.splits sum.splits)

lemma co_bind_assoc: "co_bind (co_bind m f) g = co_bind m (\<lambda>x. co_bind (f x) g)"
  by (rule ext) (simp add: co_bind_def split: option.splits prod.splits sum.splits)

text \<open>A predicate on states that a computation keeps, whatever it returns or throws.\<close>

definition co_keeps :: "('s \<Rightarrow> bool) \<Rightarrow> ('s, 'a) co \<Rightarrow> bool" where
  "co_keeps P m \<longleftrightarrow> (\<forall>s r s'. P s \<longrightarrow> m s = Some (r, s') \<longrightarrow> P s')"

lemma co_keepsI: "(\<And>s r s'. P s \<Longrightarrow> m s = Some (r, s') \<Longrightarrow> P s') \<Longrightarrow> co_keeps P m"
  by (auto simp: co_keeps_def)

lemma co_keepsD: "co_keeps P m \<Longrightarrow> P s \<Longrightarrow> m s = Some (r, s') \<Longrightarrow> P s'"
  by (auto simp: co_keeps_def)

lemma co_keeps_return: "co_keeps P (co_return x)"
  by (simp add: co_keeps_def co_return_def)

lemma co_keeps_throw: "co_keeps P (co_throw e)"
  by (simp add: co_keeps_def co_throw_def)

lemma co_keeps_bind:
  assumes m: "co_keeps P m" and f: "\<And>x. co_keeps P (f x)"
  shows "co_keeps P (co_bind m f)"
proof (rule co_keepsI)
  fix s r s''
  assume P: "P s" and run: "co_bind m f s = Some (r, s'')"
  from run consider e where "m s = Some (Inl e, s'')"
    | x s' where "m s = Some (Inr x, s')" "f x s' = Some (r, s'')"
    unfolding co_bind_eq_Some by blast
  then show "P s''"
    by cases (blast intro: co_keepsD [OF m P] co_keepsD [OF f])+
qed

lemma co_keeps_if:
  assumes "co_keeps P m" and "co_keeps P m'"
  shows "co_keeps P (\<lambda>s. if b s then m s else m' s)"
proof (rule co_keepsI)
  fix s r s'
  assume "P s" and "(if b s then m s else m' s) = Some (r, s')"
  then show "P s'"
    using co_keepsD [OF assms(1) \<open>P s\<close>] co_keepsD [OF assms(2) \<open>P s\<close>] by (cases "b s") simp_all
qed

lemma co_keeps_update:
  assumes m: "co_keeps P m" and f: "\<And>s. P s \<Longrightarrow> P (f s)"
  shows "co_keeps P (\<lambda>s. m (f s))"
proof (rule co_keepsI)
  fix s r s'
  assume "P s" and "m (f s) = Some (r, s')"
  then show "P s'" using co_keepsD [OF m f] by simp
qed

text \<open>A computation that looks at the state it starts from.\<close>

lemma co_keeps_dep:
  assumes "\<And>s. co_keeps P (m s)"
  shows "co_keeps P (\<lambda>s. m s s)"
proof (rule co_keepsI)
  fix s r s'
  assume "P s" and "m s s = Some (r, s')"
  then show "P s'" by (rule co_keepsD [OF assms [of s]])
qed

lemmas co_keeps_intros = co_keeps_return co_keeps_throw co_keeps_bind

text \<open>A computation that returns whenever another one does, and then the same.\<close>

definition co_le :: "('s, 'a) co \<Rightarrow> ('s, 'a) co \<Rightarrow> bool" where
  "co_le m m' \<longleftrightarrow> (\<forall>s x. m s = Some x \<longrightarrow> m' s = Some x)"

lemma co_le_refl [simp]: "co_le m m"
  by (simp add: co_le_def)

lemma co_leD: "co_le m m' \<Longrightarrow> m s = Some x \<Longrightarrow> m' s = Some x"
  unfolding co_le_def by blast

lemma co_leI: "(\<And>s x. m s = Some x \<Longrightarrow> m' s = Some x) \<Longrightarrow> co_le m m'"
  unfolding co_le_def by blast

lemma co_le_None [simp]: "co_le (\<lambda>s. None) m"
  by (simp add: co_le_def)

lemma co_le_bind:
  assumes "co_le m m'" and "\<And>x. co_le (f x) (f' x)"
  shows "co_le (co_bind m f) (co_bind m' f')"
proof (rule co_leI)
  fix s x
  assume "co_bind m f s = Some x"
  then show "co_bind m' f' s = Some x"
    using assms by (cases x) (auto simp: co_bind_eq_Some co_le_def)
qed

section \<open>Decimal numbers\<close>

definition digit_char :: "nat \<Rightarrow> char" where
  "digit_char d = char_of (48 + d)"

definition is_digit :: "char \<Rightarrow> bool" where
  "is_digit c \<longleftrightarrow> 48 \<le> (of_char c :: nat) \<and> (of_char c :: nat) \<le> 57"

definition digit_value :: "char \<Rightarrow> nat" where
  "digit_value c = of_char c - 48"

definition is_space :: "char \<Rightarrow> bool" where
  "is_space c \<longleftrightarrow> of_char c = (32::nat) \<or> 9 \<le> (of_char c :: nat) \<and> (of_char c :: nat) \<le> 13"

fun nat_to_string :: "nat \<Rightarrow> string" where
  "nat_to_string n =
     (if n < 10 then [digit_char n] else nat_to_string (n div 10) @ [digit_char (n mod 10)])"

declare nat_to_string.simps [simp del]

definition int_to_string :: "int \<Rightarrow> string" where
  "int_to_string i =
     (if i < 0 then CHR ''-'' # nat_to_string (nat (- i)) else nat_to_string (nat i))"

definition digits_value :: "string \<Rightarrow> nat" where
  "digits_value ds = foldl (\<lambda>v c. 10 * v + digit_value c) 0 ds"

text \<open>\<open>std::stoi\<close>: leading white space, an optional sign, at least one digit, any tail.\<close>

definition stoi :: "string \<Rightarrow> int result" where
  "stoi s =
     (let t = dropWhile is_space s;
          neg = (t \<noteq> [] \<and> hd t = CHR ''-'');
          u = (if t \<noteq> [] \<and> (hd t = CHR ''-'' \<or> hd t = CHR ''+'') then tl t else t);
          ds = takeWhile is_digit u;
          v = (if neg then - int (digits_value ds) else int (digits_value ds))
      in if ds = [] then Inl (Invalid_argument ''stoi'')
         else if v < - (2 ^ 31) \<or> v \<ge> 2 ^ 31 then Inl (Out_of_range ''stoi'')
         else Inr v)"

lemma of_char_digit_char: "d < 10 \<Longrightarrow> (of_char (digit_char d) :: nat) = 48 + d"
  by (simp add: digit_char_def)

lemma is_digit_digit_char: "d < 10 \<Longrightarrow> is_digit (digit_char d)"
  by (simp add: is_digit_def of_char_digit_char)

lemma digit_value_digit_char: "d < 10 \<Longrightarrow> digit_value (digit_char d) = d"
  by (simp add: digit_value_def of_char_digit_char)

lemma nat_to_string_nonempty: "nat_to_string n \<noteq> []"
  by (subst nat_to_string.simps) simp

lemma nat_to_string_digits: "list_all is_digit (nat_to_string n)"
proof (induction n rule: nat_to_string.induct)
  case (1 n)
  then show ?case
    by (subst nat_to_string.simps) (auto simp: is_digit_digit_char)
qed

lemma digits_value_snoc: "digits_value (ds @ [c]) = 10 * digits_value ds + digit_value c"
  by (simp add: digits_value_def)

lemma digits_value_nat_to_string: "digits_value (nat_to_string n) = n"
proof (induction n rule: nat_to_string.induct)
  case (1 n)
  show ?case
  proof (cases "n < 10")
    case True
    then show ?thesis
      by (subst nat_to_string.simps) (simp add: digits_value_def digit_value_digit_char)
  next
    case False
    with 1 show ?thesis
      by (subst nat_to_string.simps) (simp add: digits_value_snoc digit_value_digit_char)
  qed
qed

lemma digit_not_space: "is_digit c \<Longrightarrow> \<not> is_space c"
  by (auto simp: is_digit_def is_space_def)

lemma digit_not_sign: "is_digit c \<Longrightarrow> c \<noteq> CHR ''-'' \<and> c \<noteq> CHR ''+''"
  by (auto simp: is_digit_def)

lemma nat_to_string_no_space: "list_all (\<lambda>c. \<not> is_space c) (nat_to_string n)"
  using nat_to_string_digits [of n] by (auto simp: list_all_iff digit_not_space)

lemma int_to_string_no_space: "list_all (\<lambda>c. \<not> is_space c) (int_to_string i)"
  using nat_to_string_no_space by (auto simp: int_to_string_def is_space_def)

lemma int_to_string_nonempty: "int_to_string i \<noteq> []"
  by (simp add: int_to_string_def nat_to_string_nonempty)

lemma takeWhile_digits_nat_to_string: "takeWhile is_digit (nat_to_string n) = nat_to_string n"
  using nat_to_string_digits [of n] by (simp add: takeWhile_eq_all_conv list_all_iff)

lemma dropWhile_space_id: "list_all (\<lambda>c. \<not> is_space c) s \<Longrightarrow> dropWhile is_space s = s"
  by (cases s) auto

lemma hd_nat_to_string_digit: "is_digit (hd (nat_to_string n))"
  using nat_to_string_digits [of n] nat_to_string_nonempty [of n] by (cases "nat_to_string n") auto

text \<open>Printing an \<open>int\<close> and reading it back with \<open>std::stoi\<close> gives it back.\<close>

lemma stoi_int_to_string:
  assumes "- (2 ^ 31) \<le> i" and "i < 2 ^ 31"
  shows "stoi (int_to_string i) = Inr i"
proof (cases "i < 0")
  case True
  then have s: "int_to_string i = CHR ''-'' # nat_to_string (nat (- i))"
    by (simp add: int_to_string_def)
  have "\<not> is_space CHR ''-''" by (simp add: is_space_def)
  with s True assms show ?thesis
    by (simp add: stoi_def takeWhile_digits_nat_to_string digits_value_nat_to_string
        nat_to_string_nonempty)
next
  case False
  then have s: "int_to_string i = nat_to_string (nat i)"
    by (simp add: int_to_string_def)
  have "dropWhile is_space (int_to_string i) = nat_to_string (nat i)"
    using dropWhile_space_id [OF int_to_string_no_space [of i]] s by simp
  with False assms digit_not_sign [OF hd_nat_to_string_digit [of "nat i"]] show ?thesis
    by (simp add: stoi_def takeWhile_digits_nat_to_string digits_value_nat_to_string
        nat_to_string_nonempty)
qed

lemma nat_to_string_inject: "nat_to_string m = nat_to_string n \<longleftrightarrow> m = n"
  by (metis digits_value_nat_to_string)

section \<open>First match in a list\<close>

text \<open>\<open>std::find_if\<close> returns the first element that satisfies the predicate.\<close>

lemma find_Some_set: "List.find P xs = Some x \<Longrightarrow> x \<in> set xs \<and> P x"
  by (auto simp: find_Some_iff)

lemma find_None_all: "List.find P xs = None \<longleftrightarrow> (\<forall>x \<in> set xs. \<not> P x)"
  by (auto simp: find_None_iff)

lemma find_append:
  "List.find P (xs @ ys) = (case List.find P xs of None \<Rightarrow> List.find P ys | Some x \<Rightarrow> Some x)"
  by (induction xs) auto

text \<open>Erasing the first element that satisfies the predicate (\<open>erase(find_if(...))\<close>).\<close>

fun erase_first :: "('a \<Rightarrow> bool) \<Rightarrow> 'a list \<Rightarrow> 'a list" where
  "erase_first P [] = []"
| "erase_first P (x # xs) = (if P x then xs else x # erase_first P xs)"

lemma erase_first_none: "\<forall>x \<in> set xs. \<not> P x \<Longrightarrow> erase_first P xs = xs"
  by (induction xs) auto

lemma set_erase_first: "set (erase_first P xs) \<subseteq> set xs"
  by (induction xs) auto

lemma length_erase_first:
  "length (erase_first P xs) = (if \<exists>x \<in> set xs. P x then length xs - 1 else length xs)"
proof (induction xs)
  case (Cons x xs)
  have "\<exists>y \<in> set xs. P y \<Longrightarrow> Suc (length xs - 1) = length xs"
    by (cases xs) auto
  with Cons show ?case by auto
qed simp

text \<open>
  With a key that is distinct over the list, a search by key finds the one element with it, and
  erasing the first match erases every match.
\<close>

lemma find_key_distinct:
  assumes "distinct (map k xs)" and "x \<in> set xs"
  shows "List.find (\<lambda>y. k y = k x) xs = Some x"
  using assms by (induction xs) (auto simp: image_iff)

lemma erase_first_key_distinct:
  assumes "distinct (map k xs)" and "\<And>y. P y \<Longrightarrow> k y = a"
  shows "erase_first P xs = filter (\<lambda>y. \<not> P y) xs"
  using assms(1)
proof (induction xs)
  case (Cons x xs)
  have "P x \<Longrightarrow> filter (\<lambda>y. \<not> P y) xs = xs"
    using Cons.prems assms(2) by (auto simp: filter_id_conv image_iff)
  with Cons show ?case by auto
qed simp

lemma distinct_map_erase_first: "distinct (map k xs) \<Longrightarrow> distinct (map k (erase_first P xs))"
proof (induction xs)
  case (Cons x xs)
  then show ?case using set_erase_first [of P xs] by auto
qed simp

end
