(* ===== verification/Id_Generators.thy ===== *)
theory Id_Generators
  imports Prelude
begin

text \<open>
  The identifiers of types (\<^verbatim>\<open>utils/type_id.hpp\<close>, \<^verbatim>\<open>command/command_id_generator.hpp\<close>,
  \<^verbatim>\<open>event/event_id_generator.hpp\<close>): a process-wide atomic counter of type \<open>size_t\<close>, and for every
  instantiation of the template a function-local static that is initialised from the counter the
  first time it runs. The three classes differ in the first identifier only.
\<close>

section \<open>Types and their decay\<close>

datatype ref_qualifier = No_ref | Lvalue_ref | Rvalue_ref

text \<open>A type as template argument deduction produces it: its name, \<open>const\<close>, and a reference.\<close>

datatype cpp_type = Cpp_type (type_name: string) (const_qualified: bool) (ref_qualified: ref_qualifier)

abbreviation Named :: "string \<Rightarrow> cpp_type" where
  "Named n \<equiv> Cpp_type n False No_ref"

text \<open>\<open>std::decay_t\<close>, for types that are neither arrays nor functions: drop the reference, then the
  qualifier.\<close>

definition decay :: "cpp_type \<Rightarrow> cpp_type" where
  "decay t = Named (type_name t)"

lemma decay_decay [simp]: "decay (decay t) = decay t"
  by (simp add: decay_def)

section \<open>The generators\<close>

type_synonym size_t = "64 word"

record id_state =
  ids_counter :: size_t
  static_ids :: "cpp_type \<Rightarrow> size_t option"

definition type_id_init :: id_state where
  "type_id_init = \<lparr>ids_counter = 0, static_ids = (\<lambda>_. None)\<rparr>"

definition command_id_init :: id_state where
  "command_id_init = \<lparr>ids_counter = 0, static_ids = (\<lambda>_. None)\<rparr>"

definition event_id_init :: id_state where
  "event_id_init = \<lparr>ids_counter = 1, static_ids = (\<lambda>_. None)\<rparr>"

text \<open>The private template: the static of this instantiation, initialised once.\<close>

definition static_id :: "cpp_type \<Rightarrow> id_state \<Rightarrow> size_t \<times> id_state" where
  "static_id t g =
     (case static_ids g t of
        Some i \<Rightarrow> (i, g)
      | None \<Rightarrow>
          (ids_counter g,
           g\<lparr>ids_counter := ids_counter g + 1,
             static_ids := (static_ids g)(t := Some (ids_counter g))\<rparr>))"

definition type_id_value :: "cpp_type \<Rightarrow> id_state \<Rightarrow> size_t \<times> id_state" where
  "type_id_value t g = static_id (decay t) g"

definition command_id_get :: "cpp_type \<Rightarrow> id_state \<Rightarrow> size_t \<times> id_state" where
  "command_id_get t g = static_id (decay t) g"

definition event_id_get :: "cpp_type \<Rightarrow> id_state \<Rightarrow> size_t \<times> id_state" where
  "event_id_get t g = static_id (decay t) g"

lemmas id_get_defs = type_id_value_def command_id_get_def event_id_get_def
lemmas id_init_defs = type_id_init_def command_id_init_def event_id_init_def

text \<open>The identifiers a sequence of requests returns.\<close>

fun get_ids :: "cpp_type list \<Rightarrow> id_state \<Rightarrow> size_t list \<times> id_state" where
  "get_ids [] g = ([], g)"
| "get_ids (t # ts) g =
     (case static_id (decay t) g of (i, g') \<Rightarrow>
        (case get_ids ts g' of (is, g'') \<Rightarrow> (i # is, g'')))"

section \<open>Invariant\<close>

text \<open>
  The types that have an identifier, in the order they got it: the k-th has the k-th value of the
  counter.
\<close>

definition ids_inv :: "size_t \<Rightarrow> cpp_type list \<Rightarrow> id_state \<Rightarrow> bool" where
  "ids_inv start ts g \<longleftrightarrow>
     distinct ts \<and> ids_counter g = start + of_nat (length ts)
     \<and> (\<forall>k < length ts. static_ids g (ts ! k) = Some (start + of_nat k))
     \<and> dom (static_ids g) = set ts"

definition known_types :: "cpp_type \<Rightarrow> cpp_type list \<Rightarrow> cpp_type list" where
  "known_types t ts = (if t \<in> set ts then ts else ts @ [t])"

lemma ids_inv_init:
  "ids_inv 0 [] type_id_init" "ids_inv 0 [] command_id_init" "ids_inv 1 [] event_id_init"
  by (simp_all add: ids_inv_def id_init_defs)

lemma static_id_keeps_inv:
  assumes inv: "ids_inv start ts g" and run: "static_id t g = (i, g')"
  shows "ids_inv start (known_types t ts) g'"
proof (cases "static_ids g t")
  case None
  then have new: "t \<notin> set ts" using inv by (auto simp: ids_inv_def)
  have eq: "((static_ids g)(t := Some (start + of_nat (length ts)))) ((ts @ [t]) ! k) = Some (start + of_nat k)"
    if "k < Suc (length ts)" for k
  proof (cases "k = length ts")
    case False
    with that have k: "k < length ts" by simp
    then have "ts ! k \<noteq> t" using new by (metis nth_mem)
    with k inv show ?thesis by (simp add: ids_inv_def nth_append)
  qed simp
  have "dom ((static_ids g)(t := Some (start + of_nat (length ts)))) = set (ts @ [t])"
    using inv by (simp add: ids_inv_def)
  moreover have "g' = g\<lparr>ids_counter := ids_counter g + 1,
      static_ids := (static_ids g)(t := Some (ids_counter g))\<rparr>"
    using None run by (auto simp: static_id_def)
  ultimately show ?thesis
    using eq new inv by (simp add: known_types_def ids_inv_def del: fun_upd_apply dom_fun_upd)
next
  case (Some j)
  then have "t \<in> set ts" using inv by (auto simp: ids_inv_def)
  with Some inv run show ?thesis by (simp add: static_id_def known_types_def)
qed

lemma static_id_records:
  "static_id t g = (i, g') \<Longrightarrow> static_ids g' t = Some i"
  by (auto simp: static_id_def split: option.splits)

lemma static_id_stable:
  "static_id t g = (i, g') \<Longrightarrow> static_ids g u = Some j \<Longrightarrow> static_ids g' u = Some j"
  by (auto simp: static_id_def split: option.splits)

lemma static_id_known: "static_ids g t = Some i \<Longrightarrow> static_id t g = (i, g)"
  by (simp add: static_id_def)

text \<open>As long as the counter has not come round, different types have different identifiers.\<close>

lemma of_nat_size_t_inject:
  "m < 2 ^ 64 \<Longrightarrow> n < 2 ^ 64 \<Longrightarrow> (of_nat m :: size_t) = of_nat n \<longleftrightarrow> m = n"
  by (simp add: word_of_nat_eq_iff take_bit_eq_mod)

lemma ids_inv_inject:
  assumes inv: "ids_inv start ts g" and bound: "length ts \<le> 2 ^ 64"
    and t: "static_ids g t = Some i" and u: "static_ids g u = Some j"
  shows "i = j \<longleftrightarrow> t = u"
proof -
  from inv t u have "t \<in> set ts" "u \<in> set ts" by (auto simp: ids_inv_def)
  then obtain m n where m: "m < length ts" "ts ! m = t" and n: "n < length ts" "ts ! n = u"
    by (metis in_set_conv_nth)
  with inv t u have "i = start + of_nat m" "j = start + of_nat n"
    by (auto simp: ids_inv_def)
  then have "i = j \<longleftrightarrow> m = n"
    using m n bound by (simp add: of_nat_size_t_inject)
  moreover have "m = n \<longleftrightarrow> t = u"
    using inv m n by (auto simp: ids_inv_def nth_eq_iff_index_eq)
  ultimately show ?thesis by simp
qed

lemma get_ids_records:
  assumes "ids_inv start ts g" and "get_ids us g = (is, g')"
  shows "ids_inv start (fold (known_types \<circ> decay) us ts) g'
    \<and> list_all2 (\<lambda>u i. static_ids g' (decay u) = Some i) us is
    \<and> (\<forall>t i. static_ids g t = Some i \<longrightarrow> static_ids g' t = Some i)"
  using assms
proof (induction us arbitrary: ts g "is")
  case (Cons u us)
  from Cons.prems obtain i g1 is1 where
    one: "static_id (decay u) g = (i, g1)" and rest: "get_ids us g1 = (is1, g')"
    and is_eq: "is = i # is1"
    by (auto split: prod.splits)
  note inv1 = static_id_keeps_inv [OF Cons.prems(1) one]
  note IH = Cons.IH [OF inv1 rest]
  have stable: "static_ids g t = Some j \<Longrightarrow> static_ids g' t = Some j" for t j
    using static_id_stable [OF one] IH by blast
  have "static_ids g' (decay u) = Some i"
    using static_id_records [OF one] IH by blast
  with IH stable is_eq show ?case by simp
qed simp

lemma length_known_types: "length (fold (known_types \<circ> decay) us ts) \<le> length ts + length us"
proof (induction us arbitrary: ts)
  case (Cons u us)
  have "length (known_types (decay u) ts) \<le> length ts + 1" by (simp add: known_types_def)
  then show ?case using Cons.IH [of "known_types (decay u) ts"] by simp
qed simp

section \<open>Tables keyed by identifiers\<close>

text \<open>
  A table of the program keyed by identifiers is, seen from outside, a table keyed by types. Its
  keys are identifiers some type already has.
\<close>

definition typed_lookup :: "id_state \<Rightarrow> (size_t \<Rightarrow> 'v option) \<Rightarrow> cpp_type \<Rightarrow> 'v option" where
  "typed_lookup g m t = (case static_ids g (decay t) of None \<Rightarrow> None | Some i \<Rightarrow> m i)"

definition typed_table :: "size_t \<Rightarrow> nat \<Rightarrow> id_state \<Rightarrow> (size_t \<Rightarrow> 'v option) \<Rightarrow> bool" where
  "typed_table start n g m \<longleftrightarrow>
     (\<exists>ts. ids_inv start ts g \<and> length ts \<le> n)
     \<and> (\<forall>i. m i \<noteq> None \<longrightarrow> (\<exists>t. static_ids g t = Some i))"

lemma typed_table_inject:
  assumes "typed_table start n g m" and "n \<le> 2 ^ 64"
    and "static_ids g t = Some i" and "static_ids g u = Some j"
  shows "i = j \<longleftrightarrow> t = u"
proof -
  from assms(1,2) obtain ts where "ids_inv start ts g" "length ts \<le> 2 ^ 64"
    by (auto simp: typed_table_def)
  then show ?thesis using ids_inv_inject assms(3,4) by blast
qed

lemma typed_table_get:
  assumes tab: "typed_table start n g m" and get: "static_id (decay t) g = (i, g')"
  shows "typed_table start (n + 1) g' m"
proof -
  from tab obtain ts where ts: "ids_inv start ts g" "length ts \<le> n"
    by (auto simp: typed_table_def)
  have "ids_inv start (known_types (decay t) ts) g'"
    by (rule static_id_keeps_inv [OF ts(1) get])
  moreover have "length (known_types (decay t) ts) \<le> n + 1"
    using ts(2) by (simp add: known_types_def)
  ultimately show ?thesis
    using tab static_id_stable [OF get] unfolding typed_table_def by blast
qed

lemma typed_lookup_get:
  assumes tab: "typed_table start n g m" and n: "n + 1 \<le> 2 ^ 64"
    and get: "static_id (decay t) g = (i, g')"
  shows "typed_lookup g' m u = typed_lookup g m u" and "m i = typed_lookup g m t"
proof -
  note tab' = typed_table_get [OF tab get]
  note stable = static_id_stable [OF get]
  have fresh: "typed_lookup g' m v = None" if none: "static_ids g (decay v) = None" for v
  proof (rule ccontr)
    assume "typed_lookup g' m v \<noteq> None"
    then obtain j where j: "static_ids g' (decay v) = Some j" "m j \<noteq> None"
      by (auto simp: typed_lookup_def split: option.splits)
    with tab obtain w where w: "static_ids g w = Some j" by (auto simp: typed_table_def)
    then have "decay v = w" using typed_table_inject [OF tab' n j(1) stable [OF w]] by simp
    with w none show False by simp
  qed
  show eq: "typed_lookup g' m u = typed_lookup g m u" for u
    using fresh [of u] stable by (cases "static_ids g (decay u)") (auto simp: typed_lookup_def)
  have "typed_lookup g' m t = m i"
    using static_id_records [OF get] by (simp add: typed_lookup_def)
  with eq [of t] show "m i = typed_lookup g m t" by simp
qed

lemma typed_table_update:
  assumes tab: "typed_table start n g m" and rec: "static_ids g (decay t) = Some i"
  shows "typed_table start n g (m(i \<mapsto> v))"
  using tab rec by (auto simp: typed_table_def)

lemma typed_lookup_update:
  assumes tab: "typed_table start n g m" and n: "n \<le> 2 ^ 64"
    and rec: "static_ids g (decay t) = Some i"
  shows "typed_lookup g (m(i \<mapsto> v)) u = (if decay u = decay t then Some v else typed_lookup g m u)"
  using typed_table_inject [OF tab n _ rec, of "decay u"] rec
  by (auto simp: typed_lookup_def split: option.splits)

section \<open>The interface the dispatcher and the bus rely on\<close>

text \<open>
  A generator hands every type one identifier, for good, and no two decayed types the same one
  while the generator is within its bound.
\<close>

locale type_ids =
  fixes get :: "cpp_type \<Rightarrow> id_state \<Rightarrow> size_t \<times> id_state"
    and init :: id_state
    and start :: size_t
  assumes get_def: "get t g = static_id (decay t) g"
    and init_inv: "ids_inv start [] init"
begin

lemma get_again: "get t g = (i, g') \<Longrightarrow> get t g' = (i, g')"
  by (auto simp: get_def dest!: static_id_records intro: static_id_known)

lemma get_distinct:
  assumes "ids_inv start ts g" and "length ts + 1 < 2 ^ 64"
    and "get t g = (i, g1)" and "get u g1 = (j, g2)"
  shows "i = j \<longleftrightarrow> decay t = decay u"
proof -
  let ?ts = "known_types (decay u) (known_types (decay t) ts)"
  from assms have t: "static_id (decay t) g = (i, g1)" and u: "static_id (decay u) g1 = (j, g2)"
    by (simp_all add: get_def)
  have inv: "ids_inv start ?ts g2"
    by (rule static_id_keeps_inv [OF static_id_keeps_inv [OF assms(1) t] u])
  have "length ?ts \<le> 2 ^ 64" using assms(2) by (simp add: known_types_def)
  then show ?thesis
    using ids_inv_inject [OF inv]
      static_id_stable [OF u static_id_records [OF t]] static_id_records [OF u] by blast
qed

end

interpretation type_id: type_ids type_id_value type_id_init 0
  by unfold_locales (simp_all add: id_get_defs ids_inv_init)

interpretation command_id: type_ids command_id_get command_id_init 0
  by unfold_locales (simp_all add: id_get_defs ids_inv_init)

interpretation event_id: type_ids event_id_get event_id_init 1
  by unfold_locales (simp_all add: id_get_defs ids_inv_init)

section \<open>Properties\<close>

text \<open>C13: In any sequence of at most \<open>2^64\<close> requests to one of the three generators, two requests
  get the same identifier exactly when their types decay to the same type: identifiers are stable
  and never collide.\<close>

theorem type_ids_identify_types:
  assumes "g0 = type_id_init \<or> g0 = command_id_init \<or> g0 = event_id_init"
    and "length ts \<le> 2 ^ 64" and "m < length ts" and "n < length ts"
    and "get_ids ts g0 = (is, g)"
  shows "is ! m = is ! n \<longleftrightarrow> decay (ts ! m) = decay (ts ! n)"
proof -
  obtain start where inv: "ids_inv start [] g0" using assms(1) ids_inv_init by blast
  note rec = get_ids_records [OF inv assms(5)]
  then have "static_ids g (decay (ts ! m)) = Some (is ! m)"
    and "static_ids g (decay (ts ! n)) = Some (is ! n)"
    using assms(3,4) by (auto dest: list_all2_nthD)
  moreover have "length (fold (known_types \<circ> decay) ts []) \<le> 2 ^ 64"
    using length_known_types [of ts "[]"] assms(2) by simp
  ultimately show ?thesis using rec ids_inv_inject by blast
qed

theorem type_ids_identify_types_witness:
  "fst (get_ids [Named ''A'', Named ''B'', Cpp_type ''A'' True Lvalue_ref] event_id_init) ! 0
   = fst (get_ids [Named ''A'', Named ''B'', Cpp_type ''A'' True Lvalue_ref] event_id_init) ! 2
   \<longleftrightarrow> decay (Named ''A'') = decay (Cpp_type ''A'' True Lvalue_ref)"
  using type_ids_identify_types
    [of event_id_init "[Named ''A'', Named ''B'', Cpp_type ''A'' True Lvalue_ref]" 0 2
      "fst (get_ids [Named ''A'', Named ''B'', Cpp_type ''A'' True Lvalue_ref] event_id_init)"
      "snd (get_ids [Named ''A'', Named ''B'', Cpp_type ''A'' True Lvalue_ref] event_id_init)"]
  by simp

end
