(* ===== verification/Command_Dispatcher.thy ===== *)
theory Command_Dispatcher
  imports Id_Generators
begin

text \<open>
  Commands and their dispatcher (\<^verbatim>\<open>command/base_command.hpp\<close>,
  \<^verbatim>\<open>command/command_handler_wrapper.hpp\<close>, \<^verbatim>\<open>command/dispatcher.hpp\<close>). A handler is a label of
  a type parameter; dispatching returns the handler that is awaited and the command it is given, or
  the exception that is thrown instead.
\<close>

section \<open>Commands\<close>

record 'p command =
  command_type :: cpp_type
  command_id :: size_t
  command_payload :: 'p

text \<open>\<open>GenericCommand()\<close>: the identifier of the derived type is stored in the base.\<close>

definition make_command :: "cpp_type \<Rightarrow> 'p \<Rightarrow> id_state \<Rightarrow> 'p command \<times> id_state" where
  "make_command t p g =
     (case command_id_get t g of (i, g') \<Rightarrow>
        (\<lparr>command_type = t, command_id = i, command_payload = p\<rparr>, g'))"

section \<open>Handler wrappers\<close>

record 'h handler_wrapper =
  wrapped_type :: cpp_type
  wrapped_handler :: 'h

text \<open>
  The guard of the wrapper is written \<open>not base_cmd.id() == CommandIdGenerator::get<Command>()\<close>:
  the negation binds tighter than the comparison, so what is compared with the identifier of the
  handler's type is the truth value of \<open>not base_cmd.id()\<close>, one for identifier zero and zero
  for every other.
\<close>

definition wrapper_guard :: "size_t \<Rightarrow> size_t \<Rightarrow> bool" where
  "wrapper_guard cmd_id handled_id \<longleftrightarrow> (if cmd_id = 0 then 1 else 0) = handled_id"

definition wrapper_invoke ::
    "'h handler_wrapper \<Rightarrow> 'p command \<Rightarrow> id_state \<Rightarrow> ('h \<times> 'p command) result \<times> id_state" where
  "wrapper_invoke w c g =
     (case command_id_get (wrapped_type w) g of (i, g') \<Rightarrow>
        if wrapper_guard (command_id c) i
        then (Inl (Runtime_error ''Command cannot be handled by this particular handler.''), g')
        else (Inr (wrapped_handler w, c), g'))"

section \<open>The dispatcher\<close>

record 'h dispatcher =
  id_gen :: id_state
  cmd_handlers :: "size_t \<Rightarrow> 'h handler_wrapper option"

definition new_dispatcher :: "id_state \<Rightarrow> 'h dispatcher" where
  "new_dispatcher g = \<lparr>id_gen = g, cmd_handlers = (\<lambda>_. None)\<rparr>"

definition add_handler :: "cpp_type \<Rightarrow> 'h \<Rightarrow> ('h dispatcher, unit) eff" where
  "add_handler t h = (\<lambda>d.
     case command_id_get (decay t) (id_gen d) of (i, g) \<Rightarrow>
       (case cmd_handlers d i of
          Some _ \<Rightarrow>
            (Inl (Runtime_error ''Handler for requested command already exists''), d\<lparr>id_gen := g\<rparr>)
        | None \<Rightarrow>
            (Inr (),
             d\<lparr>id_gen := g,
               cmd_handlers := (cmd_handlers d)
                 (i := Some \<lparr>wrapped_type = decay t, wrapped_handler = h\<rparr>)\<rparr>)))"

definition dispatch :: "'p command \<Rightarrow> ('h dispatcher, 'h \<times> 'p command) eff" where
  "dispatch c = (\<lambda>d.
     case command_id_get (command_type c) (id_gen d) of (i, g) \<Rightarrow>
       (case cmd_handlers d i of
          None \<Rightarrow>
            (Inl (Runtime_error ''Cannot find handler for requested command''), d\<lparr>id_gen := g\<rparr>)
        | Some w \<Rightarrow>
            (case wrapper_invoke w c g of (r, g') \<Rightarrow> (r, d\<lparr>id_gen := g'\<rparr>))))"

text \<open>Building a command and dispatching it, as a caller does.\<close>

definition send_command :: "cpp_type \<Rightarrow> 'p \<Rightarrow> ('h dispatcher, 'h \<times> 'p command) eff" where
  "send_command t p = (\<lambda>d.
     case make_command t p (id_gen d) of (c, g) \<Rightarrow> dispatch c (d\<lparr>id_gen := g\<rparr>))"

section \<open>Lemmas\<close>

text \<open>
  Every registered wrapper sits under the identifier of its own type, and at most \<open>n\<close> types have
  an identifier.
\<close>

definition dispatcher_inv :: "nat \<Rightarrow> 'h dispatcher \<Rightarrow> bool" where
  "dispatcher_inv n d \<longleftrightarrow>
     (\<exists>ts. ids_inv 0 ts (id_gen d) \<and> length ts \<le> n)
     \<and> (\<forall>i w. cmd_handlers d i = Some w \<longrightarrow>
          static_ids (id_gen d) (wrapped_type w) = Some i \<and> decay (wrapped_type w) = wrapped_type w)"

text \<open>The handler a dispatcher holds for a type.\<close>

definition handler_of :: "'h dispatcher \<Rightarrow> cpp_type \<Rightarrow> 'h option" where
  "handler_of d t =
     (case static_ids (id_gen d) (decay t) of
        None \<Rightarrow> None
      | Some i \<Rightarrow> map_option wrapped_handler (cmd_handlers d i))"

lemma command_id_get_static:
  "command_id_get t g = (i, g') \<Longrightarrow> static_ids g' (decay t) = Some i"
  by (auto simp: command_id_get_def dest: static_id_records)

lemma command_id_get_stable:
  "command_id_get t g = (i, g') \<Longrightarrow> static_ids g u = Some j \<Longrightarrow> static_ids g' u = Some j"
  by (auto simp: command_id_get_def dest: static_id_stable)

lemma command_id_get_known: "static_ids g (decay t) = Some i \<Longrightarrow> command_id_get t g = (i, g)"
  by (simp add: command_id_get_def static_id_known)

lemma command_id_get_decay: "command_id_get (decay t) = command_id_get t"
  by (rule ext) (simp add: command_id_get_def)

text \<open>A wrapper whose type has the command's identifier never refuses the command.\<close>

lemma wrapper_guard_own: "\<not> wrapper_guard i i"
  by (auto simp: wrapper_guard_def)

lemma wrapper_invoke_own:
  assumes "static_ids g (decay (wrapped_type w)) = Some (Command_Dispatcher.command_id c)"
  shows "wrapper_invoke w c g = (Inr (wrapped_handler w, c), g)"
  using assms by (simp add: wrapper_invoke_def command_id_get_known wrapper_guard_own)

lemma dispatcher_inv_new: "dispatcher_inv 0 (new_dispatcher command_id_init)"
  using ids_inv_init(2) by (auto simp: dispatcher_inv_def new_dispatcher_def)

lemma dispatcher_inv_get:
  assumes inv: "dispatcher_inv n d" and get: "command_id_get t (id_gen d) = (i, g)"
  shows "dispatcher_inv (n + 1) (d\<lparr>id_gen := g\<rparr>)"
proof -
  from inv obtain ts where ts: "ids_inv 0 ts (id_gen d)" "length ts \<le> n"
    by (auto simp: dispatcher_inv_def)
  have "ids_inv 0 (known_types (decay t) ts) g"
    using static_id_keeps_inv [OF ts(1)] get by (simp add: command_id_get_def)
  moreover have "length (known_types (decay t) ts) \<le> n + 1"
    using ts(2) by (simp add: known_types_def)
  ultimately show ?thesis
    using inv command_id_get_stable [OF get] by (auto simp: dispatcher_inv_def)
qed

lemma dispatcher_inject:
  assumes "dispatcher_inv n d" and "n \<le> 2 ^ 64"
    and "static_ids (id_gen d) t = Some i" and "static_ids (id_gen d) u = Some j"
  shows "i = j \<longleftrightarrow> t = u"
proof -
  from assms(1,2) obtain ts where "ids_inv 0 ts (id_gen d)" "length ts \<le> 2 ^ 64"
    by (auto simp: dispatcher_inv_def)
  then show ?thesis using ids_inv_inject assms(3,4) by blast
qed

text \<open>Looking the identifier of a type up finds the handler of that type, and changes none.\<close>

lemma handler_of_get:
  assumes inv: "dispatcher_inv n d" and n: "n + 1 \<le> 2 ^ 64"
    and get: "command_id_get t (id_gen d) = (i, g)"
  shows "map_option wrapped_handler (cmd_handlers d i) = handler_of d t"
    and "handler_of (d\<lparr>id_gen := g\<rparr>) u = handler_of d u"
proof -
  let ?d = "d\<lparr>id_gen := g\<rparr>"
  note inv' = dispatcher_inv_get [OF inv get]
  note stable = command_id_get_stable [OF get]
  have fresh: "handler_of ?d v = None" if none: "static_ids (id_gen d) (decay v) = None" for v
  proof (rule ccontr)
    assume "handler_of ?d v \<noteq> None"
    then obtain j w where j: "static_ids g (decay v) = Some j" "cmd_handlers d j = Some w"
      by (auto simp: handler_of_def split: option.splits)
    with inv have w: "static_ids (id_gen d) (wrapped_type w) = Some j"
      by (auto simp: dispatcher_inv_def)
    then have "decay v = wrapped_type w"
      using dispatcher_inject [OF inv' n, of "decay v" j "wrapped_type w" j] j(1) stable by simp
    with w none show False by simp
  qed
  show eq: "handler_of ?d u = handler_of d u" for u
    using fresh [of u] stable by (cases "static_ids (id_gen d) (decay u)") (auto simp: handler_of_def)
  have "handler_of ?d t = map_option wrapped_handler (cmd_handlers d i)"
    using command_id_get_static [OF get] by (simp add: handler_of_def)
  with eq [of t] show "map_option wrapped_handler (cmd_handlers d i) = handler_of d t" by simp
qed

lemma add_handler_spec:
  assumes inv: "dispatcher_inv n d" and n: "n + 1 \<le> 2 ^ 64"
    and run: "add_handler t h d = (r, d')"
  shows "r = (if handler_of d t = None then Inr ()
              else Inl (Runtime_error ''Handler for requested command already exists''))
    \<and> handler_of d' = (\<lambda>u. if decay u = decay t \<and> handler_of d t = None then Some h else handler_of d u)
    \<and> dispatcher_inv (n + 1) d'"
proof -
  obtain i g where get: "command_id_get t (id_gen d) = (i, g)" by fastforce
  then have get': "command_id_get (decay t) (id_gen d) = (i, g)" by (simp add: command_id_get_decay)
  note look = handler_of_get [OF inv n get]
  note inv' = dispatcher_inv_get [OF inv get]
  note rec = command_id_get_static [OF get]
  show ?thesis
  proof (cases "cmd_handlers d i")
    case (Some w)
    then have some: "handler_of d t = Some (wrapped_handler w)" using look(1) by simp
    from Some run get' have "r = Inl (Runtime_error ''Handler for requested command already exists'')"
      and d': "d' = d\<lparr>id_gen := g\<rparr>" by (auto simp: add_handler_def)
    moreover have "handler_of d' = handler_of d" using look(2) d' by (simp add: fun_eq_iff)
    ultimately show ?thesis using some inv' by simp
  next
    case None
    then have none: "handler_of d t = None" using look(1) by simp
    let ?d = "d\<lparr>id_gen := g, cmd_handlers := (cmd_handlers d)
      (i := Some \<lparr>wrapped_type = decay t, wrapped_handler = h\<rparr>)\<rparr>"
    from None run get' have r: "r = Inr ()" and d': "d' = ?d" by (auto simp: add_handler_def)
    have "handler_of ?d u = (if decay u = decay t then Some h else handler_of d u)" for u
    proof (cases "decay u = decay t")
      case False
      then have "static_ids g (decay u) \<noteq> Some i"
        using dispatcher_inject [OF inv' n, of "decay u" i "decay t" i] rec by auto
      then have "handler_of ?d u = handler_of (d\<lparr>id_gen := g\<rparr>) u"
        by (auto simp: handler_of_def split: option.splits)
      with False look(2) show ?thesis by simp
    qed (use rec in \<open>simp add: handler_of_def\<close>)
    moreover have "dispatcher_inv (n + 1) ?d"
      using inv' rec by (auto simp: dispatcher_inv_def)
    ultimately show ?thesis using none r d' by (auto simp: fun_eq_iff)
  qed
qed

lemma send_command_spec:
  assumes inv: "dispatcher_inv n d" and n: "n + 1 \<le> 2 ^ 64"
    and run: "send_command t p d = (r, d')"
  shows "(case handler_of d t of
      None \<Rightarrow> r = Inl (Runtime_error ''Cannot find handler for requested command'')
    | Some h \<Rightarrow> (\<exists>c. r = Inr (h, c) \<and> command_type c = t \<and> command_payload c = p))
    \<and> handler_of d' = handler_of d \<and> dispatcher_inv (n + 1) d'"
proof -
  obtain i g where get: "command_id_get t (id_gen d) = (i, g)" by fastforce
  note rec = command_id_get_static [OF get]
  have again: "command_id_get t g = (i, g)" by (rule command_id_get_known [OF rec])
  note look = handler_of_get [OF inv n get]
  note inv' = dispatcher_inv_get [OF inv get]
  let ?c = "\<lparr>command_type = t, command_id = i, command_payload = p\<rparr>"
  show ?thesis
  proof (cases "cmd_handlers d i")
    case None
    with run get again have "r = Inl (Runtime_error ''Cannot find handler for requested command'')"
      and d': "d' = d\<lparr>id_gen := g\<rparr>"
      by (auto simp: send_command_def make_command_def dispatch_def)
    moreover have "handler_of d t = None" using look(1) None by simp
    moreover have "handler_of d' = handler_of d" using look(2) d' by (simp add: fun_eq_iff)
    ultimately show ?thesis using inv' by simp
  next
    case (Some w)
    with inv' have "static_ids g (decay (wrapped_type w)) = Some (Command_Dispatcher.command_id ?c)"
      by (auto simp: dispatcher_inv_def)
    from wrapper_invoke_own [OF this] Some run get again
    have "r = Inr (wrapped_handler w, ?c)" and d': "d' = d\<lparr>id_gen := g\<rparr>"
      by (auto simp: send_command_def make_command_def dispatch_def)
    moreover have "handler_of d t = Some (wrapped_handler w)" using look(1) Some by simp
    moreover have "handler_of d' = handler_of d" using look(2) d' by (simp add: fun_eq_iff)
    ultimately show ?thesis using inv' by simp
  qed
qed

section \<open>Properties\<close>

text \<open>C12: The dispatcher implements a map from command types to handlers: registering succeeds
  exactly for a type without handler and changes that type only; a command reaches the handler of
  its own type with its payload, and one without handler is refused.\<close>

theorem dispatcher_refines_map:
  assumes "dispatcher_inv n d" and "n + 1 \<le> 2 ^ 64"
    and "add_handler t h d = (r, d1)" and "send_command u p d = (s, d2)"
  shows "r = (if handler_of d t = None then Inr ()
              else Inl (Runtime_error ''Handler for requested command already exists''))
    \<and> handler_of d1 = (\<lambda>v. if decay v = decay t \<and> handler_of d t = None then Some h else handler_of d v)
    \<and> (case handler_of d u of
         None \<Rightarrow> s = Inl (Runtime_error ''Cannot find handler for requested command'')
       | Some k \<Rightarrow> (\<exists>c. s = Inr (k, c) \<and> command_type c = u \<and> command_payload c = p))
    \<and> handler_of d2 = handler_of d
    \<and> dispatcher_inv (n + 1) d1 \<and> dispatcher_inv (n + 1) d2"
  using add_handler_spec [OF assms(1-3)] send_command_spec [OF assms(1,2,4)] by blast

theorem dispatcher_refines_map_witness:
  "dispatcher_inv 1 (snd (add_handler (Named ''Stop'') (0::nat) (new_dispatcher command_id_init)))"
  using dispatcher_refines_map [OF dispatcher_inv_new,
      of "Named ''Stop''" "0::nat" _ _ "Named ''Stop''" "()"]
  by (cases "add_handler (Named ''Stop'') (0::nat) (new_dispatcher command_id_init)";
      cases "send_command (Named ''Stop'') () (new_dispatcher command_id_init :: nat dispatcher)") auto

text \<open>The guard of a handler wrapper does not compare identifiers: it lets every command with a
  nonzero identifier through to a handler whose type has a different nonzero identifier, and refuses
  only pairs of a zero with a nonzero identifier or of zero with one.\<close>

theorem wrapper_guard_accepts_foreign_commands:
  assumes "static_ids g (decay (wrapped_type w)) = Some i"
  shows "wrapper_invoke w c g =
    (if Command_Dispatcher.command_id c = 0 \<and> i = 1 \<or> Command_Dispatcher.command_id c \<noteq> 0 \<and> i = 0
     then (Inl (Runtime_error ''Command cannot be handled by this particular handler.''), g)
     else (Inr (wrapped_handler w, c), g))"
  using assms by (auto simp: wrapper_invoke_def command_id_get_known wrapper_guard_def)

theorem wrapper_guard_accepts_foreign_commands_witness:
  "fst (wrapper_invoke \<lparr>wrapped_type = Named ''A'', wrapped_handler = ''handler of A''\<rparr>
          \<lparr>command_type = Named ''B'', command_id = 3, command_payload = ()\<rparr>
          \<lparr>ids_counter = 4, static_ids = [Named ''A'' \<mapsto> 2, Named ''B'' \<mapsto> 3]\<rparr>)
   = Inr (''handler of A'', \<lparr>command_type = Named ''B'', command_id = 3, command_payload = ()\<rparr>)"
  by (subst wrapper_guard_accepts_foreign_commands [where i = 2]) (simp_all add: decay_def)

end
