(* ===== verification/Lookup_Tables.thy ===== *)
theory Lookup_Tables
  imports Prelude
begin

text \<open>
  The three constant two-way tables of the program: the recursive \<open>Mapper\<close>
  (\<^verbatim>\<open>utils/mapper.hpp\<close>), the array \<open>StaticMap\<close> (\<^verbatim>\<open>utils/static_map.hpp\<close>) and the tuple of ties
  \<open>EnumMapper\<close> (\<^verbatim>\<open>utils/enum_mapper.hpp\<close>). All three answer with the first matching entry in
  either direction; what they do without a match differs.
\<close>

section \<open>Mapper\<close>

text \<open>A \<open>Mapper\<close> holds one pair and the mapper of the rest; the last one has no rest.\<close>

datatype ('k, 'v) mapper = Mapper_last "'k \<times> 'v" | Mapper_next "'k \<times> 'v" "('k, 'v) mapper"

definition mapper_automap :: "'a \<Rightarrow> 'a \<Rightarrow> 'b \<Rightarrow> 'b result" where
  "mapper_automap provided actual ret =
     (if provided \<noteq> actual then Inl (Invalid_argument ''Key does not exist'') else Inr ret)"

fun mapper_map_key :: "('k, 'v) mapper \<Rightarrow> 'k \<Rightarrow> 'v result" where
  "mapper_map_key (Mapper_last (k, v)) key = mapper_automap key k v"
| "mapper_map_key (Mapper_next (k, v) rest) key =
     (if key = k then Inr v else mapper_map_key rest key)"

fun mapper_map_value :: "('k, 'v) mapper \<Rightarrow> 'v \<Rightarrow> 'k result" where
  "mapper_map_value (Mapper_last (k, v)) value = mapper_automap value v k"
| "mapper_map_value (Mapper_next (k, v) rest) value =
     (if value = v then Inr k else mapper_map_value rest value)"

section \<open>StaticMap\<close>

record ('k, 'v) static_map =
  map_data :: "('k \<times> 'v) list"

text \<open>\<open>size - 1\<close> is computed in \<open>std::size_t\<close>: for an empty map it is the largest index.\<close>

definition static_map_at_index :: "('k, 'v) static_map \<Rightarrow> 64 word \<Rightarrow> 'v result" where
  "static_map_at_index m index =
     (if of_nat (length (map_data m)) - 1 < index
      then Inl (Out_of_range ''Index is out of range'')
      else if unat index < length (map_data m)
      then Inr (snd (map_data m ! unat index))
      else Inl (Undefined_behaviour ''std::array index''))"

definition static_map_at_key :: "('k, 'v) static_map \<Rightarrow> 'k \<Rightarrow> 'v result" where
  "static_map_at_key m key =
     (case List.find (\<lambda>e. key = fst e) (map_data m) of
        None \<Rightarrow> Inl (Range_error ''range error'')
      | Some e \<Rightarrow> Inr (snd e))"

definition static_map_at_value :: "('k, 'v) static_map \<Rightarrow> 'v \<Rightarrow> 'k result" where
  "static_map_at_value m value =
     (case List.find (\<lambda>e. value = snd e) (map_data m) of
        None \<Rightarrow> Inl (Range_error ''range error'')
      | Some e \<Rightarrow> Inr (fst e))"

definition static_map_contains :: "('k, 'v) static_map \<Rightarrow> 'k \<Rightarrow> bool" where
  "static_map_contains m key \<longleftrightarrow> List.find (\<lambda>e. key = fst e) (map_data m) \<noteq> None"

section \<open>EnumMapper\<close>

text \<open>
  A tie names its two values in either order of the types; which one is the source is decided by
  the types, \<open>'s\<close> for the source and \<open>'d\<close> for the destination.
\<close>

datatype ('s, 'd) tie = Source_first 's 'd | Destination_first 'd 's

definition try_to_map :: "('s, 'd) tie \<Rightarrow> 's \<Rightarrow> 'd option \<Rightarrow> bool \<times> 'd option" where
  "try_to_map t src ret =
     (case t of
        Source_first s d \<Rightarrow> if s = src then (True, Some d) else (False, ret)
      | Destination_first d s \<Rightarrow> if s = src then (True, Some d) else (False, ret))"

text \<open>The fold over \<open>||\<close> stops at the first tie that maps.\<close>

fun mape_types :: "('s, 'd) tie list \<Rightarrow> 's \<Rightarrow> 'd option \<Rightarrow> 'd option" where
  "mape_types [] src dst = dst"
| "mape_types (t # ts) src dst =
     (case try_to_map t src dst of (done, dst') \<Rightarrow> if done then dst' else mape_types ts src dst')"

definition enum_map :: "('s, 'd) tie list \<Rightarrow> 's \<Rightarrow> 'd option" where
  "enum_map cfg src = mape_types cfg src None"

definition enum_map_safe :: "('s, 'd) tie list \<Rightarrow> 's \<Rightarrow> 'd result" where
  "enum_map_safe cfg src =
     (case enum_map cfg src of
        None \<Rightarrow> Inl (Runtime_error
          ''Source type cannot be mapped. Destination value not found in configuration.'')
      | Some d \<Rightarrow> Inr d)"

text \<open>The same configuration used the other way round.\<close>

fun swap_tie :: "('s, 'd) tie \<Rightarrow> ('d, 's) tie" where
  "swap_tie (Source_first s d) = Destination_first s d"
| "swap_tie (Destination_first d s) = Source_first d s"

section \<open>The interface of a two-way table\<close>

text \<open>
  Every table answers a key with the first entry that has it and a value with the first entry that
  has it, and reports a missing one with its own exception.
\<close>

definition lookup_first :: "exn \<Rightarrow> ('a \<times> 'b) list \<Rightarrow> 'a \<Rightarrow> 'b result" where
  "lookup_first missing es a = (case map_of es a of None \<Rightarrow> Inl missing | Some b \<Rightarrow> Inr b)"

locale two_way_table =
  fixes entries :: "'t \<Rightarrow> ('k \<times> 'v) list"
    and by_key :: "'t \<Rightarrow> 'k \<Rightarrow> 'v result"
    and by_value :: "'t \<Rightarrow> 'v \<Rightarrow> 'k result"
    and missing :: exn
  assumes by_key: "by_key t k = lookup_first missing (entries t) k"
    and by_value: "by_value t v = lookup_first missing (map prod.swap (entries t)) v"
begin

lemma key_found: "by_key t k = Inr v \<longleftrightarrow> map_of (entries t) k = Some v"
  by (simp add: by_key lookup_first_def split: option.splits)

lemma key_missing: "by_key t k = Inl e \<longleftrightarrow> e = missing \<and> k \<notin> fst ` set (entries t)"
  unfolding by_key lookup_first_def map_of_eq_None_iff [symmetric] by (auto split: option.splits)

lemma value_found: "by_value t v = Inr k \<longleftrightarrow> map_of (map prod.swap (entries t)) v = Some k"
  by (simp add: by_value lookup_first_def split: option.splits)

lemma value_missing: "by_value t v = Inl e \<longleftrightarrow> e = missing \<and> v \<notin> snd ` set (entries t)"
proof -
  have "fst ` set (map prod.swap (entries t)) = snd ` set (entries t)" by force
  then have "v \<notin> snd ` set (entries t) \<longleftrightarrow> map_of (map prod.swap (entries t)) v = None"
    by (simp only: map_of_eq_None_iff)
  then show ?thesis unfolding by_value lookup_first_def by (auto split: option.splits)
qed

text \<open>With distinct values, a value leads back to the key it came from, and with distinct keys
  a key to the value.\<close>

lemma key_then_value:
  assumes "distinct (map snd (entries t))" and "by_key t k = Inr v"
  shows "by_value t v = Inr k"
proof -
  from assms(2) have "(k, v) \<in> set (entries t)" unfolding key_found by (rule map_of_SomeD)
  then have "(v, k) \<in> set (map prod.swap (entries t))" by force
  moreover have "distinct (map fst (map prod.swap (entries t)))" using assms(1) by (simp add: comp_def)
  ultimately show ?thesis unfolding value_found by (metis map_of_is_SomeI)
qed

lemma value_then_key:
  assumes "distinct (map fst (entries t))" and "by_value t v = Inr k"
  shows "by_key t k = Inr v"
proof -
  from assms(2) have "(v, k) \<in> set (map prod.swap (entries t))"
    unfolding value_found by (rule map_of_SomeD)
  then have "(k, v) \<in> set (entries t)" by force
  with assms(1) show ?thesis unfolding key_found by simp
qed

lemma two_way:
  assumes "distinct (map fst (entries t))" and "distinct (map snd (entries t))"
  shows "by_key t k = Inr v \<longleftrightarrow> by_value t v = Inr k"
  using assms key_then_value value_then_key by blast

end

section \<open>The tables provide it\<close>

fun mapper_entries :: "('k, 'v) mapper \<Rightarrow> ('k \<times> 'v) list" where
  "mapper_entries (Mapper_last kv) = [kv]"
| "mapper_entries (Mapper_next kv rest) = kv # mapper_entries rest"

fun tie_entry :: "('s, 'd) tie \<Rightarrow> 's \<times> 'd" where
  "tie_entry (Source_first s d) = (s, d)"
| "tie_entry (Destination_first d s) = (s, d)"

lemma find_fst_map_of: "List.find (\<lambda>e. k = fst e) es = map_option (Pair k) (map_of es k)"
  by (induction es) auto

lemma find_snd_map_of:
  "List.find (\<lambda>e. v = snd e) es = map_option (\<lambda>k. (k, v)) (map_of (map prod.swap es) v)"
  by (induction es) auto

lemma mape_types_map_of:
  "mape_types cfg src dst = (case map_of (map tie_entry cfg) src of None \<Rightarrow> dst | Some d \<Rightarrow> Some d)"
  by (induction cfg) (auto simp: try_to_map_def split: tie.splits)

lemma tie_entry_swap: "tie_entry (swap_tie t) = prod.swap (tie_entry t)"
  by (cases t) simp_all

lemma map_tie_entry_swap: "map tie_entry (map swap_tie cfg) = map prod.swap (map tie_entry cfg)"
  by (simp add: tie_entry_swap)

interpretation mapper: two_way_table mapper_entries mapper_map_key mapper_map_value
  "Invalid_argument ''Key does not exist''"
proof
  show "mapper_map_key m k = lookup_first (Invalid_argument ''Key does not exist'') (mapper_entries m) k"
    for m :: "('k, 'v) mapper" and k
    by (induction m k rule: mapper_map_key.induct) (simp_all add: mapper_automap_def lookup_first_def)
  show "mapper_map_value m v =
      lookup_first (Invalid_argument ''Key does not exist'') (map prod.swap (mapper_entries m)) v"
    for m :: "('k, 'v) mapper" and v
    by (induction m v rule: mapper_map_value.induct) (simp_all add: mapper_automap_def lookup_first_def)
qed

interpretation static_tab: two_way_table map_data static_map_at_key static_map_at_value
  "Range_error ''range error''"
  by unfold_locales (simp_all add: static_map_at_key_def static_map_at_value_def lookup_first_def
      find_fst_map_of find_snd_map_of split: option.splits)

interpretation enum_tab: two_way_table "map tie_entry" enum_map_safe "enum_map_safe \<circ> map swap_tie"
  "Runtime_error ''Source type cannot be mapped. Destination value not found in configuration.''"
  by unfold_locales (simp_all add: enum_map_safe_def enum_map_def lookup_first_def
      mape_types_map_of map_tie_entry_swap del: map_map split: option.splits)

text \<open>An index into a static map that is not empty is answered or refused; into an empty one it is
  neither.\<close>

lemma static_map_at_index_bounds:
  assumes "length (map_data m) < 2 ^ 64"
  shows "static_map_at_index m i =
    (if map_data m = [] then Inl (Undefined_behaviour ''std::array index'')
     else if unat i < length (map_data m) then Inr (snd (map_data m ! unat i))
     else Inl (Out_of_range ''Index is out of range''))"
proof (cases "map_data m = []")
  case True
  have "\<not> (- 1 :: 64 word) < i" by (simp add: not_less)
  with True show ?thesis by (simp add: static_map_at_index_def)
next
  case False
  then obtain n where n: "length (map_data m) = Suc n" by (cases "map_data m") auto
  then have "of_nat (length (map_data m)) - 1 = (of_nat n :: 64 word)" by simp
  moreover have "(of_nat n :: 64 word) < i \<longleftrightarrow> \<not> unat i < length (map_data m)"
    using assms n by (simp add: word_less_nat_alt unat_of_nat not_less_eq)
  ultimately show ?thesis using False by (simp add: static_map_at_index_def)
qed

section \<open>Properties\<close>

text \<open>In every table whose keys are distinct and whose values are distinct, mapping a key and
  mapping its value back are inverse, for the recursive mapper, the static map and the enum mapper;
  and a key without an entry is reported by the exception of the table.\<close>

theorem tables_round_trip:
  assumes "distinct (map fst (mapper_entries m))" and "distinct (map snd (mapper_entries m))"
    and "map_data s = mapper_entries m" and "map tie_entry e = mapper_entries m"
  shows "(mapper_map_key m k = Inr v \<longleftrightarrow> mapper_map_value m v = Inr k)
    \<and> (static_map_at_key s k = Inr v \<longleftrightarrow> static_map_at_value s v = Inr k)
    \<and> (enum_map_safe e k = Inr v \<longleftrightarrow> enum_map_safe (map swap_tie e) v = Inr k)
    \<and> static_map_contains s k = (\<exists>w. mapper_map_key m k = Inr w)
    \<and> (k \<notin> fst ` set (mapper_entries m) \<longleftrightarrow>
        mapper_map_key m k = Inl (Invalid_argument ''Key does not exist''))
    \<and> (k \<notin> fst ` set (mapper_entries m) \<longleftrightarrow> static_map_at_key s k = Inl (Range_error ''range error''))"
  using mapper.two_way [OF assms(1,2), of k v] static_tab.two_way [of s k v]
    enum_tab.two_way [of e k v] assms mapper.key_missing [of m k] static_tab.key_missing [of s k]
  by (simp add: static_map_contains_def find_fst_map_of mapper.key_found)

theorem tables_round_trip_witness:
  "mapper_map_value (Mapper_next (''OPEN'', 1::nat) (Mapper_last (''CLOSE'', 2))) 2 = Inr ''CLOSE''"
  using tables_round_trip [of "Mapper_next (''OPEN'', 1::nat) (Mapper_last (''CLOSE'', 2))"
      "\<lparr>map_data = [(''OPEN'', 1), (''CLOSE'', 2)]\<rparr>"
      "[Source_first ''OPEN'' 1, Destination_first 2 ''CLOSE'']" "''CLOSE''" 2]
  by (simp add: mapper_automap_def)

end
