(* ===== verification/Mqtt_Types.thy ===== *)
theory Mqtt_Types
  imports Prelude
begin

text \<open>
  Error codes, packets and the network of the MQTT client (\<^verbatim>\<open>mqtt/error.hpp\<close>, \<^verbatim>\<open>mqtt/expected.hpp\<close>,
  \<^verbatim>\<open>mqtt/will.hpp\<close>, \<^verbatim>\<open>mqtt/opts.hpp\<close>, the first part of \<^verbatim>\<open>mqtt/async_mqtt_client.hpp\<close>). What the
  asio and async_mqtt libraries do is the record \<open>net\<close>, a parameter of every definition that uses
  the network, over an environment \<open>'e\<close> of its own.
\<close>

section \<open>Errors\<close>

datatype app_error =
    Timeout | NoService | ConnectionRefused | UnknownPacket | QosNotSupported
  | Disconnected | Reconnected | InvalidConfig | PublishFailure | SubscriptionFailure

definition app_error_value :: "app_error \<Rightarrow> int" where
  "app_error_value e = (case e of
     Timeout \<Rightarrow> 1 | NoService \<Rightarrow> 2 | ConnectionRefused \<Rightarrow> 3 | UnknownPacket \<Rightarrow> 4
   | QosNotSupported \<Rightarrow> 5 | Disconnected \<Rightarrow> 6 | Reconnected \<Rightarrow> 7 | InvalidConfig \<Rightarrow> 8
   | PublishFailure \<Rightarrow> 9 | SubscriptionFailure \<Rightarrow> 10)"

text \<open>\<open>ErrorCategory::message\<close>, on the integer of an error code.\<close>

definition category_message :: "int \<Rightarrow> string" where
  "category_message v =
     (if v = app_error_value Timeout then ''timeout''
      else if v = app_error_value NoService then ''no_service''
      else if v = app_error_value ConnectionRefused then ''connection_refused''
      else if v = app_error_value UnknownPacket then ''unknown_packet''
      else if v = app_error_value QosNotSupported then ''qos_not_supported''
      else if v = app_error_value Reconnected then ''reconnected''
      else if v = app_error_value Disconnected then ''disconnected''
      else if v = app_error_value InvalidConfig then ''invalid_config''
      else if v = app_error_value PublishFailure then ''publish_failure''
      else if v = app_error_value SubscriptionFailure then ''subscription_failure''
      else ''unrecognized_error'')"

text \<open>
  An error code is a value of a system category or one of the application's own. The system value
  zero is success. An \<open>Error\<close> is a code with a message.
\<close>

datatype error_code = Sys int | App app_error

type_synonym error = "error_code \<times> string"
type_synonym 'a expected = "error + 'a"

definition no_error :: error where
  "no_error = (Sys 0, '''')"

definition is_error :: "error \<Rightarrow> bool" where
  "is_error e = (case fst e of Sys v \<Rightarrow> v \<noteq> 0 | App a \<Rightarrow> True)"

definition make_error_code :: "app_error \<Rightarrow> error_code" where
  "make_error_code e = App e"

section \<open>Packets\<close>

datatype qos = At_most_once | At_least_once | Exactly_once

text \<open>The enumerators compare by their numbers.\<close>

fun qos_level :: "qos \<Rightarrow> nat" where
  "qos_level At_most_once = 0"
| "qos_level At_least_once = 1"
| "qos_level Exactly_once = 2"

lemma qos_level_inject: "qos_level q = qos_level r \<longleftrightarrow> q = r"
  by (cases q; cases r) simp_all

instantiation qos :: linorder
begin

definition less_eq_qos :: "qos \<Rightarrow> qos \<Rightarrow> bool" where
  "less_eq_qos q r \<longleftrightarrow> qos_level q \<le> qos_level r"

definition less_qos :: "qos \<Rightarrow> qos \<Rightarrow> bool" where
  "less_qos q r \<longleftrightarrow> qos_level q < qos_level r"

instance
  by standard (auto simp: less_eq_qos_def less_qos_def qos_level_inject)

end

lemma above_at_most_once [simp]: "At_most_once < q \<longleftrightarrow> q \<noteq> At_most_once"
  by (cases q) (simp_all add: less_qos_def)

record pubopts =
  qos_of :: qos
  retain :: bool

record will_config =
  will_topic :: string
  will_message :: string
  will_pubopts :: pubopts

type_synonym packet_id = "16 word"

record connect_packet =
  clean_session_flag :: bool
  keep_alive_value :: "16 word"
  connect_client_id :: string
  connect_will :: "will_config option"
  connect_username :: "string option"
  connect_password :: "string option"

record publish_packet =
  publish_id :: packet_id
  publish_topic :: string
  publish_payload :: string
  publish_opts :: pubopts

record subscribe_packet =
  subscribe_id :: packet_id
  subscribe_topics :: "(string \<times> qos) list"

datatype suback_code = Granted qos | Suback_failure

record suback_packet =
  suback_id :: packet_id
  suback_entries :: "suback_code list"

text \<open>What the client sends, and what it receives.\<close>

datatype out_packet =
    Connect_packet connect_packet
  | Publish_packet publish_packet
  | Subscribe_packet subscribe_packet

datatype in_packet =
    Connack bool nat
  | Publish_in publish_packet
  | Puback packet_id
  | Suback suback_packet
  | Other_packet string

datatype received =
    Recv_error error_code
  | Recv_packet in_packet
  | Recv_unknown

text \<open>The variant \<open>ReceiveResult_t\<close>.\<close>

datatype receive_result =
    Got_publish publish_packet
  | Got_puback packet_id
  | Got_suback suback_packet

definition any_suback_failure :: "suback_packet \<Rightarrow> bool" where
  "any_suback_failure p \<longleftrightarrow> list_ex (\<lambda>c. c = Suback_failure) (suback_entries p)"

definition supported_qos :: "qos \<Rightarrow> bool" where
  "supported_qos q \<longleftrightarrow> q = At_least_once \<or> q = At_most_once"

definition default_qos :: qos where
  "default_qos = At_least_once"

section \<open>The network\<close>

text \<open>
  The operations of asio and async_mqtt the client awaits, each a function of the environment:
  name resolution, connecting, sending, receiving, acquiring a packet identifier and the reconnect
  timer; also \<open>error_code::what()\<close>, the slot of the application's category, and whether assertions
  are compiled out. Boost.System gives a code of another library's category, as the application's
  is, the value of the code plus a thousand times a number taken from the address of the category.
\<close>

record 'e net =
  net_resolve :: "string \<Rightarrow> string \<Rightarrow> 'e \<Rightarrow> (error_code \<times> string list) \<times> 'e"
  net_connect :: "string list \<Rightarrow> 'e \<Rightarrow> error_code \<times> 'e"
  net_send :: "out_packet \<Rightarrow> 'e \<Rightarrow> error_code \<times> 'e"
  net_recv :: "'e \<Rightarrow> received \<times> 'e"
  net_acquire :: "'e \<Rightarrow> packet_id option \<times> 'e"
  net_wait :: "int \<Rightarrow> 'e \<Rightarrow> error_code \<times> 'e"
  code_what :: "error_code \<Rightarrow> string"
  category_slot :: nat
  ndebug :: bool

definition code_value :: "'e net \<Rightarrow> error_code \<Rightarrow> int" where
  "code_value N c = (case c of Sys v \<Rightarrow> v | App e \<Rightarrow> app_error_value e + 1000 * int (category_slot N))"

definition unmapped :: "'e net \<Rightarrow> error_code \<Rightarrow> exn" where
  "unmapped N c = Runtime_error (''Error does not have appropriate mapping: '' @ code_what N c
     @ '', errc: '' @ int_to_string (code_value N c))"

definition map_error_code :: "'e net \<Rightarrow> error_code \<Rightarrow> app_error result" where
  "map_error_code N c =
     (let v = code_value N c in
      if v = 110 then Inr Timeout
      else if v = 101 \<or> v = 2 then Inr NoService
      else if v = 111 then Inr ConnectionRefused
      else Inl (unmapped N c))"

section \<open>Lemmas\<close>

lemma app_error_value_range: "1 \<le> app_error_value e \<and> app_error_value e \<le> 10"
  by (cases e) (simp_all add: app_error_value_def)

lemma app_error_value_inject: "app_error_value e = app_error_value f \<longleftrightarrow> e = f"
  by (cases e; cases f) (simp_all add: app_error_value_def)

lemma is_error_simps [simp]:
  "is_error (App a, m)" "is_error (Sys v, m) \<longleftrightarrow> v \<noteq> 0" "\<not> is_error no_error"
  by (simp_all add: is_error_def no_error_def)

text \<open>
  The values the mapping knows are those of the system; a code of the application's own category
  is never among them, but for \<open>NoService\<close> when its category has slot zero.
\<close>

lemma offset_value:
  fixes k v :: int
  assumes "1 \<le> v" and "v \<le> 10"
  shows "v + 1000 * k \<noteq> 110" "v + 1000 * k \<noteq> 101" "v + 1000 * k \<noteq> 111"
    and "v + 1000 * k = 2 \<longleftrightarrow> k = 0 \<and> v = 2"
proof -
  have m: "(v + 1000 * k) mod 1000 = v" using assms by simp
  have eq: "v + 1000 * k = c \<Longrightarrow> v = c mod 1000" for c using m by metis
  then show "v + 1000 * k \<noteq> 110" "v + 1000 * k \<noteq> 101" "v + 1000 * k \<noteq> 111"
    and "v + 1000 * k = 2 \<longleftrightarrow> k = 0 \<and> v = 2"
    using assms eq [of 110] eq [of 101] eq [of 111] eq [of 2] by auto
qed

lemma map_error_code_app:
  "map_error_code N (App e) =
    (if e = NoService \<and> category_slot N = 0 then Inr NoService else Inl (unmapped N (App e)))"
proof -
  have "1 \<le> app_error_value e" "app_error_value e \<le> 10" using app_error_value_range by simp_all
  note off = offset_value [OF this, of "int (category_slot N)"]
  have "app_error_value e = 2 \<longleftrightarrow> e = NoService"
    using app_error_value_inject [of e NoService] by (simp add: app_error_value_def)
  with off show ?thesis by (auto simp: map_error_code_def code_value_def Let_def)
qed

lemma map_error_code_sys:
  "map_error_code N (Sys v) = Inr f \<longleftrightarrow>
    v = 110 \<and> f = Timeout \<or> (v = 101 \<or> v = 2) \<and> f = NoService \<or> v = 111 \<and> f = ConnectionRefused"
  by (auto simp: map_error_code_def code_value_def Let_def)

end
