(* ===== verification/Mqtt_Client.thy ===== *)
theory Mqtt_Client
  imports Mqtt_Types
begin

text \<open>
  The MQTT client (\<^verbatim>\<open>mqtt/async_mqtt_client.hpp\<close>). A coroutine of the client is a computation over
  its state, which holds the environment of the network. \<open>try_reconnect\<close> and \<open>async_connect\<close> call
  each other: the loop of the former runs on fuel, one unit for every iteration, and \<open>None\<close> is a
  run that has not returned within it.
\<close>

section \<open>State\<close>

record client_config =
  unique_id :: string
  username :: string
  password :: string
  host :: string
  port :: string
  clean_session :: bool
  keep_alive :: "16 word"
  config_max_attempts :: int
  config_reconnect_delay :: int

record 'e client =
  config :: client_config
  will :: "will_config option"
  is_connected :: bool
  attempt :: int
  max_attempts :: int
  reconnect_delay :: int
  env :: 'e

type_synonym ('e, 'a) client_op = "('e client, 'a) co"

definition new_client :: "client_config \<Rightarrow> 'e \<Rightarrow> 'e client" where
  "new_client cfg e =
     \<lparr>config = cfg, will = None, is_connected = False, attempt = 0,
      max_attempts = config_max_attempts cfg, reconnect_delay = config_reconnect_delay cfg, env = e\<rparr>"

definition set_will :: "will_config \<Rightarrow> 'e client \<Rightarrow> 'e client" where
  "set_will w c = c\<lparr>will := Some w\<rparr>"

definition connected :: "'e client \<Rightarrow> bool" where
  "connected c = is_connected c"

text \<open>Awaiting an operation of the network, and mapping an error code, which may throw.\<close>

definition await :: "('e \<Rightarrow> 'a \<times> 'e) \<Rightarrow> ('e, 'a) client_op" where
  "await f = (\<lambda>c. case f (env c) of (x, e) \<Rightarrow> Some (Inr x, c\<lparr>env := e\<rparr>))"

definition mapped_error :: "'e net \<Rightarrow> error_code \<Rightarrow> string \<Rightarrow> ('e, error) client_op" where
  "mapped_error N ec msg =
     (case map_error_code N ec of Inl x \<Rightarrow> co_throw x | Inr e \<Rightarrow> co_return (make_error_code e, msg))"

section \<open>Connecting\<close>

definition get_credential :: "string \<Rightarrow> string option" where
  "get_credential s = (if s = [] then None else Some s)"

definition connect_packet_of :: "'e client \<Rightarrow> connect_packet" where
  "connect_packet_of c =
     \<lparr>clean_session_flag = clean_session (config c), keep_alive_value = keep_alive (config c),
      connect_client_id = unique_id (config c), connect_will = will c,
      connect_username = get_credential (username (config c)),
      connect_password = get_credential (password (config c))\<rparr>"

definition async_send_con :: "'e net \<Rightarrow> ('e, error) client_op" where
  "async_send_con N = (\<lambda>c.
     co_bind (await (net_send N (Connect_packet (connect_packet_of c))))
       (\<lambda>ec. if is_error (ec, '''') then co_return (ec, '''') else co_return no_error) c)"

text \<open>
  The three coroutines between \<open>try_reconnect\<close> and itself, over the \<open>try_reconnect\<close> they call.
\<close>

definition handle_recv_error_with ::
    "('e, bool) client_op \<Rightarrow> 'e net \<Rightarrow> error_code \<Rightarrow> ('e, error) client_op" where
  "handle_recv_error_with again N ec = (\<lambda>c.
     if is_connected c
     then co_bind again (\<lambda>reconnected c.
       if reconnected then co_return (make_error_code Reconnected, ''Client got reconnected'') c
       else co_return (make_error_code Disconnected,
              ''Client got disconnected '' @
              (if attempt c = max_attempts c then ''after auto-reconnect failure'' else '''')) c) c
     else mapped_error N ec '''' c)"

definition async_recv_conack_with ::
    "('e, bool) client_op \<Rightarrow> 'e net \<Rightarrow> ('e, error) client_op" where
  "async_recv_conack_with again N =
     co_bind (await (net_recv N)) (\<lambda>r.
       case r of
         Recv_error ec \<Rightarrow> handle_recv_error_with again N ec
       | Recv_packet (Connack session_present code) \<Rightarrow> (\<lambda>c. co_return no_error (c\<lparr>is_connected := True\<rparr>))
       | _ \<Rightarrow> co_return no_error)"

definition async_connect_with ::
    "('e, bool) client_op \<Rightarrow> 'e net \<Rightarrow> ('e, error) client_op" where
  "async_connect_with again N = (\<lambda>c.
     co_bind (await (net_resolve N (host (config c)) (port (config c)))) (\<lambda>(res_ec, eps).
       if is_error (res_ec, '''')
       then co_return (make_error_code NoService, ''Error while resolving name of the broker'')
       else co_bind (await (net_connect N eps)) (\<lambda>con_ec.
         if is_error (con_ec, '''')
         then mapped_error N con_ec ''Error while establishing connection''
         else co_bind (async_send_con N) (\<lambda>se.
           if is_error se then mapped_error N (fst se) ''Error while sending ConnectPacket''
           else co_bind (async_recv_conack_with again N) (\<lambda>re.
             if is_error re then mapped_error N (fst re) ''Error while receiving ConnectAckPacket''
             else (\<lambda>c. co_return no_error (c\<lparr>attempt := 0\<rparr>)))))) c)"

text \<open>\<open>++reconnect_.attempt\<close> on an \<open>int\<close>.\<close>

definition next_attempt :: "('e, int) client_op" where
  "next_attempt = (\<lambda>c.
     if attempt c = 2 ^ 31 - 1 then co_throw (Undefined_behaviour ''signed overflow'') c
     else co_return (attempt c + 1) (c\<lparr>attempt := attempt c + 1\<rparr>))"

definition try_reconnect_with :: "('e, bool) client_op \<Rightarrow> ('e, bool) client_op" where
  "try_reconnect_with loop = (\<lambda>c.
     if max_attempts c = 0 then co_return False c
     else loop (c\<lparr>attempt := 0\<rparr>))"

primrec reconnect_loop :: "'e net \<Rightarrow> nat \<Rightarrow> ('e, bool) client_op" where
  "reconnect_loop N 0 = (\<lambda>c. None)"
| "reconnect_loop N (Suc n) =
     co_bind next_attempt (\<lambda>a c.
       if a \<le> max_attempts c
       then co_bind (await (net_wait N (reconnect_delay c))) (\<lambda>ec.
         if is_error (ec, '''') then co_return False
         else co_bind (async_connect_with (try_reconnect_with (reconnect_loop N n)) N) (\<lambda>err.
           if \<not> is_error err then co_return True else reconnect_loop N n)) c
       else co_return False c)"

definition try_reconnect :: "'e net \<Rightarrow> nat \<Rightarrow> ('e, bool) client_op" where
  "try_reconnect N n = try_reconnect_with (reconnect_loop N n)"

definition handle_recv_error :: "'e net \<Rightarrow> nat \<Rightarrow> error_code \<Rightarrow> ('e, error) client_op" where
  "handle_recv_error N n = handle_recv_error_with (try_reconnect N n) N"

definition async_recv_conack :: "'e net \<Rightarrow> nat \<Rightarrow> ('e, error) client_op" where
  "async_recv_conack N n = async_recv_conack_with (try_reconnect N n) N"

definition async_connect :: "'e net \<Rightarrow> nat \<Rightarrow> ('e, error) client_op" where
  "async_connect N n = async_connect_with (try_reconnect N n) N"

section \<open>Receiving\<close>

text \<open>The loop skips the packets of other types; one unit of fuel for every packet.\<close>

primrec receive_loop :: "'e net \<Rightarrow> nat \<Rightarrow> nat \<Rightarrow> ('e, receive_result expected) client_op" where
  "receive_loop N n 0 = (\<lambda>c. None)"
| "receive_loop N n (Suc m) =
     co_bind (await (net_recv N)) (\<lambda>r.
       case r of
         Recv_unknown \<Rightarrow>
           co_return (Inl (make_error_code UnknownPacket, ''Unknown packet type has been received.''))
       | Recv_packet (Publish_in p) \<Rightarrow> co_return (Inr (Got_publish p))
       | Recv_packet (Puback i) \<Rightarrow> co_return (Inr (Got_puback i))
       | Recv_packet (Suback p) \<Rightarrow> co_return (Inr (Got_suback p))
       | Recv_packet _ \<Rightarrow> receive_loop N n m
       | Recv_error ec \<Rightarrow> co_bind (handle_recv_error N n ec) (\<lambda>e. co_return (Inl e)))"

definition async_receive :: "'e net \<Rightarrow> nat \<Rightarrow> ('e, receive_result expected) client_op" where
  "async_receive N n = (\<lambda>c.
     if \<not> connected c
     then co_return (Inl (make_error_code Disconnected, ''Cannot receive on disconnected client '')) c
     else receive_loop N n n c)"

section \<open>Publishing and subscribing\<close>

text \<open>\<open>*result\<close> of an empty optional is undefined.\<close>

definition acquire_packet_id :: "'e net \<Rightarrow> ('e, packet_id) client_op" where
  "acquire_packet_id N =
     co_bind (await (net_acquire N)) (\<lambda>r.
       case r of
         None \<Rightarrow> co_throw (Undefined_behaviour ''dereference of an empty optional'')
       | Some i \<Rightarrow> co_return i)"

definition acquire_packet_id_for :: "'e net \<Rightarrow> qos \<Rightarrow> ('e, packet_id) client_op" where
  "acquire_packet_id_for N q = (if q = At_most_once then co_return 0 else acquire_packet_id N)"

definition async_subscribe :: "'e net \<Rightarrow> string list \<Rightarrow> ('e, packet_id expected) client_op" where
  "async_subscribe N topics = (\<lambda>c.
     if \<not> connected c
     then co_return (Inl (make_error_code Disconnected, ''Cannot subscribe when client is disconnected'')) c
     else co_bind (acquire_packet_id N) (\<lambda>i.
       co_bind (await (net_send N (Subscribe_packet
           \<lparr>subscribe_id = i, subscribe_topics = map (\<lambda>t. (t, default_qos)) topics\<rparr>))) (\<lambda>ec.
         if is_error (ec, '''') then co_bind (mapped_error N ec '''') (\<lambda>e. co_return (Inl e))
         else co_return (Inr i))) c)"

definition async_publish ::
    "'e net \<Rightarrow> string \<Rightarrow> string \<Rightarrow> pubopts \<Rightarrow> ('e, packet_id expected) client_op" where
  "async_publish N topic payload opts = (\<lambda>c.
     if \<not> connected c
     then co_return (Inl (make_error_code Disconnected, ''Cannot publish when client is disconnected'')) c
     else if \<not> ndebug N \<and> \<not> supported_qos (qos_of opts) then co_throw Assertion_failed c
     else if \<not> supported_qos (qos_of opts) then co_return (Inl (make_error_code QosNotSupported, '''')) c
     else co_bind (acquire_packet_id_for N (qos_of opts)) (\<lambda>i.
       co_bind (await (net_send N (Publish_packet
           \<lparr>publish_id = i, publish_topic = topic, publish_payload = payload, publish_opts = opts\<rparr>))) (\<lambda>ec.
         if is_error (ec, '''') then co_bind (mapped_error N ec '''') (\<lambda>e. co_return (Inl e))
         else co_return (Inr i))) c)"

section \<open>What no run changes\<close>

text \<open>
  The configuration, the will and the reconnect parameters stay, and a client that was connected
  once says so for good: nothing in the class clears the flag.
\<close>

definition keeps_client :: "'e client \<Rightarrow> 'e client \<Rightarrow> bool" where
  "keeps_client c0 c \<longleftrightarrow>
     config c = config c0 \<and> will c = will c0 \<and> max_attempts c = max_attempts c0
     \<and> reconnect_delay c = reconnect_delay c0 \<and> (is_connected c0 \<longrightarrow> is_connected c)"

lemma keeps_client_refl [simp]: "keeps_client c c"
  by (simp add: keeps_client_def)

lemma keeps_client_update [simp]:
  "keeps_client c0 (c\<lparr>env := e\<rparr>) = keeps_client c0 c"
  "keeps_client c0 (c\<lparr>attempt := a\<rparr>) = keeps_client c0 c"
  "keeps_client c0 c \<Longrightarrow> keeps_client c0 (c\<lparr>is_connected := True\<rparr>)"
  by (simp_all add: keeps_client_def)

lemma await_apply [eff_simps]: "f (env c) = (x, e) \<Longrightarrow> await f c = Some (Inr x, c\<lparr>env := e\<rparr>)"
  by (simp add: await_def)

lemma await_bind [eff_simps]:
  "f (env c) = (x, e) \<Longrightarrow> co_bind (await f) g c = g x (c\<lparr>env := e\<rparr>)"
  by (simp add: await_def co_bind_def)

lemma keeps_await: "co_keeps (keeps_client c0) (await f)"
  by (auto simp: co_keeps_def await_def split: prod.splits)

lemma keeps_mapped_error: "co_keeps (keeps_client c0) (mapped_error N ec msg)"
  by (simp add: mapped_error_def co_keeps_return co_keeps_throw split: sum.split)

lemmas keeps_client_intros = co_keeps_return co_keeps_throw co_keeps_bind co_keeps_if keeps_await
  keeps_mapped_error

lemma keeps_async_send_con: "co_keeps (keeps_client c0) (async_send_con N)"
  unfolding async_send_con_def
  by (rule co_keeps_dep) (auto intro!: keeps_client_intros)

lemma keeps_handle_recv_error:
  "co_keeps (keeps_client c0) again \<Longrightarrow> co_keeps (keeps_client c0) (handle_recv_error_with again N ec)"
  unfolding handle_recv_error_with_def
  by (intro keeps_client_intros) (auto simp: co_keeps_def co_return_def)

lemma keeps_recv_conack:
  assumes "co_keeps (keeps_client c0) again"
  shows "co_keeps (keeps_client c0) (async_recv_conack_with again N)"
  unfolding async_recv_conack_with_def
  by (intro keeps_client_intros)
    (auto intro!: keeps_client_intros keeps_handle_recv_error [OF assms] co_keeps_update [of _ "co_return _"]
      split: received.split in_packet.split)

lemma keeps_connect:
  assumes "co_keeps (keeps_client c0) again"
  shows "co_keeps (keeps_client c0) (async_connect_with again N)"
  unfolding async_connect_with_def
  by (rule co_keeps_dep)
    (auto intro!: keeps_client_intros keeps_async_send_con keeps_recv_conack [OF assms]
      co_keeps_update [of _ "co_return _"] split: prod.split)

lemma keeps_next_attempt: "co_keeps (keeps_client c0) next_attempt"
  by (auto simp: co_keeps_def next_attempt_def co_throw_def co_return_def split: if_splits)

lemma keeps_try_reconnect_with:
  "co_keeps (keeps_client c0) loop \<Longrightarrow> co_keeps (keeps_client c0) (try_reconnect_with loop)"
  unfolding try_reconnect_with_def
  by (intro co_keeps_if co_keeps_return) (auto intro: co_keeps_update)

lemma keeps_reconnect_loop: "co_keeps (keeps_client c0) (reconnect_loop N n)"
proof (induction n)
  case 0
  then show ?case by (simp add: co_keeps_def)
next
  case (Suc n)
  let ?connect = "async_connect_with (try_reconnect_with (reconnect_loop N n)) N"
  let ?trial = "co_bind ?connect (\<lambda>err. if \<not> is_error err then co_return True else reconnect_loop N n)"
  have trial: "co_keeps (keeps_client c0) ?trial"
    using Suc.IH by (intro co_keeps_bind keeps_connect keeps_try_reconnect_with)
      (simp_all add: co_keeps_return)
  have "co_keeps (keeps_client c0) (\<lambda>c. co_bind (await (net_wait N (reconnect_delay c))) (\<lambda>ec.
      if is_error (ec, '''') then co_return False else ?trial) c)"
    by (rule co_keeps_dep) (simp add: co_keeps_bind keeps_await trial co_keeps_return)
  then show ?case
    unfolding reconnect_loop.simps
    by (intro co_keeps_bind keeps_next_attempt co_keeps_if co_keeps_return)
qed

lemma keeps_async_connect: "co_keeps (keeps_client c0) (async_connect N n)"
  unfolding async_connect_def try_reconnect_def
  by (intro keeps_connect keeps_try_reconnect_with keeps_reconnect_loop)

lemma keeps_receive_loop: "co_keeps (keeps_client c0) (receive_loop N n m)"
proof (induction m)
  case (Suc m)
  have "co_keeps (keeps_client c0) (handle_recv_error N n ec)" for ec
    unfolding handle_recv_error_def try_reconnect_def
    by (intro keeps_handle_recv_error keeps_try_reconnect_with keeps_reconnect_loop)
  with Suc.IH show ?case
    by (auto intro!: keeps_client_intros split: received.split in_packet.split)
qed (simp add: co_keeps_def)

lemma keeps_async_receive: "co_keeps (keeps_client c0) (async_receive N n)"
  unfolding async_receive_def by (intro keeps_client_intros keeps_receive_loop)

lemma keeps_acquire: "co_keeps (keeps_client c0) (acquire_packet_id N)"
  unfolding acquire_packet_id_def
  by (intro keeps_client_intros) (auto intro!: keeps_client_intros split: option.split)

lemma keeps_async_publish: "co_keeps (keeps_client c0) (async_publish N topic payload opts)"
  unfolding async_publish_def acquire_packet_id_for_def
  by (intro keeps_client_intros) (auto intro!: keeps_client_intros keeps_acquire)

lemma keeps_async_subscribe: "co_keeps (keeps_client c0) (async_subscribe N topics)"
  unfolding async_subscribe_def
  by (intro keeps_client_intros keeps_acquire) (auto intro!: keeps_client_intros)

section \<open>The handshake\<close>

text \<open>
  The first packet received after the broker was resolved and connected and the connect packet was
  sent; \<open>None\<close> when one of these failed.
\<close>

definition handshake :: "'e net \<Rightarrow> 'e client \<Rightarrow> (received \<times> 'e) option" where
  "handshake N c =
     (case net_resolve N (host (config c)) (port (config c)) (env c) of ((ec, eps), e1) \<Rightarrow>
        if is_error (ec, '''') then None
        else case net_connect N eps e1 of (ec, e2) \<Rightarrow>
          if is_error (ec, '''') then None
          else case net_send N (Connect_packet (connect_packet_of c)) e2 of (ec, e3) \<Rightarrow>
            if is_error (ec, '''') then None else Some (net_recv N e3))"

text \<open>What follows the handshake.\<close>

definition after_connack :: "'e net \<Rightarrow> error \<Rightarrow> ('e, error) client_op" where
  "after_connack N re =
     (if is_error re then mapped_error N (fst re) ''Error while receiving ConnectAckPacket''
      else (\<lambda>c. co_return no_error (c\<lparr>attempt := 0\<rparr>)))"

lemma connect_packet_of_env [simp]: "connect_packet_of (c\<lparr>env := e\<rparr>) = connect_packet_of c"
  by (simp add: connect_packet_of_def)

lemma connect_handshake:
  assumes "handshake N c = Some (r, e)"
  shows "async_connect_with again N c =
    (case r of
       Recv_error ec \<Rightarrow> co_bind (handle_recv_error_with again N ec) (after_connack N) (c\<lparr>env := e\<rparr>)
     | Recv_packet (Connack p k) \<Rightarrow>
         Some (Inr no_error, c\<lparr>env := e, is_connected := True, attempt := 0\<rparr>)
     | _ \<Rightarrow> Some (Inr no_error, c\<lparr>env := e, attempt := 0\<rparr>))"
proof -
  from assms obtain ec1 eps e1 ec2 e2 ec3 e3 where
    1: "net_resolve N (host (config c)) (port (config c)) (env c) = ((ec1, eps), e1)" "\<not> is_error (ec1, '''')"
    and 2: "net_connect N eps e1 = (ec2, e2)" "\<not> is_error (ec2, '''')"
    and 3: "net_send N (Connect_packet (connect_packet_of c)) e2 = (ec3, e3)" "\<not> is_error (ec3, '''')"
    and 4: "net_recv N e3 = (r, e)"
    by (auto simp: handshake_def split: prod.splits if_splits)
  have send: "async_send_con N (c\<lparr>env := e2\<rparr>) = Some (Inr no_error, c\<lparr>env := e3\<rparr>)"
    using 3 by (simp add: async_send_con_def await_def co_bind_def co_return_def)
  have "async_connect_with again N c =
      co_bind (async_recv_conack_with again N) (after_connack N) (c\<lparr>env := e3\<rparr>)"
    using 1 2 send
    by (simp add: async_connect_with_def await_bind co_bind_Inr after_connack_def [abs_def])
  also have "\<dots> = co_bind (case r of
         Recv_error ec \<Rightarrow> handle_recv_error_with again N ec
       | Recv_packet (Connack session_present code) \<Rightarrow> (\<lambda>c. co_return no_error (c\<lparr>is_connected := True\<rparr>))
       | _ \<Rightarrow> co_return no_error) (after_connack N) (c\<lparr>env := e\<rparr>)"
    using 4 by (simp add: async_recv_conack_with_def co_bind_def await_def)
  finally show ?thesis
    by (cases r) (auto simp: co_bind_def co_return_def after_connack_def split: in_packet.split)
qed

text \<open>Without a handshake the attempt fails, with an error or an exception, and changes nothing but
  the environment.\<close>

lemma mapped_error_cases:
  "\<exists>res. mapped_error N ec msg = (\<lambda>c. Some (res, c)) \<and> (\<forall>x. res = Inr x \<longrightarrow> is_error x)"
  by (cases "map_error_code N ec")
    (auto simp: mapped_error_def co_throw_def co_return_def make_error_code_def)

lemma connect_no_handshake:
  assumes "handshake N c = None"
  shows "\<exists>res e. async_connect_with again N c = Some (res, c\<lparr>env := e\<rparr>) \<and> (\<forall>x. res = Inr x \<longrightarrow> is_error x)"
proof -
  obtain ec1 eps e1 where 1: "net_resolve N (host (config c)) (port (config c)) (env c) = ((ec1, eps), e1)"
    by (metis prod.exhaust)
  obtain ec2 e2 where 2: "net_connect N eps e1 = (ec2, e2)" by (metis prod.exhaust)
  obtain ec3 e3 where 3: "net_send N (Connect_packet (connect_packet_of c)) e2 = (ec3, e3)"
    by (metis prod.exhaust)
  note map2 = mapped_error_cases [of N ec2 "''Error while establishing connection''"]
  note map3 = mapped_error_cases [of N ec3 "''Error while sending ConnectPacket''"]
  consider "is_error (ec1, '''')" | "\<not> is_error (ec1, '''')" "is_error (ec2, '''')"
    | "\<not> is_error (ec1, '''')" "\<not> is_error (ec2, '''')" "is_error (ec3, '''')"
    using assms 1 2 3 by (auto simp: handshake_def split: if_splits)
  then show ?thesis
  proof cases
    case 1
    with \<open>net_resolve _ _ _ _ = _\<close> show ?thesis
      by (auto simp: async_connect_with_def await_def co_bind_def co_return_def make_error_code_def)
  next
    case 2
    with 1 \<open>net_connect _ _ _ = _\<close> map2 show ?thesis
      by (auto simp: async_connect_with_def await_def co_bind_def)
  next
    case 3
    have "async_send_con N (c\<lparr>env := e2\<rparr>) = Some (Inr (ec3, ''''), c\<lparr>env := e3\<rparr>)"
      using 3 \<open>net_send _ _ _ = _\<close> by (simp add: async_send_con_def await_def co_bind_def co_return_def)
    with 1 2 3 map3 show ?thesis
      by (auto simp: async_connect_with_def await_def co_bind_def)
  qed
qed

section \<open>Examples\<close>

text \<open>A network for the examples: everything succeeds, the reads are the given packets.\<close>

definition reading :: "received list net" where
  "reading = \<lparr>net_resolve = (\<lambda>h p e. ((Sys 0, [h]), e)), net_connect = (\<lambda>eps e. (Sys 0, e)),
     net_send = (\<lambda>q e. (Sys 0, e)),
     net_recv = (\<lambda>e. case e of [] \<Rightarrow> (Recv_error (Sys 2), []) | r # rs \<Rightarrow> (r, rs)),
     net_acquire = (\<lambda>e. (Some 7, e)), net_wait = (\<lambda>d e. (Sys 0, e)),
     code_what = (\<lambda>c. ''?''), category_slot = 5, ndebug = True\<rparr>"

end
