(* ===== verification/Mqtt_Reconnect.thy ===== *)
theory Mqtt_Reconnect
  imports Mqtt_Client
begin

text \<open>
  What the MQTT client promises: the outcome of connecting, of the reconnect loop and its bound, of
  receiving, publishing and subscribing. The order of the calls to the network is stated over a
  network that records them.
\<close>

section \<open>The reconnect loop\<close>

lemma next_attempt_cases:
  "next_attempt c = Some (Inl (Undefined_behaviour ''signed overflow''), c) \<and> attempt c = 2 ^ 31 - 1
   \<or> next_attempt c = Some (Inr (attempt c + 1), c\<lparr>attempt := attempt c + 1\<rparr>) \<and> attempt c \<noteq> 2 ^ 31 - 1"
  by (simp add: next_attempt_def co_throw_def co_return_def)

text \<open>One round of the loop, in which an attempt is left.\<close>

lemma reconnect_loop_round:
  assumes "attempt c \<noteq> 2 ^ 31 - 1" and "attempt c + 1 \<le> max_attempts c"
    and "net_wait N (reconnect_delay c) (env c) = (ec, e)" and "\<not> is_error (ec, '''')"
  shows "reconnect_loop N (Suc n) c =
    co_bind (async_connect_with (try_reconnect_with (reconnect_loop N n)) N)
      (\<lambda>err. if \<not> is_error err then co_return True else reconnect_loop N n)
      (c\<lparr>attempt := attempt c + 1, env := e\<rparr>)"
  using assms next_attempt_cases [of c] by (simp add: co_bind_Inr await_bind)

lemma reconnect_loop_exhausted:
  assumes "attempt c \<noteq> 2 ^ 31 - 1" and "max_attempts c < attempt c + 1"
  shows "reconnect_loop N (Suc n) c = Some (Inr False, c\<lparr>attempt := attempt c + 1\<rparr>)"
  using assms next_attempt_cases [of c] by (simp add: co_bind_Inr co_return_def)

text \<open>Networks on which the first packet after the handshake is never a read error.\<close>

definition connack_reads_work :: "'e net \<Rightarrow> bool" where
  "connack_reads_work N \<longleftrightarrow> (\<forall>c r e. handshake N c = Some (r, e) \<longrightarrow> (\<forall>ec. r \<noteq> Recv_error ec))"

lemma connect_without_read_error:
  assumes "connack_reads_work N"
  shows "\<exists>res c'. async_connect_with again N c = Some (res, c') \<and> max_attempts c' = max_attempts c
    \<and> reconnect_delay c' = reconnect_delay c \<and> (\<forall>x. res = Inr x \<longrightarrow> is_error x \<longrightarrow> attempt c' = attempt c)"
proof (cases "handshake N c")
  case None
  then show ?thesis using connect_no_handshake [of N c again] by auto
next
  case (Some re)
  then obtain r e where re: "handshake N c = Some (r, e)" by (cases re) auto
  moreover have "\<forall>ec. r \<noteq> Recv_error ec"
    using assms re unfolding connack_reads_work_def by blast
  ultimately show ?thesis
    by (simp add: connect_handshake split: received.split in_packet.split)
qed

lemma reconnect_loop_returns:
  assumes "connack_reads_work N"
  shows "nat (max_attempts c - attempt c) < n \<Longrightarrow> \<exists>x. reconnect_loop N n c = Some x"
proof (induction n arbitrary: c)
  case (Suc n)
  obtain ec e where wait: "net_wait N (reconnect_delay c) (env c) = (ec, e)" by (metis prod.exhaust)
  consider (over) "attempt c = 2 ^ 31 - 1"
    | (last) "attempt c \<noteq> 2 ^ 31 - 1" "max_attempts c < attempt c + 1"
    | (wait) "attempt c \<noteq> 2 ^ 31 - 1" "attempt c + 1 \<le> max_attempts c" "is_error (ec, '''')"
    | (round) "attempt c \<noteq> 2 ^ 31 - 1" "attempt c + 1 \<le> max_attempts c" "\<not> is_error (ec, '''')"
    by fastforce
  then show ?case
  proof cases
    case over
    then show ?thesis using next_attempt_cases [of c] by (simp add: co_bind_Inl)
  next
    case last
    then show ?thesis using reconnect_loop_exhausted [OF last] by blast
  next
    case wait
    then show ?thesis
      using next_attempt_cases [of c] \<open>net_wait _ _ _ = _\<close> by (simp add: co_bind_Inr await_bind co_return_def)
  next
    case round
    let ?c = "c\<lparr>attempt := attempt c + 1, env := e\<rparr>"
    from connect_without_read_error [OF assms, of "try_reconnect_with (reconnect_loop N n)" ?c]
    obtain res c' where conn:
      "async_connect_with (try_reconnect_with (reconnect_loop N n)) N ?c = Some (res, c')"
      "max_attempts c' = max_attempts c" "\<forall>x. res = Inr x \<longrightarrow> is_error x \<longrightarrow> attempt c' = attempt c + 1"
      by auto
    have again: "is_error x \<Longrightarrow> res = Inr x \<Longrightarrow> \<exists>y. reconnect_loop N n c' = Some y" for x
      using Suc.IH [of c'] Suc.prems conn(2,3) round(2) by auto
    show ?thesis
      unfolding reconnect_loop_round [OF round(1,2) wait round(3)]
      using conn(1) again by (cases res) (auto simp: co_bind_def co_return_def)
  qed
qed simp

lemma try_reconnect_returns:
  assumes "connack_reads_work N" and "nat (max_attempts c) < n"
  shows "\<exists>x. try_reconnect N n c = Some x"
  using reconnect_loop_returns [OF assms(1), of "c\<lparr>attempt := 0\<rparr>" n] assms(2)
  by (auto simp: try_reconnect_def try_reconnect_with_def co_return_def)

text \<open>A successful connect resets the attempt counter.\<close>

lemma connect_success_attempt:
  assumes "async_connect_with again N c = Some (Inr err, c')" and "\<not> is_error err"
  shows "attempt c' = 0"
proof (cases "handshake N c")
  case None
  then show ?thesis using connect_no_handshake [of N c again] assms by (cases err) auto
next
  case (Some re)
  then obtain r e where re: "handshake N c = Some (r, e)" by (cases re) auto
  show ?thesis
    using assms connect_handshake [OF re, of again]
    by (auto simp: co_bind_eq_Some after_connack_def co_return_def mapped_error_def co_throw_def
        make_error_code_def no_error_def split: received.splits in_packet.splits if_splits sum.splits)
qed

lemma reconnect_loop_True:
  "reconnect_loop N n c = Some (Inr True, c') \<Longrightarrow> attempt c' = 0"
proof (induction n arbitrary: c)
  case (Suc n)
  then show ?case
    by (auto simp: co_bind_eq_Some co_return_def await_def split: if_splits prod.splits
        dest: connect_success_attempt)
qed simp

section \<open>A network that records what it is asked\<close>

datatype action =
    Resolve string string | Connect_to "string list" | Send out_packet | Receive | Acquire | Wait int

definition recorded :: "action \<Rightarrow> ('e \<Rightarrow> 'a \<times> 'e) \<Rightarrow> 'e \<times> action list \<Rightarrow> 'a \<times> 'e \<times> action list" where
  "recorded a f = (\<lambda>(e, t). case f e of (x, e') \<Rightarrow> (x, e', t @ [a]))"

definition traced :: "'e net \<Rightarrow> ('e \<times> action list) net" where
  "traced N = \<lparr>net_resolve = (\<lambda>h p. recorded (Resolve h p) (net_resolve N h p)),
     net_connect = (\<lambda>eps. recorded (Connect_to eps) (net_connect N eps)),
     net_send = (\<lambda>p. recorded (Send p) (net_send N p)),
     net_recv = recorded Receive (net_recv N),
     net_acquire = recorded Acquire (net_acquire N),
     net_wait = (\<lambda>d. recorded (Wait d) (net_wait N d)),
     code_what = code_what N, category_slot = category_slot N, ndebug = ndebug N\<rparr>"

definition trace :: "('e \<times> action list) client \<Rightarrow> action list" where
  "trace c = snd (env c)"

lemma traced_simps [simp]:
  "net_resolve (traced N) h p = recorded (Resolve h p) (net_resolve N h p)"
  "net_connect (traced N) eps = recorded (Connect_to eps) (net_connect N eps)"
  "net_send (traced N) q = recorded (Send q) (net_send N q)"
  "net_recv (traced N) = recorded Receive (net_recv N)"
  "net_acquire (traced N) = recorded Acquire (net_acquire N)"
  "net_wait (traced N) d = recorded (Wait d) (net_wait N d)"
  "ndebug (traced N) = ndebug N" "code_what (traced N) = code_what N"
  "category_slot (traced N) = category_slot N"
  by (simp_all add: traced_def)

lemma recorded_trace [simp]: "snd (snd (recorded a f s)) = snd s @ [a]" "fst (recorded a f s) = fst (f (fst s))"
  by (simp_all add: recorded_def split: prod.splits)

text \<open>A broker whose name does not resolve, with a timer that works.\<close>

definition broker_unreachable :: "'e net \<Rightarrow> bool" where
  "broker_unreachable N \<longleftrightarrow>
     (\<forall>h p e. is_error (fst (fst (net_resolve N h p e)), '''')) \<and> (\<forall>d e. \<not> is_error (fst (net_wait N d e), ''''))"

definition attempt_actions :: "'e client \<Rightarrow> action list" where
  "attempt_actions c = [Wait (reconnect_delay c), Resolve (host (config c)) (port (config c))]"

lemma connect_unresolved:
  assumes "broker_unreachable N"
  shows "\<exists>e. async_connect_with again (traced N) c =
      Some (Inr (make_error_code NoService, ''Error while resolving name of the broker''), c\<lparr>env := e\<rparr>)
    \<and> snd e = trace c @ [Resolve (host (config c)) (port (config c))]"
proof -
  let ?f = "net_resolve (traced N) (host (config c)) (port (config c))"
  obtain ec eps e where f: "?f (env c) = ((ec, eps), e)" by (metis prod.exhaust)
  have "is_error (ec, '''')" and "snd e = trace c @ [Resolve (host (config c)) (port (config c))]"
    using assms f recorded_trace [of "Resolve (host (config c)) (port (config c))"
        "net_resolve N (host (config c)) (port (config c))" "env c"]
    by (auto simp: broker_unreachable_def trace_def simp del: recorded_trace) (metis fst_conv)
  then show ?thesis
    using f by (intro exI [of _ e]) (simp add: async_connect_with_def await_bind co_return_def)
qed

lemma reconnect_loop_unreachable:
  assumes down: "broker_unreachable N" and bound: "max_attempts c < 2 ^ 31 - 1"
  shows "attempt c \<le> max_attempts c \<Longrightarrow> nat (max_attempts c - attempt c) < n \<Longrightarrow>
    \<exists>e. reconnect_loop (traced N) n c = Some (Inr False, c\<lparr>attempt := max_attempts c + 1, env := e\<rparr>)
      \<and> snd e = trace c @ concat (replicate (nat (max_attempts c - attempt c)) (attempt_actions c))"
  using bound
proof (induction n arbitrary: c)
  case (Suc n)
  have no_over: "attempt c \<noteq> 2 ^ 31 - 1" using Suc.prems by simp
  show ?case
  proof (cases "attempt c = max_attempts c")
    case True
    then have "reconnect_loop (traced N) (Suc n) c = Some (Inr False, c\<lparr>attempt := attempt c + 1\<rparr>)"
      by (intro reconnect_loop_exhausted no_over) simp
    with True show ?thesis by (intro exI [of _ "env c"]) (simp add: trace_def)
  next
    case False
    then have more: "attempt c + 1 \<le> max_attempts c" using Suc.prems by simp
    obtain ec e where wait: "net_wait (traced N) (reconnect_delay c) (env c) = (ec, e)"
      by (metis prod.exhaust)
    then have "snd e = trace c @ [Wait (reconnect_delay c)]"
      and "ec = fst (net_wait N (reconnect_delay c) (fst (env c)))"
      using recorded_trace [of "Wait (reconnect_delay c)" "net_wait N (reconnect_delay c)" "env c"]
      by (auto simp: trace_def simp del: recorded_trace)
    then have e: "snd e = trace c @ [Wait (reconnect_delay c)]" and ok: "\<not> is_error (ec, '''')"
      using down by (auto simp: broker_unreachable_def)
    let ?c = "c\<lparr>attempt := attempt c + 1, env := e\<rparr>"
    obtain e1 where conn: "async_connect_with (try_reconnect_with (reconnect_loop (traced N) n)) (traced N) ?c
        = Some (Inr (make_error_code NoService, ''Error while resolving name of the broker''), ?c\<lparr>env := e1\<rparr>)"
      and e1: "snd e1 = trace c @ attempt_actions c"
      using connect_unresolved [OF down, of "try_reconnect_with (reconnect_loop (traced N) n)" ?c] e
      by (auto simp: trace_def attempt_actions_def)
    let ?d = "?c\<lparr>env := e1\<rparr>"
    have d: "nat (max_attempts ?d - attempt ?d) < n" "attempt ?d \<le> max_attempts ?d" "max_attempts ?d < 2 ^ 31 - 1"
      using Suc.prems more by auto
    from Suc.IH [OF d(2,1,3)] obtain e2 where
      rest: "reconnect_loop (traced N) n ?d = Some (Inr False, ?d\<lparr>attempt := max_attempts c + 1, env := e2\<rparr>)"
      and e2: "snd e2 = trace ?d @ concat (replicate (nat (max_attempts c - (attempt c + 1))) (attempt_actions c))"
      by (auto simp: attempt_actions_def)
    have split: "nat (max_attempts c - attempt c) = Suc (nat (max_attempts c - (attempt c + 1)))"
      using more by simp
    have "reconnect_loop (traced N) (Suc n) c = reconnect_loop (traced N) n ?d"
      unfolding reconnect_loop_round [OF no_over more wait ok]
      using conn by (simp add: co_bind_Inr make_error_code_def)
    with rest e2 e1 show ?thesis
      unfolding split by (intro exI [of _ e2]) (simp add: trace_def)
  qed
qed simp

text \<open>The same error on every read, on a broker that otherwise accepts connections.\<close>

definition reads_always_fail :: "'e net \<Rightarrow> error_code \<Rightarrow> bool" where
  "reads_always_fail N ec \<longleftrightarrow> (\<forall>e. fst (net_recv N e) = Recv_error ec)
     \<and> (\<forall>h p e. \<not> is_error (fst (fst (net_resolve N h p e)), ''''))
     \<and> (\<forall>eps e. \<not> is_error (fst (net_connect N eps e), ''''))
     \<and> (\<forall>q e. \<not> is_error (fst (net_send N q e), ''''))
     \<and> (\<forall>d e. \<not> is_error (fst (net_wait N d e), ''''))"

lemma reads_always_fail_handshake:
  assumes "reads_always_fail N ec"
  shows "\<exists>e. handshake N c = Some (Recv_error ec, e)"
proof -
  obtain ec1 eps e1 where 1: "net_resolve N (host (config c)) (port (config c)) (env c) = ((ec1, eps), e1)"
    by (metis prod.exhaust)
  obtain ec2 e2 where 2: "net_connect N eps e1 = (ec2, e2)" by (metis prod.exhaust)
  obtain ec3 e3 where 3: "net_send N (Connect_packet (connect_packet_of c)) e2 = (ec3, e3)"
    by (metis prod.exhaust)
  obtain r e where 4: "net_recv N e3 = (r, e)" by (metis prod.exhaust)
  have "\<not> is_error (ec1, '''')" "\<not> is_error (ec2, '''')" "\<not> is_error (ec3, '''')" "r = Recv_error ec"
    using assms 1 2 3 4 by (auto simp: reads_always_fail_def) (metis fst_conv)+
  with 1 2 3 4 show ?thesis by (auto simp: handshake_def)
qed

lemma reconnect_loop_diverges:
  assumes fail: "reads_always_fail N ec"
  shows "is_connected c \<Longrightarrow> max_attempts c > 0 \<Longrightarrow> attempt c = 0 \<Longrightarrow> reconnect_loop N n c = None"
proof (induction n arbitrary: c)
  case (Suc n)
  obtain wc e where wait: "net_wait N (reconnect_delay c) (env c) = (wc, e)" by (metis prod.exhaust)
  then have ok: "\<not> is_error (wc, '''')" using fail by (auto simp: reads_always_fail_def) (metis fst_conv)
  let ?c = "c\<lparr>attempt := attempt c + 1, env := e\<rparr>"
  obtain e1 where hs: "handshake N ?c = Some (Recv_error ec, e1)"
    using reads_always_fail_handshake [OF fail] by blast
  let ?d = "?c\<lparr>env := e1, attempt := 0\<rparr>"
  have "reconnect_loop N n ?d = None" using Suc by simp
  then have conn: "async_connect_with (try_reconnect_with (reconnect_loop N n)) N ?c = None"
    unfolding connect_handshake [OF hs]
    using Suc.prems by (simp add: handle_recv_error_with_def try_reconnect_with_def co_bind_None)
  have no_over: "attempt c \<noteq> 2 ^ 31 - 1" and more: "attempt c + 1 \<le> max_attempts c"
    using Suc.prems by simp_all
  show ?case unfolding reconnect_loop_round [OF no_over more wait ok] by (simp only: co_bind_None conn)
qed simp

lemma receive_loop_error:
  "net_recv N (env c) = (Recv_error ec, e) \<Longrightarrow> receive_loop N n (Suc m) c =
    co_bind (handle_recv_error N n ec) (\<lambda>e. co_return (Inl e)) (c\<lparr>env := e\<rparr>)"
  by (simp add: await_bind)

lemma handle_recv_error_connected:
  assumes "is_connected c" and "max_attempts c \<noteq> 0"
  shows "handle_recv_error N n ec c =
    co_bind (reconnect_loop N n) (\<lambda>reconnected c.
       if reconnected then co_return (make_error_code Reconnected, ''Client got reconnected'') c
       else co_return (make_error_code Disconnected,
              ''Client got disconnected '' @
              (if attempt c = max_attempts c then ''after auto-reconnect failure'' else '''')) c)
      (c\<lparr>attempt := 0\<rparr>)"
  using assms by (simp add: handle_recv_error_def handle_recv_error_with_def try_reconnect_def
      try_reconnect_with_def co_bind_def)

section \<open>Properties\<close>

text \<open>What becomes of an error code that is mapped: an error with the text, or an exception.\<close>

definition connect_error :: "'e net \<Rightarrow> error_code \<Rightarrow> string \<Rightarrow> error result" where
  "connect_error N ec msg =
     (case map_error_code N ec of Inl x \<Rightarrow> Inl x | Inr f \<Rightarrow> Inr (App f, msg))"

lemma mapped_error_eq: "mapped_error N ec msg c = Some (connect_error N ec msg, c)"
  by (simp add: mapped_error_def connect_error_def co_throw_def co_return_def make_error_code_def
      split: sum.split)

lemma connect_without_handshake:
  assumes "handshake N c = None"
  shows "\<exists>res e. async_connect N n c = Some (res, c\<lparr>env := e\<rparr>)
    \<and> (res = Inr (App NoService, ''Error while resolving name of the broker'')
      \<or> (\<exists>ec. is_error (ec, '''') \<and> (res = connect_error N ec ''Error while establishing connection''
          \<or> res = connect_error N ec ''Error while sending ConnectPacket'')))"
proof -
  obtain ec1 eps e1 where 1: "net_resolve N (host (config c)) (port (config c)) (env c) = ((ec1, eps), e1)"
    by (metis prod.exhaust)
  obtain ec2 e2 where 2: "net_connect N eps e1 = (ec2, e2)" by (metis prod.exhaust)
  obtain ec3 e3 where 3: "net_send N (Connect_packet (connect_packet_of c)) e2 = (ec3, e3)"
    by (metis prod.exhaust)
  consider (resolve) "is_error (ec1, '''')" | (conn) "\<not> is_error (ec1, '''')" "is_error (ec2, '''')"
    | (send) "\<not> is_error (ec1, '''')" "\<not> is_error (ec2, '''')" "is_error (ec3, '''')"
    using assms 1 2 3 by (auto simp: handshake_def split: if_splits)
  then show ?thesis
  proof cases
    case resolve
    with 1 show ?thesis by (auto simp: async_connect_def async_connect_with_def await_bind co_return_def make_error_code_def)
  next
    case conn
    with 1 2 have "async_connect N n c =
        Some (connect_error N ec2 ''Error while establishing connection'', c\<lparr>env := e2\<rparr>)"
      by (simp add: async_connect_def async_connect_with_def await_bind mapped_error_eq)
    with conn(2) show ?thesis by blast
  next
    case send
    have "async_send_con N (c\<lparr>env := e2\<rparr>) = Some (Inr (ec3, ''''), c\<lparr>env := e3\<rparr>)"
      using 3 send(3) by (simp add: async_send_con_def await_def co_bind_def co_return_def)
    with 1 2 send have "async_connect N n c =
        Some (connect_error N ec3 ''Error while sending ConnectPacket'', c\<lparr>env := e3\<rparr>)"
      by (simp add: async_connect_def async_connect_with_def await_bind co_bind_Inr mapped_error_eq)
    with send(3) show ?thesis by blast
  qed
qed

text \<open>A read error of the first packet: a client that was never connected maps it, and maps the
  code it was mapped to; one that was connected before starts to reconnect from within
  \<open>async_connect\<close>, whose outcome is mapped too.\<close>

lemma connect_read_error:
  assumes "handshake N c = Some (Recv_error ec, e)"
  shows "async_connect N n c =
    (if is_connected c
     then (case try_reconnect N n (c\<lparr>env := e\<rparr>) of
         None \<Rightarrow> None
       | Some (Inl x, d) \<Rightarrow> Some (Inl x, d)
       | Some (Inr b, d) \<Rightarrow> Some (Inl (unmapped N (App (if b then Reconnected else Disconnected))), d))
     else Some (case map_error_code N ec of
         Inl x \<Rightarrow> Inl x
       | Inr f \<Rightarrow> if f = NoService \<and> category_slot N = 0
           then Inr (App NoService, ''Error while receiving ConnectAckPacket'')
           else Inl (unmapped N (App f)), c\<lparr>env := e\<rparr>))"
proof (cases "is_connected c")
  case True
  then show ?thesis
    by (auto simp: async_connect_def connect_handshake [OF assms] handle_recv_error_with_def co_bind_def
        after_connack_def co_return_def make_error_code_def mapped_error_eq connect_error_def map_error_code_app
        split: option.split prod.split sum.split)
next
  case False
  then have "async_connect N n c =
      co_bind (\<lambda>c. Some (connect_error N ec '''', c)) (after_connack N) (c\<lparr>env := e\<rparr>)"
    by (simp add: async_connect_def connect_handshake [OF assms] handle_recv_error_with_def mapped_error_eq
        co_bind_def)
  with False show ?thesis
    by (cases "map_error_code N ec") (simp_all add: connect_error_def [of N ec] co_bind_def after_connack_def
        mapped_error_eq connect_error_def [of N "App _"] map_error_code_app)
qed

text \<open>C14: Connecting a client, in every case. When resolving, connecting or sending fails, the
  client stays as it is, and the error of the step is reported or thrown. Once the broker answers: a
  \<open>CONNACK\<close> makes the client connected whatever its return code says, and any other packet counts as
  success and leaves the client unconnected. A read error is mapped twice on a client that was never
  connected, so that it ends in an exception (or in \<open>NoService\<close>, should the category of the
  application have slot zero). A client that was connected before runs a whole reconnect instead:
  if that returns at all, \<open>async_connect\<close> throws, also when the reconnect has succeeded.\<close>

theorem connect_outcome:
  "case handshake N c of
     None \<Rightarrow> \<exists>res e. async_connect N n c = Some (res, c\<lparr>env := e\<rparr>)
       \<and> (res = Inr (App NoService, ''Error while resolving name of the broker'')
         \<or> (\<exists>ec. is_error (ec, '''') \<and> (res = connect_error N ec ''Error while establishing connection''
             \<or> res = connect_error N ec ''Error while sending ConnectPacket'')))
   | Some (Recv_packet (Connack p k), e) \<Rightarrow>
       async_connect N n c = Some (Inr no_error, c\<lparr>env := e, is_connected := True, attempt := 0\<rparr>)
   | Some (Recv_error ec, e) \<Rightarrow> async_connect N n c =
       (if is_connected c
        then (case try_reconnect N n (c\<lparr>env := e\<rparr>) of
            None \<Rightarrow> None
          | Some (Inl x, d) \<Rightarrow> Some (Inl x, d)
          | Some (Inr b, d) \<Rightarrow> Some (Inl (unmapped N (App (if b then Reconnected else Disconnected))), d))
        else Some (case map_error_code N ec of
            Inl x \<Rightarrow> Inl x
          | Inr f \<Rightarrow> if f = NoService \<and> category_slot N = 0
              then Inr (App NoService, ''Error while receiving ConnectAckPacket'')
              else Inl (unmapped N (App f)), c\<lparr>env := e\<rparr>))
   | Some (_, e) \<Rightarrow> async_connect N n c = Some (Inr no_error, c\<lparr>env := e, attempt := 0\<rparr>)"
proof (cases "handshake N c")
  case None
  with connect_without_handshake [OF None, of n] show ?thesis by simp
next
  case (Some re)
  then obtain r e where hs: "handshake N c = Some (r, e)" by (cases re) auto
  show ?thesis
  proof (cases r)
    case (Recv_error ec)
    with hs connect_read_error [of N c ec e n] show ?thesis by simp
  next
    case (Recv_packet q)
    then show ?thesis by (cases q) (simp_all add: hs async_connect_def connect_handshake [OF hs])
  next
    case Recv_unknown
    then show ?thesis by (simp add: hs async_connect_def connect_handshake [OF hs])
  qed
qed

definition example_config :: client_config where
  "example_config = \<lparr>unique_id = ''hatch'', username = ''user'', password = '''', host = ''broker'',
     port = ''1883'', clean_session = True, keep_alive = 30, config_max_attempts = 3,
     config_reconnect_delay = 5\<rparr>"

theorem connect_outcome_witness:
  "async_connect reading 0 (new_client example_config [Recv_packet (Connack False 5)])
   = Some (Inr no_error, (new_client example_config [])\<lparr>is_connected := True\<rparr>)"
proof -
  let ?c = "new_client example_config [Recv_packet (Connack False 5)]"
  have "handshake reading ?c = Some (Recv_packet (Connack False 5), [])"
    by (simp add: handshake_def reading_def new_client_def)
  with connect_outcome [where N = reading and c = ?c and n = 0] show ?thesis by (simp add: new_client_def)
qed

text \<open>C18: Nothing a client runs changes its configuration, its will or its reconnect parameters, and
  none of its coroutines ever clears the connected flag: a client that was connected once reports to
  be connected for ever, also after the connection was lost.\<close>

theorem connected_is_never_cleared:
  assumes "async_connect N n c = Some (r1, c') \<or> async_receive N n c = Some (r2, c')
    \<or> async_publish N topic payload opts c = Some (r3, c') \<or> async_subscribe N topics c = Some (r3, c')"
  shows "config c' = config c \<and> will c' = will c \<and> max_attempts c' = max_attempts c
    \<and> reconnect_delay c' = reconnect_delay c \<and> (if connected c then connected c' else True)"
proof -
  have "keeps_client c c'"
    using assms co_keepsD [OF keeps_async_connect keeps_client_refl]
      co_keepsD [OF keeps_async_receive keeps_client_refl]
      co_keepsD [OF keeps_async_publish keeps_client_refl]
      co_keepsD [OF keeps_async_subscribe keeps_client_refl] by metis
  then show ?thesis by (simp add: keeps_client_def connected_def)
qed

theorem connected_is_never_cleared_witness:
  "\<exists>r c'. async_receive reading 5
      ((new_client (example_config\<lparr>config_max_attempts := 0\<rparr>) [])\<lparr>is_connected := True\<rparr>) = Some (r, c')
    \<and> r = Inr (Inl (App Disconnected, ''Client got disconnected after auto-reconnect failure''))
    \<and> connected c'"
proof -
  let ?c = "(new_client (example_config\<lparr>config_max_attempts := 0\<rparr>) [])\<lparr>is_connected := True\<rparr>"
  have run: "async_receive reading 5 ?c
      = Some (Inr (Inl (App Disconnected, ''Client got disconnected after auto-reconnect failure'')), ?c)"
    by (simp add: async_receive_def connected_def new_client_def eval_nat_numeral await_def co_bind_def
        reading_def handle_recv_error_def handle_recv_error_with_def try_reconnect_def
        try_reconnect_with_def co_return_def make_error_code_def)
  have "connected ?c" by (simp add: connected_def)
  with connected_is_never_cleared [where c = ?c and N = reading and n = 5] run show ?thesis by blast
qed

text \<open>C16: When the broker cannot be reached any more, a connected client that fails to read makes
  exactly \<open>max_attempts\<close> attempts, each a wait of the reconnect delay and a resolution, then
  reports \<open>Disconnected\<close>. The report never says that the reconnect failed, since the counter
  stops one above the maximum, and the client still counts as connected.\<close>

theorem receive_gives_up:
  assumes "connected c" and "fst (net_recv N (fst (env c))) = Recv_error ec" and "broker_unreachable N"
    and "0 < max_attempts c" and "max_attempts c < 2 ^ 31 - 1" and "nat (max_attempts c) < n"
  shows "\<exists>c'. async_receive (traced N) n c
      = Some (Inr (Inl (App Disconnected, ''Client got disconnected '')), c')
    \<and> trace c' = trace c @ Receive # concat (replicate (nat (max_attempts c))
        [Wait (reconnect_delay c), Resolve (host (config c)) (port (config c))])
    \<and> attempt c' = max_attempts c + 1 \<and> connected c'"
proof -
  obtain m where n: "n = Suc m" using assms(6) by (cases n) auto
  obtain r e where recv: "net_recv (traced N) (env c) = (r, e)" by (metis prod.exhaust)
  then have r: "r = Recv_error ec" and e: "snd e = trace c @ [Receive]"
    using assms(2) recorded_trace [of Receive "net_recv N" "env c"]
    by (auto simp: trace_def simp del: recorded_trace)
  let ?c = "c\<lparr>env := e, attempt := 0\<rparr>"
  have "attempt ?c \<le> max_attempts ?c" "nat (max_attempts ?c - attempt ?c) < n" "max_attempts ?c < 2 ^ 31 - 1"
    using assms by simp_all
  from reconnect_loop_unreachable [OF assms(3) this(3,1,2)] obtain e' where
    loop: "reconnect_loop (traced N) n ?c = Some (Inr False, ?c\<lparr>attempt := max_attempts c + 1, env := e'\<rparr>)"
    and e': "snd e' = trace c @ [Receive] @ concat (replicate (nat (max_attempts c)) (attempt_actions c))"
    using e by (auto simp: trace_def attempt_actions_def)
  let ?d = "?c\<lparr>attempt := max_attempts c + 1, env := e'\<rparr>"
  have "handle_recv_error (traced N) n ec (c\<lparr>env := e\<rparr>)
      = Some (Inr (App Disconnected, ''Client got disconnected ''), ?d)"
    using assms(1,4) loop
    by (simp add: handle_recv_error_connected connected_def co_bind_def co_return_def make_error_code_def)
  then have "async_receive (traced N) n c
      = Some (Inr (Inl (App Disconnected, ''Client got disconnected '')), ?d)"
    using assms(1) receive_loop_error [OF recv [unfolded r], of n m]
    by (simp add: async_receive_def n co_bind_Inr co_return_def del: receive_loop.simps)
  with e' assms(1) show ?thesis
    by (intro exI [of _ ?d]) (simp add: trace_def attempt_actions_def connected_def)
qed

definition unreachable_broker :: "nat net" where
  "unreachable_broker = \<lparr>net_resolve = (\<lambda>h p e. ((Sys 1, []), e)), net_connect = (\<lambda>eps e. (Sys 0, e)),
     net_send = (\<lambda>q e. (Sys 0, e)), net_recv = (\<lambda>e. (Recv_error (Sys 2), e)),
     net_acquire = (\<lambda>e. (Some 7, e)), net_wait = (\<lambda>d e. (Sys 0, e)),
     code_what = (\<lambda>c. ''?''), category_slot = 5, ndebug = True\<rparr>"

theorem receive_gives_up_witness:
  "\<exists>c'. async_receive (traced unreachable_broker) 4
      ((new_client example_config (0, []))\<lparr>is_connected := True\<rparr>)
    = Some (Inr (Inl (App Disconnected, ''Client got disconnected '')), c')
   \<and> trace c' = Receive # concat (replicate 3 [Wait 5, Resolve ''broker'' ''1883''])"
  using receive_gives_up [of "(new_client example_config (0, []))\<lparr>is_connected := True\<rparr>"
      unreachable_broker "Sys 2" 4]
  by (auto simp: unreachable_broker_def broker_unreachable_def new_client_def example_config_def
      connected_def trace_def)

text \<open>C15: Reconnecting ends whenever the read after the handshake does not fail: one unit of fuel
  more than \<open>max_attempts\<close> is enough for \<open>try_reconnect\<close> to return, whatever the network does
  otherwise.\<close>

theorem try_reconnect_terminates:
  assumes "connack_reads_work N" and "nat (max_attempts c) < n"
  shows "\<exists>res c'. try_reconnect N n c = Some (res, c')
    \<and> (case res of Inr True \<Rightarrow> attempt c' = 0 | _ \<Rightarrow> True) \<and> max_attempts c' = max_attempts c"
proof -
  obtain res c' where run: "try_reconnect N n c = Some (res, c')"
    using try_reconnect_returns [OF assms] by auto
  then have "co_keeps (keeps_client c) (try_reconnect N n)"
    unfolding try_reconnect_def by (intro keeps_try_reconnect_with keeps_reconnect_loop)
  from co_keepsD [OF this keeps_client_refl run] have "max_attempts c' = max_attempts c"
    by (simp add: keeps_client_def)
  moreover have "res = Inr True \<Longrightarrow> attempt c' = 0"
    using run reconnect_loop_True by (auto simp: try_reconnect_def try_reconnect_with_def co_return_def
        split: if_splits)
  ultimately show ?thesis using run by (auto split: sum.split bool.split)
qed

lemma unreachable_broker_connack: "connack_reads_work unreachable_broker"
  by (simp add: connack_reads_work_def handshake_def unreachable_broker_def)

theorem try_reconnect_terminates_witness:
  "\<exists>res c'. try_reconnect unreachable_broker 4 (new_client example_config 0) = Some (res, c')"
  using try_reconnect_terminates [OF unreachable_broker_connack, of "new_client example_config 0" 4]
  by (auto simp: new_client_def example_config_def)

text \<open>C17: The maximum of attempts is no bound when the read of the \<open>CONNACK\<close> is what fails:
  \<open>async_connect\<close> then starts a reconnect of its own, which resets the counter, so on a broker that
  accepts connections and closes them a connected client never returns from receiving, whatever
  positive maximum it was given. Only with a maximum that allows no attempt does it report
  \<open>Disconnected\<close>.\<close>

theorem receive_never_returns:
  assumes "connected c" and "reads_always_fail N ec"
  shows "if 0 < max_attempts c then async_receive N n c = None
    else \<exists>e. async_receive N (Suc n) c = Some (Inr (Inl (App Disconnected, ''Client got disconnected ''
        @ (if max_attempts c = 0 \<and> attempt c = 0 then ''after auto-reconnect failure'' else ''''))),
      c\<lparr>env := e, attempt := (if max_attempts c = 0 then attempt c else 1)\<rparr>)"
proof -
  obtain r e where recv: "net_recv N (env c) = (r, e)" by (metis prod.exhaust)
  then have r: "r = Recv_error ec" using assms(2) by (auto simp: reads_always_fail_def) (metis fst_conv)
  note error = receive_loop_error [OF recv [unfolded r]]
  show ?thesis
  proof (cases "0 < max_attempts c")
    case True
    show ?thesis
    proof (cases n)
      case 0
      with assms(1) True show ?thesis by (simp add: async_receive_def)
    next
      case (Suc m)
      have "reconnect_loop N n (c\<lparr>env := e, attempt := 0\<rparr>) = None"
        using assms True by (intro reconnect_loop_diverges [OF assms(2)]) (simp_all add: connected_def)
      then have "handle_recv_error N n ec (c\<lparr>env := e\<rparr>) = None"
        using assms(1) True by (simp add: handle_recv_error_connected connected_def co_bind_None)
      then show ?thesis
        using assms(1) error [of n m] True
        by (simp add: async_receive_def Suc co_bind_None del: receive_loop.simps)
    qed
  next
    case False
    have tried: "try_reconnect N (Suc n) (c\<lparr>env := e\<rparr>) = Some (Inr False,
        c\<lparr>env := e, attempt := (if max_attempts c = 0 then attempt c else 1)\<rparr>)"
      using False reconnect_loop_exhausted [of "c\<lparr>env := e, attempt := 0\<rparr>" N n]
      by (simp add: try_reconnect_def try_reconnect_with_def co_return_def del: reconnect_loop.simps)
    with assms(1) False show ?thesis
      by (auto simp: async_receive_def error [of "Suc n" n] handle_recv_error_def handle_recv_error_with_def
          connected_def co_bind_def co_return_def make_error_code_def simp del: receive_loop.simps)
  qed
qed

theorem receive_never_returns_witness:
  "async_receive (unreachable_broker\<lparr>net_resolve := (\<lambda>h p e. ((Sys 0, [h]), e))\<rparr>) 100
     ((new_client example_config 0)\<lparr>is_connected := True\<rparr>) = None"
  using receive_never_returns [of "(new_client example_config 0)\<lparr>is_connected := True\<rparr>"
      "unreachable_broker\<lparr>net_resolve := (\<lambda>h p e. ((Sys 0, [h]), e))\<rparr>" "Sys 2" 100]
  by (simp add: reads_always_fail_def unreachable_broker_def connected_def new_client_def example_config_def)

lemma recorded_apply: "f (fst s) = (x, e) \<Longrightarrow> recorded a f s = (x, e, snd s @ [a])"
  by (cases s) (simp add: recorded_def)

lemma acquire_traced:
  "acquire_packet_id (traced N) c = Some (Inr i, c') \<Longrightarrow>
    trace c' = trace c @ [Acquire] \<and> (\<exists>e. c' = c\<lparr>env := e\<rparr>)"
  by (auto simp: acquire_packet_id_def co_bind_eq_Some await_def co_return_def co_throw_def trace_def
      recorded_def split: option.splits prod.splits)

lemma send_traced:
  "await (net_send (traced N) p) c = Some (Inr ec, c') \<Longrightarrow>
    trace c' = trace c @ [Send p] \<and> (\<exists>e. c' = c\<lparr>env := e\<rparr>)"
  by (auto simp: await_def trace_def recorded_def split: prod.splits)

text \<open>C19: A publication that succeeds has acquired a packet identifier exactly when its quality of
  service needs one, and has sent one packet with that identifier, the topic, the payload and the
  options it was given; a disconnected client and, in a release build, an unsupported quality of
  service are refused without touching the network; a publication that fails otherwise has sent the
  packet.\<close>

theorem publish_outcome:
  assumes "async_publish (traced N) topic payload opts c = Some (Inr res, c')"
  shows "(case res of
      Inr i \<Rightarrow> connected c \<and> supported_qos (qos_of opts)
        \<and> trace c' = trace c @ (if qos_of opts = At_most_once then [] else [Acquire])
            @ [Send (Publish_packet \<lparr>publish_id = i, publish_topic = topic, publish_payload = payload,
                 publish_opts = opts\<rparr>)]
        \<and> (if qos_of opts = At_most_once then i = 0 else True)
    | Inl e \<Rightarrow>
        if \<not> connected c then fst e = App Disconnected \<and> c' = c
        else if \<not> supported_qos (qos_of opts) then fst e = App QosNotSupported \<and> c' = c
        else \<exists>i. last (trace c') = Send (Publish_packet \<lparr>publish_id = i, publish_topic = topic,
               publish_payload = payload, publish_opts = opts\<rparr>))"
proof (cases "connected c \<and> supported_qos (qos_of opts)")
  case False
  with assms show ?thesis
    by (auto simp: async_publish_def co_return_def co_throw_def make_error_code_def split: if_splits)
next
  case True
  let ?p = "\<lambda>i. Publish_packet \<lparr>publish_id = i, publish_topic = topic, publish_payload = payload,
    publish_opts = opts\<rparr>"
  from assms True obtain i c1 ec c2 where
    acq: "acquire_packet_id_for (traced N) (qos_of opts) c = Some (Inr i, c1)"
    and send: "await (net_send (traced N) (?p i)) c1 = Some (Inr ec, c2)"
    and fin: "(if is_error (ec, '''') then co_bind (mapped_error (traced N) ec '''') (\<lambda>e. co_return (Inl e))
      else co_return (Inr i)) c2 = Some (Inr res, c')"
    by (auto simp: async_publish_def co_bind_eq_Some simp del: traced_simps)
  have acq': "trace c1 = trace c @ (if qos_of opts = At_most_once then [] else [Acquire])"
    "qos_of opts = At_most_once \<Longrightarrow> i = 0"
    using acq acquire_traced by (auto simp: acquire_packet_id_for_def co_return_def split: if_splits)
  have send': "trace c2 = trace c1 @ [Send (?p i)]" using send_traced [OF send] by blast
  have "c' = c2 \<and> (case res of Inr j \<Rightarrow> j = i | Inl e \<Rightarrow> True)"
    using fin by (auto simp: co_bind_eq_Some co_return_def mapped_error_def co_throw_def
        split: if_splits sum.splits)
  with acq' send' True show ?thesis by (auto split: sum.split)
qed

theorem publish_outcome_witness:
  "trace (snd (the (async_publish (traced reading) ''topic'' ''ON'' \<lparr>qos_of = At_least_once, retain = True\<rparr>
     ((new_client example_config ([], []))\<lparr>is_connected := True\<rparr>))))
   = [Acquire, Send (Publish_packet \<lparr>publish_id = 7, publish_topic = ''topic'', publish_payload = ''ON'',
       publish_opts = \<lparr>qos_of = At_least_once, retain = True\<rparr>\<rparr>)]"
proof -
  let ?c = "(new_client example_config ([] :: received list, []))\<lparr>is_connected := True\<rparr>"
  let ?o = "\<lparr>qos_of = At_least_once, retain = True\<rparr>"
  obtain c' where run: "async_publish (traced reading) ''topic'' ''ON'' ?o ?c = Some (Inr (Inr 7), c')"
    by (simp add: async_publish_def connected_def supported_qos_def acquire_packet_id_for_def
        acquire_packet_id_def co_bind_def await_def recorded_def reading_def co_return_def new_client_def)
  from publish_outcome [OF run] show ?thesis
    by (simp add: run) (simp add: trace_def new_client_def)
qed

text \<open>C20: A connected client never reports a read error as such: what \<open>async_receive\<close> returns as an
  error is an unknown packet, \<open>Reconnected\<close> with the attempt counter reset, or \<open>Disconnected\<close>; what
  it returns as a value was received, and acknowledgements of other kinds are skipped.\<close>

theorem receive_outcome:
  assumes "connected c" and "async_receive N n c = Some (Inr res, c')"
  shows "(case res of
      Inl e \<Rightarrow> fst e = App UnknownPacket \<or> fst e = App Disconnected
        \<or> fst e = App Reconnected \<and> attempt c' = 0
    | Inr x \<Rightarrow> \<exists>s. fst (net_recv N s) = Recv_packet (case x of
        Got_publish p \<Rightarrow> Publish_in p | Got_puback i \<Rightarrow> Puback i | Got_suback p \<Rightarrow> Suback p))
    \<and> connected c'"
proof -
  have loop: "is_connected d \<Longrightarrow> receive_loop N n m d = Some (Inr res, c') \<Longrightarrow> (case res of
      Inl e \<Rightarrow> fst e = App UnknownPacket \<or> fst e = App Disconnected
        \<or> fst e = App Reconnected \<and> attempt c' = 0
    | Inr x \<Rightarrow> \<exists>s. fst (net_recv N s) = Recv_packet (case x of
        Got_publish p \<Rightarrow> Publish_in p | Got_puback i \<Rightarrow> Puback i | Got_suback p \<Rightarrow> Suback p))" for m d
  proof (induction m arbitrary: d)
    case (Suc m)
    obtain r e where recv: "net_recv N (env d) = (r, e)" by (metis prod.exhaust)
    then have s: "\<exists>s. fst (net_recv N s) = r" by (metis fst_conv)
    show ?case
    proof (cases "\<exists>ec. r = Recv_error ec")
      case True
      then obtain ec where r: "r = Recv_error ec" by blast
      have "receive_loop N n (Suc m) d = co_bind (handle_recv_error N n ec) (\<lambda>e. co_return (Inl e)) (d\<lparr>env := e\<rparr>)"
        by (rule receive_loop_error) (simp add: recv r)
      with Suc.prems show ?thesis
        by (auto simp: handle_recv_error_def handle_recv_error_with_def try_reconnect_def
            try_reconnect_with_def co_bind_eq_Some co_return_def make_error_code_def
            simp del: receive_loop.simps split: if_splits dest: reconnect_loop_True)
    next
      case False
      with Suc.prems recv s Suc.IH [of "d\<lparr>env := e\<rparr>"] show ?thesis
        by (auto simp: await_bind co_return_def make_error_code_def
            split: received.splits in_packet.splits)
    qed
  qed simp
  have "co_keeps (keeps_client c) (async_receive N n)" by (rule keeps_async_receive)
  from co_keepsD [OF this keeps_client_refl assms(2)] assms(1) have "connected c'"
    by (simp add: keeps_client_def connected_def)
  with loop [of c n] assms show ?thesis by (simp add: async_receive_def connected_def)
qed

theorem receive_outcome_witness:
  "\<exists>c'. async_receive reading 3 ((new_client example_config [Recv_packet (Other_packet ''pingresp''),
      Recv_packet (Puback 9)])\<lparr>is_connected := True\<rparr>) = Some (Inr (Inr (Got_puback 9)), c')
    \<and> connected c'"
proof -
  let ?c = "(new_client example_config [Recv_packet (Other_packet ''pingresp''),
      Recv_packet (Puback 9)])\<lparr>is_connected := True\<rparr>"
  obtain c' where run: "async_receive reading 3 ?c = Some (Inr (Inr (Got_puback 9)), c')"
    by (simp add: async_receive_def connected_def new_client_def eval_nat_numeral await_def co_bind_def
        reading_def co_return_def)
  have "connected ?c" by (simp add: connected_def)
  from receive_outcome [OF this run] run show ?thesis by blast
qed

end
