(* ===== verification/Json.thy ===== *)
theory Json
  imports Prelude "HOL-Library.Countable"
begin

text \<open>
  JSON values as Boost.JSON holds them: objects keep the order of insertion, and \<open>object[key]\<close>
  inserts behind the last member. Parsing and printing are the library's: the record \<open>json_lib\<close> is a
  parameter of the definitions that use them; it also says whether a text fails only because it
  ends too early. An access to a value of another kind, or to a missing key, throws.
\<close>

datatype json =
    J_null
  | J_bool bool
  | J_int int
  | J_string string
  | J_array "json list"
  | J_object "(string \<times> json) list"

type_synonym json_object = "(string \<times> json) list"

record json_lib =
  json_parse :: "string \<Rightarrow> json result"
  json_serialize :: "json \<Rightarrow> string"
  json_incomplete :: "string \<Rightarrow> bool"

section \<open>What survives printing and parsing\<close>

text \<open>
  The parser takes strings and keys that are UTF-8 (RFC 3629: no overlong forms, no surrogates,
  nothing above U+10FFFF) and at most \<open>0x7ffffffe\<close> bytes long, as many elements, at most 32 nested
  arrays and objects, and one member for a key; integers outside 64 bits become floating point. The
  printer refuses nothing. \<open>utf8_from n lo hi\<close> reads a text of which \<open>n\<close> bytes of a character are
  still to come, the next of them between \<open>lo\<close> and \<open>hi\<close>.
\<close>

primrec utf8_from :: "nat \<Rightarrow> nat \<Rightarrow> nat \<Rightarrow> string \<Rightarrow> bool" where
  "utf8_from n lo hi [] \<longleftrightarrow> n = 0"
| "utf8_from n lo hi (x # xs) \<longleftrightarrow>
     (let b = of_char x in
      if 0 < n then lo \<le> b \<and> b \<le> hi \<and> utf8_from (n - 1) 128 191 xs
      else if b < 128 then utf8_from 0 128 191 xs
      else if b < 194 then False
      else if b < 224 then utf8_from 1 128 191 xs
      else if b = 224 then utf8_from 2 160 191 xs
      else if b = 237 then utf8_from 2 128 159 xs
      else if b < 240 then utf8_from 2 128 191 xs
      else if b = 240 then utf8_from 3 144 191 xs
      else if b < 244 then utf8_from 3 128 191 xs
      else b = 244 \<and> utf8_from 3 128 143 xs)"

definition utf8_valid :: "string \<Rightarrow> bool" where
  "utf8_valid s \<longleftrightarrow> utf8_from 0 128 191 s"

definition json_limit :: nat where
  "json_limit = 2147483646"

definition json_text :: "string \<Rightarrow> bool" where
  "json_text s \<longleftrightarrow> utf8_valid s \<and> length s \<le> json_limit"

fun json_fits :: "nat \<Rightarrow> json \<Rightarrow> bool" where
  "json_fits n J_null = True"
| "json_fits n (J_bool b) = True"
| "json_fits n (J_int i) \<longleftrightarrow> - (2 ^ 63) \<le> i \<and> i < 2 ^ 64"
| "json_fits n (J_string s) \<longleftrightarrow> json_text s"
| "json_fits 0 (J_array js) = False"
| "json_fits (Suc n) (J_array js) \<longleftrightarrow> length js \<le> json_limit \<and> list_all (json_fits n) js"
| "json_fits 0 (J_object kvs) = False"
| "json_fits (Suc n) (J_object kvs) \<longleftrightarrow> length kvs \<le> json_limit \<and> distinct (map fst kvs)
     \<and> list_all (\<lambda>(k, j). json_text k \<and> json_fits n j) kvs"

definition json_portable :: "json \<Rightarrow> bool" where
  "json_portable j \<longleftrightarrow> json_fits 32 j"

text \<open>The round trip of the library on these values, used where the code relies on it.\<close>

definition json_round_trip :: "json_lib \<Rightarrow> bool" where
  "json_round_trip L \<longleftrightarrow> (\<forall>j. json_portable j \<longrightarrow> json_parse L (json_serialize L j) = Inr j)"

section \<open>Access\<close>

fun as_object :: "json \<Rightarrow> json_object result" where
  "as_object (J_object kvs) = Inr kvs"
| "as_object _ = Inl (Json_error ''not an object'')"

fun as_array :: "json \<Rightarrow> json list result" where
  "as_array (J_array js) = Inr js"
| "as_array _ = Inl (Json_error ''not an array'')"

fun value_to_string :: "json \<Rightarrow> string result" where
  "value_to_string (J_string s) = Inr s"
| "value_to_string _ = Inl (Json_error ''not a string'')"

fun value_to_int :: "json \<Rightarrow> int result" where
  "value_to_int (J_int i) =
     (if - (2 ^ 31) \<le> i \<and> i < 2 ^ 31 then Inr i else Inl (Json_error ''not exact''))"
| "value_to_int _ = Inl (Json_error ''not a number'')"

fun value_to_int64 :: "json \<Rightarrow> int result" where
  "value_to_int64 (J_int i) =
     (if - (2 ^ 63) \<le> i \<and> i < 2 ^ 63 then Inr i else Inl (Json_error ''not exact''))"
| "value_to_int64 _ = Inl (Json_error ''not a number'')"

fun value_to_uint16 :: "json \<Rightarrow> 16 word result" where
  "value_to_uint16 (J_int i) =
     (if 0 \<le> i \<and> i < 2 ^ 16 then Inr (word_of_int i) else Inl (Json_error ''not exact''))"
| "value_to_uint16 _ = Inl (Json_error ''not a number'')"

definition object_at :: "json_object \<Rightarrow> string \<Rightarrow> json result" where
  "object_at kvs k =
     (case map_of kvs k of None \<Rightarrow> Inl (Json_error ''key not found'') | Some j \<Rightarrow> Inr j)"

definition object_contains :: "json_object \<Rightarrow> string \<Rightarrow> bool" where
  "object_contains kvs k \<longleftrightarrow> map_of kvs k \<noteq> None"

text \<open>\<open>object[key] = value\<close>.\<close>

fun object_set :: "json_object \<Rightarrow> string \<Rightarrow> json \<Rightarrow> json_object" where
  "object_set [] k j = [(k, j)]"
| "object_set ((k', j') # kvs) k j =
     (if k' = k then (k, j) # kvs else (k', j') # object_set kvs k j)"

section \<open>Lemmas\<close>

lemma json_round_tripD: "json_round_trip L \<Longrightarrow> json_portable j \<Longrightarrow> json_parse L (json_serialize L j) = Inr j"
  by (simp add: json_round_trip_def)

lemma utf8_ascii: "list_all (\<lambda>c. of_char c < (128 :: nat)) s \<Longrightarrow> utf8_valid s"
  unfolding utf8_valid_def by (induction s) (simp_all add: Let_def)

text \<open>\<open>31\<close> levels are left inside the outermost array or object.\<close>

lemma json_portable_array: "json_portable (J_array js) \<longleftrightarrow> length js \<le> json_limit \<and> list_all (json_fits 31) js"
  using json_fits.simps(6) [of 31 js] by (simp add: json_portable_def)

lemma json_portable_object:
  "json_portable (J_object kvs) \<longleftrightarrow> length kvs \<le> json_limit \<and> distinct (map fst kvs)
    \<and> list_all (\<lambda>(k, j). json_text k \<and> json_fits 31 j) kvs"
  using json_fits.simps(8) [of 31 kvs] by (simp add: json_portable_def)

lemma json_fits_set: "list_all P kvs \<Longrightarrow> P (k, j) \<Longrightarrow> list_all P (object_set kvs k j)"
  by (induction kvs k j rule: object_set.induct) simp_all

lemma map_of_object_set: "map_of (object_set kvs k j) = (map_of kvs)(k \<mapsto> j)"
  by (induction kvs) (auto simp: fun_eq_iff)

lemma keys_object_set:
  "map fst (object_set kvs k j) = map fst kvs @ (if k \<in> fst ` set kvs then [] else [k])"
  by (induction kvs k j rule: object_set.induct) (simp_all add: image_iff)

lemma distinct_object_set: "distinct (map fst kvs) \<Longrightarrow> distinct (map fst (object_set kvs k j))"
  by (auto simp: keys_object_set)

lemma object_contains_set: "object_contains (object_set kvs k j) k' \<longleftrightarrow> k' = k \<or> object_contains kvs k'"
  by (simp add: object_contains_def map_of_object_set)

lemma object_at_Inr: "object_at kvs k = Inr j \<longleftrightarrow> map_of kvs k = Some j"
  by (simp add: object_at_def split: option.split)

lemma object_contains_keys: "object_contains kvs k \<longleftrightarrow> k \<in> fst ` set kvs"
  by (simp add: object_contains_def map_of_eq_None_iff)

text \<open>A library that keeps the round trip, for the examples: it numbers the values.\<close>

instance json :: countable
  by countable_datatype

definition numbering_json :: json_lib where
  "numbering_json = \<lparr>json_parse = (\<lambda>s. Inr (from_nat (digits_value s))),
     json_serialize = (\<lambda>j. nat_to_string (to_nat j)), json_incomplete = (\<lambda>s. False)\<rparr>"

lemma numbering_json_round_trip: "json_round_trip numbering_json"
  by (simp add: json_round_trip_def numbering_json_def digits_value_nat_to_string)

lemmas object_simps = map_of_object_set object_contains_def object_at_def

end
