(* ===== verification/Entity_Config.thy ===== *)
theory Entity_Config
  imports Json
begin

text \<open>
  The configuration document of an entity (\<^verbatim>\<open>mqtt/entity_config.hpp\<close>): a JSON object with three ways
  to set a member, and the device block every document carries.
\<close>

type_synonym entity_config = json_object

definition empty_config :: entity_config where
  "empty_config = []"

definition config_set_override :: "string \<Rightarrow> json \<Rightarrow> entity_config \<Rightarrow> entity_config" where
  "config_set_override k v c = object_set c k v"

definition config_set :: "string \<Rightarrow> json \<Rightarrow> entity_config \<Rightarrow> entity_config" where
  "config_set k v c = (if object_contains c k then c else config_set_override k v c)"

definition config_set_override_if_not_null :: "string \<Rightarrow> json \<Rightarrow> entity_config \<Rightarrow> entity_config" where
  "config_set_override_if_not_null k v c =
     (if object_contains c k \<and> map_of c k = Some J_null then c else config_set_override k v c)"

definition config_contains :: "string \<Rightarrow> entity_config \<Rightarrow> bool" where
  "config_contains k c \<longleftrightarrow> object_contains c k"

definition config_get :: "string \<Rightarrow> entity_config \<Rightarrow> string option result" where
  "config_get k c =
     (if \<not> config_contains k c then Inr None
      else result_bind (object_at c k) (\<lambda>j. result_map Some (value_to_string j)))"

definition config_parse :: "json_lib \<Rightarrow> entity_config \<Rightarrow> string" where
  "config_parse L c = json_serialize L (J_object c)"

definition config_from_json :: "json_lib \<Rightarrow> string \<Rightarrow> entity_config option result" where
  "config_from_json L s =
     result_map (\<lambda>j. case j of J_object kvs \<Rightarrow> Some kvs | _ \<Rightarrow> None) (json_parse L s)"

record device_identity =
  manufacturer :: string
  model :: string
  serial_number :: string
  hw_revision :: string
  sw_revision :: string

definition entity_config_basic_device :: "device_identity \<Rightarrow> json" where
  "entity_config_basic_device d = J_object
     [(''identifiers'', J_array [J_string (serial_number d)]),
      (''manufacturer'', J_string (manufacturer d)),
      (''model'', J_string (model d)),
      (''name'', J_string (manufacturer d @ '' '' @ model d @ '' '' @ hw_revision d)),
      (''sw_version'', J_string (sw_revision d))]"

section \<open>Lemmas\<close>

lemma map_of_config [simp]:
  "map_of (config_set_override k v c) = (map_of c)(k \<mapsto> v)"
  "map_of (config_set k v c) = (if map_of c k = None then (map_of c)(k \<mapsto> v) else map_of c)"
  "map_of (config_set_override_if_not_null k v c) =
     (if map_of c k = Some J_null then map_of c else (map_of c)(k \<mapsto> v))"
  by (simp_all add: config_set_override_def config_set_def config_set_override_if_not_null_def
      object_simps)

lemma distinct_config:
  "distinct (map fst c) \<Longrightarrow> distinct (map fst (config_set_override k v c))"
  "distinct (map fst c) \<Longrightarrow> distinct (map fst (config_set k v c))"
  "distinct (map fst c) \<Longrightarrow> distinct (map fst (config_set_override_if_not_null k v c))"
  by (simp_all add: config_set_override_def config_set_def config_set_override_if_not_null_def
      distinct_object_set)

lemmas config_setter_defs = config_set_override_def config_set_def config_set_override_if_not_null_def

text \<open>The three setters.\<close>

definition config_setters :: "(string \<Rightarrow> json \<Rightarrow> entity_config \<Rightarrow> entity_config) list" where
  "config_setters = [config_set_override, config_set, config_set_override_if_not_null]"

lemma config_keys:
  "f \<in> set config_setters \<Longrightarrow>
    map fst (f k v c) = map fst c @ (if config_contains k c then [] else [k])"
  unfolding config_setters_def config_contains_def list.set
  by (cases "object_contains c k")
    (elim insertE; force simp: config_setter_defs keys_object_set object_contains_keys)+

text \<open>A document that survives printing and parsing still does after a setter, while there is room
  for another member.\<close>

lemma config_portable:
  assumes "f \<in> set config_setters" and "json_portable (J_object c)" and "json_text k" and "json_fits 31 v"
    and "length c < json_limit"
  shows "json_portable (J_object (f k v c))"
proof -
  have "length (object_set c k v) \<le> length c + 1"
    using keys_object_set [of c k v, THEN arg_cong [of _ _ length]] by simp
  with assms(2-) have "json_portable (J_object (object_set c k v))"
    using json_fits_set [of "\<lambda>(k, j). json_text k \<and> json_fits 31 j" c k v]
    by (simp add: json_portable_object distinct_object_set)
  with assms(1,2) show ?thesis by (auto simp: config_setters_def config_setter_defs)
qed

section \<open>Properties\<close>

text \<open>C23: The three setters change the document only at their key, as a map: an override always
  writes, a plain set never replaces a member, the third keeps a null and nothing else. Each keeps
  the members in their order and adds at most one, behind them, so that no member is ever there
  twice; a string that was set is read back, and reading any other key is as before. A document that
  survives being printed and parsed still does after a setter was given a key and a value that do.\<close>

theorem entity_config_refines_map:
  assumes "distinct (map fst c)"
  shows "map_of (config_set_override k v c) = (map_of c)(k \<mapsto> v)
    \<and> map_of (config_set k v c) = (if config_contains k c then map_of c else (map_of c)(k \<mapsto> v))
    \<and> map_of (config_set_override_if_not_null k v c) =
        (if map_of c k = Some J_null then map_of c else (map_of c)(k \<mapsto> v))
    \<and> list_all (\<lambda>f. map fst (f k v c) = map fst c @ (if config_contains k c then [] else [k])
        \<and> distinct (map fst (f k v c))) [config_set_override, config_set, config_set_override_if_not_null]
    \<and> config_get k' (config_set_override k (J_string s) c) = (if k' = k then Inr (Some s) else config_get k' c)
    \<and> config_get k' (config_set k (J_string s) c) =
        (if k' = k \<and> \<not> config_contains k c then Inr (Some s) else config_get k' c)
    \<and> config_get k' (config_set_override_if_not_null k (J_string s) c) =
        (if k' = k \<and> map_of c k \<noteq> Some J_null then Inr (Some s) else config_get k' c)
    \<and> (if json_round_trip L \<and> json_portable (J_object c) \<and> json_text k \<and> json_fits 31 v \<and> length c < json_limit
       then list_all (\<lambda>f. config_from_json L (config_parse L (f k v c)) = Inr (Some (f k v c)))
         [config_set_override, config_set, config_set_override_if_not_null] else True)"
proof -
  have keys: "list_all (\<lambda>f. map fst (f k v c) = map fst c @ (if config_contains k c then [] else [k])
        \<and> distinct (map fst (f k v c))) config_setters"
    unfolding list_all_iff
  proof
    fix f :: "string \<Rightarrow> json \<Rightarrow> entity_config \<Rightarrow> entity_config" assume "f \<in> set config_setters"
    from config_keys [OF this, of k v c] show "map fst (f k v c) = map fst c @ (if config_contains k c then [] else [k])
        \<and> distinct (map fst (f k v c))"
      using assms by (simp add: config_contains_def object_contains_keys)
  qed
  have get: "config_get k' c' = (case map_of c' k' of None \<Rightarrow> Inr None | Some j \<Rightarrow> result_map Some (value_to_string j))" for c'
    by (simp add: config_get_def config_contains_def object_simps split: option.split)
  have trip: "list_all (\<lambda>f. config_from_json L (config_parse L (f k v c)) = Inr (Some (f k v c))) config_setters"
    if "json_round_trip L" "json_portable (J_object c)" "json_text k" "json_fits 31 v" "length c < json_limit"
    unfolding list_all_iff
    using json_round_tripD [OF that(1) config_portable [OF _ that(2-)]]
    by (simp add: config_from_json_def config_parse_def)
  show ?thesis
    by (intro conjI keys [unfolded config_setters_def])
      (use trip in \<open>simp_all add: get config_contains_def object_simps config_setters_def
        del: map_of_eq_Some_iff split: option.split\<close>)
qed

theorem entity_config_refines_map_witness:
  "config_from_json numbering_json (config_parse numbering_json
     (config_set_override ''state_topic'' (J_string ''cover/state'') [(''payload_stop'', J_null)]))
   = Inr (Some [(''payload_stop'', J_null), (''state_topic'', J_string ''cover/state'')])"
proof -
  have "json_text ''payload_stop''" "json_text ''state_topic''" "json_text ''cover/state''"
    by (simp_all add: json_text_def utf8_ascii json_limit_def)
  then show ?thesis
    using entity_config_refines_map [where L = numbering_json and c = "[(''payload_stop'', J_null)]"
        and k = "''state_topic''" and v = "J_string ''cover/state''"] numbering_json_round_trip
    by (simp add: json_portable_object json_limit_def config_set_override_def)
qed

end
