(* ===== verification/Mqtt_Entity.thy ===== *)
theory Mqtt_Entity
  imports Mqtt_Client Entity_Config Lookup_Tables
begin

text \<open>
  The base class of the entities (\<^verbatim>\<open>mqtt/entity.hpp\<close>), a template over its client: the operations
  of the client are the record \<open>client_ops\<close>, and the MQTT client provides them. The state of an
  entity holds its client and the identifiers of publications that wait for an acknowledgement.
\<close>

section \<open>The client of an entity\<close>

record 'c client_ops =
  op_connect :: "('c, error) co"
  op_set_will :: "will_config \<Rightarrow> 'c \<Rightarrow> 'c"
  op_receive :: "('c, receive_result expected) co"
  op_publish :: "string \<Rightarrow> string \<Rightarrow> pubopts \<Rightarrow> ('c, packet_id expected) co"
  op_subscribe :: "string list \<Rightarrow> ('c, packet_id expected) co"
  op_what :: "error \<Rightarrow> string"

text \<open>\<open>system_error::what()\<close> puts the message in front of what the code says.\<close>

definition error_what :: "'e net \<Rightarrow> error \<Rightarrow> string" where
  "error_what N e = (if snd e = [] then code_what N (fst e) else snd e @ '': '' @ code_what N (fst e))"

definition mqtt_ops :: "'e net \<Rightarrow> nat \<Rightarrow> 'e client client_ops" where
  "mqtt_ops N n = \<lparr>op_connect = async_connect N n, op_set_will = set_will,
     op_receive = async_receive N n, op_publish = async_publish N, op_subscribe = async_subscribe N,
     op_what = error_what N\<rparr>"

section \<open>State\<close>

datatype availability = Offline | Online

definition availability_mapper :: "(availability, string) mapper" where
  "availability_mapper = Mapper_next (Offline, ''offline'') (Mapper_last (Online, ''online''))"

record 'c entity =
  entity_name :: string
  entity_uid :: string
  entity_client :: 'c
  pending_puback :: "packet_id set"

type_synonym ('c, 'z, 'a) entity_op = "(('c, 'z) entity_scheme, 'a) co"

definition new_entity :: "string \<Rightarrow> string \<Rightarrow> 'c \<Rightarrow> 'c entity" where
  "new_entity name uid c =
     \<lparr>entity_name = name, entity_uid = uid, entity_client = c, pending_puback = {}\<rparr>"

definition entity_topic :: "('c, 'z) entity_scheme \<Rightarrow> string \<Rightarrow> string" where
  "entity_topic s t = entity_name s @ ''_'' @ entity_uid s @ ''/'' @ t"

definition on_client :: "('c, 'a) co \<Rightarrow> ('c, 'z, 'a) entity_op" where
  "on_client m = (\<lambda>s.
     case m (entity_client s) of
       None \<Rightarrow> None
     | Some (r, c) \<Rightarrow> Some (r, s\<lparr>entity_client := c\<rparr>))"

section \<open>Operations\<close>

definition entity_connect :: "'c client_ops \<Rightarrow> ('c, 'z, error) entity_op" where
  "entity_connect K = on_client (op_connect K)"

definition entity_set_will :: "'c client_ops \<Rightarrow> will_config \<Rightarrow> ('c, 'z) entity_scheme \<Rightarrow> ('c, 'z) entity_scheme" where
  "entity_set_will K w s = s\<lparr>entity_client := op_set_will K w (entity_client s)\<rparr>"

text \<open>The loop skips acknowledgements, after it has taken them off the pending ones.\<close>

primrec entity_receive_loop :: "'c client_ops \<Rightarrow> nat \<Rightarrow> ('c, 'z, publish_packet expected) entity_op" where
  "entity_receive_loop K 0 = (\<lambda>s. None)"
| "entity_receive_loop K (Suc m) =
     co_bind (on_client (op_receive K)) (\<lambda>packet.
       case packet of
         Inl e \<Rightarrow> co_return (Inl e)
       | Inr (Got_publish p) \<Rightarrow> co_return (Inr p)
       | Inr (Got_suback p) \<Rightarrow>
           if any_suback_failure p then co_return (Inl (make_error_code SubscriptionFailure, ''''))
           else entity_receive_loop K m
       | Inr (Got_puback i) \<Rightarrow>
           (\<lambda>s. entity_receive_loop K m
             (if i \<in> pending_puback s then s\<lparr>pending_puback := pending_puback s - {i}\<rparr> else s)))"

definition entity_receive :: "'c client_ops \<Rightarrow> nat \<Rightarrow> ('c, 'z, publish_packet expected) entity_op" where
  "entity_receive K m = entity_receive_loop K m"

text \<open>\<open>pubopts.get_qos() > Qos_t::at_most_once\<close>.\<close>

definition needs_ack :: "pubopts \<Rightarrow> bool" where
  "needs_ack opts \<longleftrightarrow> qos_of opts > At_most_once"

definition entity_publish ::
    "'c client_ops \<Rightarrow> string \<Rightarrow> string \<Rightarrow> pubopts \<Rightarrow> ('c, 'z, error) entity_op" where
  "entity_publish K topic payload opts =
     co_bind (on_client (op_publish K topic payload opts)) (\<lambda>r.
       case r of
         Inl e \<Rightarrow> co_return e
       | Inr i \<Rightarrow> (\<lambda>s. co_return no_error
           (if needs_ack opts then s\<lparr>pending_puback := insert i (pending_puback s)\<rparr> else s)))"

definition invalid_config :: "string \<Rightarrow> error" where
  "invalid_config m = (make_error_code InvalidConfig, m)"

definition subscription_failure :: "string \<Rightarrow> error" where
  "subscription_failure m = (make_error_code SubscriptionFailure, m)"

definition entity_set_config ::
    "'c client_ops \<Rightarrow> json_lib \<Rightarrow> entity_config \<Rightarrow> pubopts \<Rightarrow> ('c, 'z, error) entity_op" where
  "entity_set_config K L cfg opts = (\<lambda>s.
     let cfg' = config_set_override ''unique_id'' (J_string (entity_uid s)) cfg in
     co_bind (entity_publish K (''homeassistant/'' @ entity_name s @ ''/'' @ entity_uid s @ ''/config'')
         (config_parse L cfg') opts)
       (\<lambda>error.
         if is_error error then co_return (invalid_config (op_what K error))
         else if needs_ack opts
         then co_bind (on_client (op_receive K)) (\<lambda>packet.
           case packet of
             Inl e \<Rightarrow> co_return (invalid_config (op_what K e))
           | Inr (Got_puback i) \<Rightarrow> co_return no_error
           | Inr _ \<Rightarrow> co_return (invalid_config ''Expected PublishAckPacket_t was not received''))
         else co_return no_error) s)"

text \<open>A mapper throws for a value it does not have.\<close>

definition co_result :: "'a result \<Rightarrow> ('s, 'a) co" where
  "co_result r = (case r of Inl x \<Rightarrow> co_throw x | Inr y \<Rightarrow> co_return y)"

definition entity_set_availability ::
    "'c client_ops \<Rightarrow> availability \<Rightarrow> pubopts \<Rightarrow> ('c, 'z, error) entity_op" where
  "entity_set_availability K a opts = (\<lambda>s.
     co_bind (co_result (mapper_map_key availability_mapper a))
       (\<lambda>payload. entity_publish K (entity_topic s ''availability_topic'') payload opts) s)"

definition entity_subscribe :: "'c client_ops \<Rightarrow> string list \<Rightarrow> ('c, 'z, error) entity_op" where
  "entity_subscribe K topics =
     co_bind (on_client (op_subscribe K topics)) (\<lambda>r.
       case r of
         Inl e \<Rightarrow> co_return (subscription_failure (op_what K e))
       | Inr i \<Rightarrow>
           co_bind (on_client (op_receive K)) (\<lambda>packet.
             case packet of
               Inl e \<Rightarrow> co_return (subscription_failure (op_what K e))
             | Inr (Got_suback p) \<Rightarrow>
                 if any_suback_failure p
                 then co_return (subscription_failure
                   ''One of the subscribed topic has not received the required subscription acknowledge'')
                 else co_return no_error
             | Inr _ \<Rightarrow>
                 co_return (subscription_failure ''Expected SubscriptionAckPacket_t was not received'')))"

section \<open>Lemmas\<close>

lemma availability_payload:
  "mapper_map_key availability_mapper a = Inr (case a of Offline \<Rightarrow> ''offline'' | Online \<Rightarrow> ''online'')"
  by (cases a) (simp_all add: availability_mapper_def mapper_automap_def)

lemma on_client_Some:
  "on_client m s = Some (r, s') \<longleftrightarrow> (\<exists>c. m (entity_client s) = Some (r, c) \<and> s' = s\<lparr>entity_client := c\<rparr>)"
  by (auto simp: on_client_def split: option.splits)

lemma set_availability_publish:
  "entity_set_availability K a opts s =
    entity_publish K (entity_topic s ''availability_topic'')
      (case a of Offline \<Rightarrow> ''offline'' | Online \<Rightarrow> ''online'') opts s"
  by (simp add: entity_set_availability_def availability_payload co_result_def co_bind_def co_return_def)

text \<open>What the operations do to the entity, step by step.\<close>

lemma entity_update_same [simp]: "s\<lparr>entity_client := c, pending_puback := pending_puback s\<rparr> = s\<lparr>entity_client := c\<rparr>"
  by (cases s) simp

lemma on_client_bind:
  "co_bind (on_client m) f s =
    (case m (entity_client s) of
       None \<Rightarrow> None
     | Some (Inl x, c) \<Rightarrow> Some (Inl x, s\<lparr>entity_client := c\<rparr>)
     | Some (Inr y, c) \<Rightarrow> f y (s\<lparr>entity_client := c\<rparr>))"
  by (simp add: co_bind_def on_client_def split: option.split prod.split sum.split)

lemma entity_publish_eq:
  "entity_publish K t p opts s =
    (case op_publish K t p opts (entity_client s) of
       None \<Rightarrow> None
     | Some (Inl x, c) \<Rightarrow> Some (Inl x, s\<lparr>entity_client := c\<rparr>)
     | Some (Inr (Inl e), c) \<Rightarrow> Some (Inr e, s\<lparr>entity_client := c\<rparr>)
     | Some (Inr (Inr i), c) \<Rightarrow> Some (Inr no_error, s\<lparr>entity_client := c,
         pending_puback := (if needs_ack opts then insert i (pending_puback s) else pending_puback s)\<rparr>))"
  unfolding entity_publish_def on_client_bind
  by (auto simp: co_return_def split: option.split prod.split sum.split)

section \<open>What an entity receives\<close>

text \<open>The results of calling \<open>async_receive\<close> of a client over and over.\<close>

primrec client_receives :: "'c client_ops \<Rightarrow> receive_result expected list \<Rightarrow> 'c \<Rightarrow> 'c \<Rightarrow> bool" where
  "client_receives K [] c d \<longleftrightarrow> c = d"
| "client_receives K (x # xs) c d \<longleftrightarrow>
     (case op_receive K c of Some (Inr y, c') \<Rightarrow> y = x \<and> client_receives K xs c' d | _ \<Rightarrow> False)"

text \<open>The acknowledgements that do not end the loop, and what ends it.\<close>

fun skipped_ack :: "receive_result \<Rightarrow> bool" where
  "skipped_ack (Got_publish p) = False"
| "skipped_ack (Got_puback i) = True"
| "skipped_ack (Got_suback p) = (\<not> any_suback_failure p)"

fun ends_receiving :: "receive_result expected \<Rightarrow> publish_packet expected \<Rightarrow> bool" where
  "ends_receiving (Inl e) res \<longleftrightarrow> res = Inl e"
| "ends_receiving (Inr (Got_publish p)) res \<longleftrightarrow> res = Inr p"
| "ends_receiving (Inr (Got_puback i)) res \<longleftrightarrow> False"
| "ends_receiving (Inr (Got_suback p)) res \<longleftrightarrow>
     any_suback_failure p \<and> res = Inl (App SubscriptionFailure, '''')"

definition acknowledged :: "receive_result list \<Rightarrow> packet_id set" where
  "acknowledged acks = {i. Got_puback i \<in> set acks}"

lemma acknowledged_simps [simp]:
  "acknowledged [] = {}"
  "acknowledged (Got_puback i # acks) = insert i (acknowledged acks)"
  "acknowledged (Got_suback p # acks) = acknowledged acks"
  by (auto simp: acknowledged_def)

lemma minus_acknowledged: "P - acknowledged [a] - acknowledged acks = P - acknowledged (a # acks)"
  by (auto simp: acknowledged_def)

definition received_after ::
    "'c client_ops \<Rightarrow> nat \<Rightarrow> ('c, 'z) entity_scheme \<Rightarrow> publish_packet expected \<Rightarrow> ('c, 'z) entity_scheme \<Rightarrow> bool" where
  "received_after K m s res s' \<longleftrightarrow>
    (\<exists>acks x c. length acks < m \<and> list_all skipped_ack acks
      \<and> client_receives K (map Inr acks @ [x]) (entity_client s) c \<and> ends_receiving x res
      \<and> s' = s\<lparr>entity_client := c, pending_puback := pending_puback s - acknowledged acks\<rparr>)"

lemma ex_list: "(\<exists>xs x c. P xs x c) \<longleftrightarrow> (\<exists>x c. P [] x c) \<or> (\<exists>a xs x c. P (a # xs) x c)"
  by (metis list.exhaust)

lemma received_after_Suc:
  assumes "op_receive K (entity_client s) = Some (Inr y, d)"
  shows "received_after K (Suc m) s res s' \<longleftrightarrow>
    ends_receiving y res \<and> s' = s\<lparr>entity_client := d\<rparr>
    \<or> (\<exists>a. y = Inr a \<and> skipped_ack a \<and> received_after K m
        (s\<lparr>entity_client := d, pending_puback := pending_puback s - acknowledged [a]\<rparr>) res s')"
  unfolding received_after_def ex_list [where P = "\<lambda>acks x c. length acks < Suc m \<and> list_all skipped_ack acks
      \<and> client_receives K (map Inr acks @ [x]) (entity_client s) c \<and> ends_receiving x res
      \<and> s' = s\<lparr>entity_client := c, pending_puback := pending_puback s - acknowledged acks\<rparr>"]
  by (auto simp: assms minus_acknowledged)

lemma receive_loop_iff:
  "entity_receive_loop K m s = Some (Inr res, s') \<longleftrightarrow> received_after K m s res s'"
proof (induction m arbitrary: s)
  case 0
  then show ?case by (simp add: received_after_def)
next
  case (Suc m)
  show ?case
  proof (cases "\<exists>y c. op_receive K (entity_client s) = Some (Inr y, c)")
    case False
    then have "\<not> client_receives K (map Inr acks @ [x]) (entity_client s) c" for acks x c
      by (cases acks) (auto split: option.splits prod.splits sum.splits)
    with False show ?thesis
      by (auto simp: received_after_def on_client_bind split: option.splits prod.splits sum.splits)
  next
    case True
    then obtain y c where recv: "op_receive K (entity_client s) = Some (Inr y, c)" by blast
    have upd: "(if i \<in> pending_puback s then s\<lparr>entity_client := c, pending_puback := pending_puback s - {i}\<rparr>
        else s\<lparr>entity_client := c\<rparr>) = s\<lparr>entity_client := c, pending_puback := pending_puback s - {i}\<rparr>" for i
      by (cases s) auto
    show ?thesis
      unfolding received_after_Suc [OF recv]
      by (cases y; cases "projr y")
        (auto simp: on_client_bind recv co_return_def make_error_code_def Suc.IH upd)
  qed
qed

section \<open>The interface of a client\<close>

text \<open>
  What the entities and their adapters rely on: a client that is not up refuses everything with
  \<open>Disconnected\<close> and stays as it is, one that is up stays up, and the errors of receiving are the
  three the adapter knows how to treat.
\<close>

locale client_interface =
  fixes K :: "'c client_ops" and up :: "'c \<Rightarrow> bool"
  assumes down_publish: "\<not> up c \<Longrightarrow>
      \<exists>e. op_publish K t p opts c = Some (Inr (Inl e), c) \<and> fst e = App Disconnected"
    and down_subscribe: "\<not> up c \<Longrightarrow>
      \<exists>e. op_subscribe K ts c = Some (Inr (Inl e), c) \<and> fst e = App Disconnected"
    and down_receive: "\<not> up c \<Longrightarrow>
      \<exists>e. op_receive K c = Some (Inr (Inl e), c) \<and> fst e = App Disconnected"
    and up_publish: "up c \<Longrightarrow> op_publish K t p opts c = Some (r, c') \<Longrightarrow> up c'"
    and up_subscribe: "up c \<Longrightarrow> op_subscribe K ts c = Some (r', c') \<Longrightarrow> up c'"
    and up_receive: "up c \<Longrightarrow> op_receive K c = Some (r'', c') \<Longrightarrow> up c'"
    and receive_codes: "op_receive K c = Some (Inr (Inl e), c') \<Longrightarrow>
      fst e \<in> {App UnknownPacket, App Disconnected, App Reconnected}"
    and publish_errors: "op_publish K t p opts c = Some (Inr (Inl e), c') \<Longrightarrow> is_error e"
begin

lemma publish_down:
  assumes "\<not> up (entity_client s)"
  shows "\<exists>e. entity_publish K t p opts s = Some (Inr e, s) \<and> fst e = App Disconnected"
  using down_publish [OF assms, of t p opts] by (auto simp: entity_publish_eq)

lemma set_config_down:
  assumes "\<not> up (entity_client s)"
  shows "\<exists>m. entity_set_config K L cfg opts s = Some (Inr (invalid_config m), s)"
proof -
  let ?cfg = "config_set_override ''unique_id'' (J_string (entity_uid s)) cfg"
  let ?t = "''homeassistant/'' @ entity_name s @ ''/'' @ entity_uid s @ ''/config''"
  from publish_down [OF assms, of ?t "config_parse L ?cfg" opts] obtain e where
    "entity_publish K ?t (config_parse L ?cfg) opts s = Some (Inr e, s)" "fst e = App Disconnected" by blast
  moreover from this(2) have "is_error e" by (cases e) simp
  ultimately show ?thesis
    by (intro exI [of _ "op_what K e"])
      (simp add: entity_set_config_def Let_def co_bind_Inr co_return_def)
qed

lemma subscribe_down:
  assumes "\<not> up (entity_client s)"
  shows "\<exists>m. entity_subscribe K ts s = Some (Inr (subscription_failure m), s)"
  using down_subscribe [OF assms, of ts]
  by (auto simp: entity_subscribe_def on_client_bind co_return_def)

lemma receive_loop_codes:
  "entity_receive_loop K m s = Some (Inr (Inl e), s') \<Longrightarrow>
    fst e \<in> {App UnknownPacket, App Disconnected, App Reconnected, App SubscriptionFailure}"
proof (induction m arbitrary: s)
  case (Suc m)
  then show ?case
    using receive_codes [of "entity_client s"]
    by (auto simp: on_client_bind co_return_def make_error_code_def
        split: option.splits prod.splits sum.splits receive_result.splits if_splits)
qed simp

lemma receive_loop_up:
  "up (entity_client s) \<Longrightarrow> entity_receive_loop K m s = Some (r, s') \<Longrightarrow> up (entity_client s')"
proof (induction m arbitrary: s)
  case (Suc m)
  have more: "up c \<Longrightarrow> entity_receive_loop K m (s\<lparr>entity_client := c\<rparr>) = Some (r, s') \<Longrightarrow> up (entity_client s')"
    "up c \<Longrightarrow> entity_receive_loop K m (s\<lparr>entity_client := c, pending_puback := P\<rparr>) = Some (r, s')
      \<Longrightarrow> up (entity_client s')" for c P
    by (rule Suc.IH; simp)+
  show ?case
    using Suc.prems
    by (auto simp: on_client_bind co_return_def dest: up_receive more
        split: option.splits prod.splits sum.splits receive_result.splits if_splits)
qed simp

lemma publish_up:
  "up (entity_client s) \<Longrightarrow> entity_publish K t p opts s = Some (r, s') \<Longrightarrow> up (entity_client s')"
  by (auto simp: entity_publish_eq dest: up_publish split: option.splits prod.splits sum.splits)

text \<open>The outcome of announcing a document and of subscribing.\<close>

lemma set_config_cases:
  assumes "entity_set_config K L cfg opts s = Some (Inr err, s')"
  shows "if is_error err then fst err = App InvalidConfig
    else err = no_error \<and> (\<exists>i c. op_publish K (''homeassistant/'' @ entity_name s @ ''/'' @ entity_uid s @ ''/config'')
        (config_parse L (config_set_override ''unique_id'' (J_string (entity_uid s)) cfg)) opts
        (entity_client s) = Some (Inr (Inr i), c)
      \<and> (if needs_ack opts
         then (\<exists>j. op_receive K c = Some (Inr (Inr (Got_puback j)), entity_client s'))
           \<and> pending_puback s' = insert i (pending_puback s)
         else entity_client s' = c \<and> pending_puback s' = pending_puback s))"
proof -
  let ?t = "''homeassistant/'' @ entity_name s @ ''/'' @ entity_uid s @ ''/config''"
  let ?p = "config_parse L (config_set_override ''unique_id'' (J_string (entity_uid s)) cfg)"
  obtain e1 s1 where pub: "entity_publish K ?t ?p opts s = Some (Inr e1, s1)"
    using assms by (auto simp: entity_set_config_def Let_def co_bind_eq_Some)
  show ?thesis
  proof (cases "is_error e1")
    case True
    with assms pub show ?thesis
      by (auto simp: entity_set_config_def Let_def co_bind_def co_return_def invalid_config_def make_error_code_def)
  next
    case False
    with pub obtain i c where "op_publish K ?t ?p opts (entity_client s) = Some (Inr (Inr i), c)"
      and "s1 = s\<lparr>entity_client := c,
         pending_puback := (if needs_ack opts then insert i (pending_puback s) else pending_puback s)\<rparr>"
      by (auto simp: entity_publish_eq dest: publish_errors split: option.splits prod.splits sum.splits)
    with False assms pub show ?thesis
      by (auto simp: entity_set_config_def Let_def co_bind_def [of "entity_publish _ _ _ _"] on_client_bind
          co_return_def invalid_config_def make_error_code_def
          split: option.splits prod.splits sum.splits receive_result.splits if_splits)
  qed
qed

lemma subscribe_cases:
  assumes "entity_subscribe K ts s = Some (Inr err, s')"
  shows "if is_error err then fst err = App SubscriptionFailure
    else err = no_error \<and> (\<exists>i c p. op_subscribe K ts (entity_client s) = Some (Inr (Inr i), c)
      \<and> op_receive K c = Some (Inr (Inr (Got_suback p)), entity_client s') \<and> \<not> any_suback_failure p
      \<and> pending_puback s' = pending_puback s)"
  using assms
  by (auto simp: entity_subscribe_def on_client_bind co_return_def subscription_failure_def
      make_error_code_def split: option.splits prod.splits sum.splits receive_result.splits if_splits)

end

section \<open>The MQTT client provides it\<close>

lemma receive_loop_error_codes:
  "receive_loop N n m c = Some (Inr (Inl e), c') \<Longrightarrow> is_connected c \<Longrightarrow>
    fst e \<in> {App UnknownPacket, App Disconnected, App Reconnected}"
proof (induction m arbitrary: c)
  case (Suc m)
  obtain r d where recv: "net_recv N (env c) = (r, d)" by (metis prod.exhaust)
  from Suc.prems Suc.IH [of "c\<lparr>env := d\<rparr>"] show ?case
    by (cases r) (auto simp: await_bind recv handle_recv_error_def handle_recv_error_with_def
        co_bind_eq_Some co_return_def make_error_code_def split: in_packet.splits if_splits)
qed simp

lemma async_receive_error_codes:
  "async_receive N n c = Some (Inr (Inl e), c') \<Longrightarrow>
    fst e \<in> {App UnknownPacket, App Disconnected, App Reconnected}"
  using receive_loop_error_codes [of N n n c e c']
  by (auto simp: async_receive_def connected_def co_return_def make_error_code_def split: if_splits)

lemma async_publish_errors:
  "async_publish N t p opts c = Some (Inr (Inl e), c') \<Longrightarrow> is_error e"
  by (auto simp: async_publish_def co_bind_eq_Some co_return_def co_throw_def make_error_code_def
      mapped_error_def split: if_splits sum.splits)

lemma mqtt_keeps_connected:
  assumes "co_keeps (keeps_client c) m" and "m c = Some (r, c')" and "connected c"
  shows "connected c'"
  using co_keepsD [OF assms(1) keeps_client_refl assms(2)] assms(3)
  by (simp add: keeps_client_def connected_def)

interpretation mqtt: client_interface "mqtt_ops N n" connected
proof
  fix c c' :: "'a client" and t p opts ts r r' r'' e
  assume "\<not> connected c"
  then show "\<exists>e. op_publish (mqtt_ops N n) t p opts c = Some (Inr (Inl e), c) \<and> fst e = App Disconnected"
    and "\<exists>e. op_subscribe (mqtt_ops N n) ts c = Some (Inr (Inl e), c) \<and> fst e = App Disconnected"
    and "\<exists>e. op_receive (mqtt_ops N n) c = Some (Inr (Inl e), c) \<and> fst e = App Disconnected"
    by (simp_all add: mqtt_ops_def async_publish_def async_subscribe_def async_receive_def co_return_def
        make_error_code_def)
qed (auto simp: mqtt_ops_def intro: mqtt_keeps_connected keeps_async_publish keeps_async_subscribe
    keeps_async_receive dest: async_receive_error_codes async_publish_errors)

section \<open>Properties\<close>

text \<open>C22: An announced document that is confirmed was published under the topic of the entity with
  its \<open>unique_id\<close> put in, and with a quality of service above zero the next packet received was an
  acknowledgement; the identifier of the publication then stays among the pending ones, since this
  acknowledgement is consumed without taking it off. Every failure is reported as
  \<open>InvalidConfig\<close>, whatever the client said.\<close>

theorem set_config_outcome:
  assumes "entity_set_config (mqtt_ops N n) L cfg opts s = Some (Inr err, s')"
  shows "if is_error err then fst err = App InvalidConfig
    else \<exists>i c. async_publish N (''homeassistant/'' @ entity_name s @ ''/'' @ entity_uid s @ ''/config'')
        (config_parse L (config_set_override ''unique_id'' (J_string (entity_uid s)) cfg)) opts
        (entity_client s) = Some (Inr (Inr i), c)
      \<and> (if needs_ack opts
         then (\<exists>j. async_receive N n c = Some (Inr (Inr (Got_puback j)), entity_client s'))
           \<and> i \<in> pending_puback s'
         else entity_client s' = c \<and> pending_puback s' = pending_puback s)"
proof -
  have "op_publish (mqtt_ops N n) = async_publish N" "op_receive (mqtt_ops N n) = async_receive N n"
    by (simp_all add: mqtt_ops_def)
  with mqtt.set_config_cases [OF assms] show ?thesis by (cases "is_error err") (simp, fastforce)
qed

text \<open>A network for the examples: everything succeeds, the reads are acknowledgements of 7.\<close>

definition acknowledging :: "unit net" where
  "acknowledging = \<lparr>net_resolve = (\<lambda>h p e. ((Sys 0, [h]), e)), net_connect = (\<lambda>eps e. (Sys 0, e)),
     net_send = (\<lambda>q e. (Sys 0, e)), net_recv = (\<lambda>e. (Recv_packet (Puback 7), e)),
     net_acquire = (\<lambda>e. (Some 7, e)), net_wait = (\<lambda>d e. (Sys 0, e)),
     code_what = (\<lambda>c. ''?''), category_slot = 5, ndebug = True\<rparr>"

definition up_client :: "unit client" where
  "up_client = \<lparr>config = \<lparr>unique_id = ''hatch'', username = '''', password = '''', host = ''broker'',
     port = ''1883'', clean_session = True, keep_alive = 30, config_max_attempts = 3,
     config_reconnect_delay = 5\<rparr>, will = None, is_connected = True, attempt = 0, max_attempts = 3,
     reconnect_delay = 5, env = ()\<rparr>"

theorem set_config_outcome_witness:
  "\<exists>s'. entity_set_config (mqtt_ops acknowledging 1) numbering_json [] \<lparr>qos_of = At_least_once, retain = True\<rparr>
      (new_entity ''sensor'' ''t1'' up_client) = Some (Inr no_error, s')
    \<and> pending_puback s' \<noteq> {}"
proof -
  let ?o = "\<lparr>qos_of = At_least_once, retain = True\<rparr>"
  obtain s' where run: "entity_set_config (mqtt_ops acknowledging 1) numbering_json [] ?o
      (new_entity ''sensor'' ''t1'' up_client) = Some (Inr no_error, s')"
    by (simp add: entity_set_config_def Let_def mqtt_ops_def entity_publish_eq async_publish_def
        connected_def up_client_def new_entity_def supported_qos_def acquire_packet_id_for_def
        acquire_packet_id_def acknowledging_def co_bind_def await_def co_return_def on_client_def
        needs_ack_def async_receive_def no_error_def)
  from set_config_outcome [OF run] have "pending_puback s' \<noteq> {}" by (auto simp: needs_ack_def)
  with run show ?thesis by blast
qed

text \<open>An entity whose client is not connected changes nothing: publishing reports
  \<open>Disconnected\<close>, announcing a document \<open>InvalidConfig\<close> and subscribing \<open>SubscriptionFailure\<close>.\<close>

theorem disconnected_entity_refuses:
  assumes "\<not> connected (entity_client s)"
  shows "(\<exists>e. entity_publish (mqtt_ops N n) t p opts s = Some (Inr e, s) \<and> fst e = App Disconnected)
    \<and> (\<exists>e. entity_set_availability (mqtt_ops N n) a opts s = Some (Inr e, s) \<and> fst e = App Disconnected)
    \<and> (\<exists>e. entity_set_config (mqtt_ops N n) L cfg opts s = Some (Inr e, s) \<and> fst e = App InvalidConfig)
    \<and> (\<exists>e. entity_subscribe (mqtt_ops N n) ts s = Some (Inr e, s) \<and> fst e = App SubscriptionFailure)"
  using mqtt.publish_down [OF assms] mqtt.set_config_down [OF assms, of N n L cfg opts]
    mqtt.subscribe_down [OF assms, of N n ts]
  by (auto simp: set_availability_publish invalid_config_def subscription_failure_def make_error_code_def)

theorem disconnected_entity_refuses_witness:
  "\<exists>e. entity_subscribe (mqtt_ops acknowledging 1) [''cover_h/set'']
      (new_entity ''cover'' ''h'' (up_client\<lparr>is_connected := False\<rparr>))
    = Some (Inr e, new_entity ''cover'' ''h'' (up_client\<lparr>is_connected := False\<rparr>))
    \<and> fst e = App SubscriptionFailure"
proof -
  have "\<not> connected (entity_client (new_entity ''cover'' ''h'' (up_client\<lparr>is_connected := False\<rparr>)))"
    by (simp add: connected_def new_entity_def)
  from disconnected_entity_refuses [OF this] show ?thesis by blast
qed

text \<open>C21: Receiving on an entity returns exactly when its client, after any number of
  acknowledgements, receives something else: it then returns the publication received, or the error
  of the client, one of three, or \<open>SubscriptionFailure\<close> for a subscription acknowledgement that
  reports a failure. The identifiers of the publication acknowledgements it skipped, and no others,
  are taken off the pending ones; nothing else of the entity changes, and a connected client stays
  connected.\<close>

theorem entity_receive_outcome:
  "entity_receive (mqtt_ops N n) m s = Some (Inr res, s') \<longleftrightarrow>
    received_after (mqtt_ops N n) m s res s'
    \<and> (case res of
        Inr p \<Rightarrow> True
      | Inl e \<Rightarrow> fst e \<in> {App UnknownPacket, App Disconnected, App Reconnected, App SubscriptionFailure})
    \<and> (if connected (entity_client s) then connected (entity_client s') else True)"
proof -
  let ?run = "entity_receive (mqtt_ops N n) m s = Some (Inr res, s')"
  have "?run \<Longrightarrow> (case res of Inr p \<Rightarrow> True
      | Inl e \<Rightarrow> fst e \<in> {App UnknownPacket, App Disconnected, App Reconnected, App SubscriptionFailure})"
    using mqtt.receive_loop_codes [of N n m s _ s'] by (simp add: entity_receive_def split: sum.split)
  moreover have "?run \<Longrightarrow> connected (entity_client s) \<Longrightarrow> connected (entity_client s')"
    using mqtt.receive_loop_up [of s N n m "Inr res" s'] by (simp add: entity_receive_def)
  moreover have "?run \<longleftrightarrow> received_after (mqtt_ops N n) m s res s'"
    by (simp add: entity_receive_def receive_loop_iff)
  ultimately show ?thesis by (auto split: if_splits)
qed

theorem entity_receive_outcome_witness:
  "\<exists>s'. entity_receive (mqtt_ops reading 3) 3
      ((new_entity ''sensor'' ''t1'' ((new_client (config up_client) [Recv_packet (Puback 7),
          Recv_packet (Suback \<lparr>suback_id = 1, suback_entries = [Suback_failure]\<rparr>)])\<lparr>is_connected := True\<rparr>))
        \<lparr>pending_puback := {7, 8}\<rparr>)
      = Some (Inr (Inl (App SubscriptionFailure, '''')), s')
    \<and> pending_puback s' = {8}"
proof -
  let ?c = "(new_client (config up_client) [Recv_packet (Puback 7),
          Recv_packet (Suback \<lparr>suback_id = 1, suback_entries = [Suback_failure]\<rparr>)])\<lparr>is_connected := True\<rparr>"
  let ?s = "(new_entity ''sensor'' ''t1'' ?c)\<lparr>pending_puback := {7, 8}\<rparr>"
  let ?s' = "?s\<lparr>entity_client := ?c\<lparr>env := []\<rparr>, pending_puback := pending_puback ?s - acknowledged [Got_puback 7]\<rparr>"
  have "client_receives (mqtt_ops reading 3) (map Inr [Got_puback 7]
      @ [Inr (Got_suback \<lparr>suback_id = 1, suback_entries = [Suback_failure]\<rparr>)]) (entity_client ?s) (?c\<lparr>env := []\<rparr>)"
    by (simp add: mqtt_ops_def async_receive_def connected_def new_client_def new_entity_def eval_nat_numeral
        await_def co_bind_def reading_def co_return_def)
  then have "entity_receive (mqtt_ops reading 3) 3 ?s = Some (Inr (Inl (App SubscriptionFailure, '''')), ?s')"
    unfolding entity_receive_outcome received_after_def
    by (intro conjI exI [of _ "[Got_puback 7]"]
        exI [of _ "Inr (Got_suback \<lparr>suback_id = 1, suback_entries = [Suback_failure]\<rparr>)"]
        exI [of _ "?c\<lparr>env := []\<rparr>"]) (simp_all add: any_suback_failure_def connected_def new_entity_def)
  then show ?thesis by (auto simp: new_entity_def)
qed

end
