(* ===== verification/Mqtt_Entities.thy ===== *)
theory Mqtt_Entities
  imports Mqtt_Entity
begin

text \<open>
  The four entities (\<^verbatim>\<open>mqtt/binary_sensor.hpp\<close>, \<^verbatim>\<open>mqtt/button.hpp\<close>, \<^verbatim>\<open>mqtt/sensor.hpp\<close>,
  \<^verbatim>\<open>mqtt/cover.hpp\<close>): each extends the base entity by its topics, completes the document it announces,
  publishes its states and reads its commands.
\<close>

section \<open>Topics\<close>

record 'c topic_entity = "'c entity" +
  topics :: "(string, string) static_map"

definition with_topics :: "(string \<times> string) list \<Rightarrow> 'c entity \<Rightarrow> 'c topic_entity" where
  "with_topics defaults s = entity.extend s
     \<lparr>topics = \<lparr>map_data = map (\<lambda>(k, t). (k, entity_topic s t)) defaults\<rparr>\<rparr>"

type_synonym ('c, 'a) topic_entity_op = "('c topic_entity, 'a) co"

definition topic_at :: "'c topic_entity \<Rightarrow> string \<Rightarrow> string result" where
  "topic_at s k = static_map_at_key (topics s) k"

definition json_template :: json where
  "json_template = J_string ''{{ value_json | tojson }}''"

definition availability_topic :: "('c, 'z) entity_scheme \<Rightarrow> json" where
  "availability_topic s = J_string (entity_topic s ''availability_topic'')"

text \<open>An error of a step is returned, success continues.\<close>

definition checked :: "('s, error) co \<Rightarrow> ('s, error) co \<Rightarrow> ('s, error) co" where
  "checked m k = co_bind m (\<lambda>e. if is_error e then co_return e else k)"

text \<open>The setters applied to results, which throw when a topic or a mapping is missing.\<close>

definition set_string :: "string \<Rightarrow> string result \<Rightarrow> entity_config result \<Rightarrow> entity_config result" where
  "set_string k v c = result_bind c (\<lambda>c. result_map (\<lambda>v. config_set_override k (J_string v) c) v)"

definition set_string_if_not_null ::
    "string \<Rightarrow> string result \<Rightarrow> entity_config result \<Rightarrow> entity_config result" where
  "set_string_if_not_null k v c =
     result_bind c (\<lambda>c. result_map (\<lambda>v. config_set_override_if_not_null k (J_string v) c) v)"

definition announce ::
    "'c client_ops \<Rightarrow> json_lib \<Rightarrow> entity_config result \<Rightarrow> pubopts \<Rightarrow> ('c, error) topic_entity_op" where
  "announce K L doc opts =
     co_bind (co_result doc) (\<lambda>d. checked (entity_set_config K L d opts) (co_return no_error))"

section \<open>Binary sensor\<close>

datatype binary_sensor_state = Sensor_off | Sensor_on

definition binary_sensor_mapper :: "(binary_sensor_state, string) mapper" where
  "binary_sensor_mapper = Mapper_next (Sensor_off, ''off'') (Mapper_last (Sensor_on, ''on''))"

definition binary_sensor_topics :: "(string \<times> string) list" where
  [simp]: "binary_sensor_topics = [(''state_topic'', ''state''), (''json_attributes_topic'', ''json_attributes_topic'')]"

definition new_binary_sensor :: "string \<Rightarrow> 'c \<Rightarrow> 'c topic_entity" where
  "new_binary_sensor uid c = with_topics binary_sensor_topics (new_entity ''binary_sensor'' uid c)"

definition binary_sensor_document :: "'c topic_entity \<Rightarrow> entity_config \<Rightarrow> entity_config result" where
  "binary_sensor_document s cfg =
     (let c = set_string ''state_topic'' (topic_at s ''state_topic'') (Inr cfg);
          c = set_string ''payload_off'' (mapper_map_key binary_sensor_mapper Sensor_off) c;
          c = set_string ''payload_on'' (mapper_map_key binary_sensor_mapper Sensor_on) c;
          c = result_map (config_set_override ''availability_topic'' (availability_topic s)) c;
          c = set_string ''json_attributes_topic'' (topic_at s ''json_attributes_topic'') c
      in result_map (config_set ''json_attributes_template'' json_template) c)"

definition binary_sensor_configure ::
    "'c client_ops \<Rightarrow> json_lib \<Rightarrow> entity_config \<Rightarrow> pubopts \<Rightarrow> ('c, error) topic_entity_op" where
  "binary_sensor_configure K L cfg opts = (\<lambda>s. announce K L (binary_sensor_document s cfg) opts s)"

definition binary_sensor_set_state ::
    "'c client_ops \<Rightarrow> binary_sensor_state \<Rightarrow> pubopts \<Rightarrow> ('c, error) topic_entity_op" where
  "binary_sensor_set_state K st opts = (\<lambda>s.
     co_bind (co_result (topic_at s ''state_topic'')) (\<lambda>t.
     co_bind (co_result (mapper_map_key binary_sensor_mapper st)) (\<lambda>p.
       entity_publish K t p opts)) s)"

definition binary_sensor_receive :: "'c client_ops \<Rightarrow> nat \<Rightarrow> ('c, error) topic_entity_op" where
  "binary_sensor_receive K m =
     co_bind (entity_receive K m) (\<lambda>r. case r of Inl e \<Rightarrow> co_return e | Inr p \<Rightarrow> co_return no_error)"

section \<open>Sensor\<close>

definition sensor_topics :: "(string \<times> string) list" where
  [simp]: "sensor_topics = [(''state_topic'', ''state''), (''json_attributes_topic'', ''json_attributes_topic'')]"

definition new_sensor :: "string \<Rightarrow> 'c \<Rightarrow> 'c topic_entity" where
  "new_sensor uid c = with_topics sensor_topics (new_entity ''sensor'' uid c)"

definition sensor_document :: "'c topic_entity \<Rightarrow> entity_config \<Rightarrow> entity_config result" where
  "sensor_document s cfg =
     (let c = set_string ''state_topic'' (topic_at s ''state_topic'') (Inr cfg);
          c = result_map (config_set_override ''availability_topic'' (availability_topic s)) c;
          c = set_string ''json_attributes_topic'' (topic_at s ''json_attributes_topic'') c
      in result_map (config_set ''json_attributes_template'' json_template) c)"

definition sensor_configure ::
    "'c client_ops \<Rightarrow> json_lib \<Rightarrow> entity_config \<Rightarrow> pubopts \<Rightarrow> ('c, error) topic_entity_op" where
  "sensor_configure K L cfg opts = (\<lambda>s. announce K L (sensor_document s cfg) opts s)"

definition sensor_set_state ::
    "'c client_ops \<Rightarrow> string \<Rightarrow> pubopts \<Rightarrow> ('c, error) topic_entity_op" where
  "sensor_set_state K st opts = (\<lambda>s.
     co_bind (co_result (topic_at s ''state_topic'')) (\<lambda>t. entity_publish K t st opts) s)"

definition sensor_receive :: "'c client_ops \<Rightarrow> nat \<Rightarrow> ('c, error) topic_entity_op" where
  "sensor_receive K m =
     co_bind (entity_receive K m) (\<lambda>r. case r of Inl e \<Rightarrow> co_return e | Inr p \<Rightarrow> co_return no_error)"

section \<open>Button\<close>

definition button_topics :: "(string \<times> string) list" where
  [simp]: "button_topics = [(''command_topic'', ''set'')]"

definition new_button :: "string \<Rightarrow> 'c \<Rightarrow> 'c topic_entity" where
  "new_button uid c = with_topics button_topics (new_entity ''button'' uid c)"

definition button_document :: "'c topic_entity \<Rightarrow> entity_config \<Rightarrow> entity_config result" where
  "button_document s cfg =
     (let c = set_string ''command_topic'' (topic_at s ''command_topic'') (Inr cfg);
          c = set_string ''payload_press'' (Inr ''press'') c;
          c = result_map (config_set_override ''availability_topic'' (availability_topic s)) c
      in result_map (config_set ''json_attributes_template'' json_template) c)"

definition button_configure ::
    "'c client_ops \<Rightarrow> json_lib \<Rightarrow> entity_config \<Rightarrow> pubopts \<Rightarrow> ('c, error) topic_entity_op" where
  "button_configure K L cfg opts = (\<lambda>s.
     co_bind (co_result (button_document s cfg)) (\<lambda>d.
       checked (entity_set_config K L d opts)
         (co_bind (co_result (topic_at s ''command_topic'')) (\<lambda>t.
           checked (entity_subscribe K [t]) (co_return no_error)))) s)"

definition button_receive :: "'c client_ops \<Rightarrow> nat \<Rightarrow> ('c, unit expected) topic_entity_op" where
  "button_receive K m =
     co_bind (entity_receive K m) (\<lambda>r.
       case r of
         Inl e \<Rightarrow> co_return (Inl e)
       | Inr p \<Rightarrow>
           if publish_payload p = ''press'' then co_return (Inr ())
           else co_return (Inl (make_error_code UnknownPacket, '''')))"

section \<open>Cover\<close>

datatype cover_state = Undefined | Open | Opening | Closing | Closed

datatype cover_command = Command_open | Command_close | Command_stop

definition cover_state_mapper :: "(cover_state, string) mapper" where
  "cover_state_mapper = Mapper_next (Open, ''open'') (Mapper_next (Opening, ''opening'')
     (Mapper_next (Closing, ''closing'') (Mapper_last (Closed, ''closed''))))"

definition cover_command_mapper :: "(cover_command, string) mapper" where
  "cover_command_mapper = Mapper_next (Command_open, ''open'')
     (Mapper_next (Command_close, ''close'') (Mapper_last (Command_stop, ''stop'')))"

definition cover_topics :: "(string \<times> string) list" where
  [simp]: "cover_topics = [(''command_topic'', ''set''), (''state_topic'', ''state''),
     (''json_attributes_topic'', ''json_attributes_topic'')]"

definition new_cover :: "string \<Rightarrow> 'c \<Rightarrow> 'c topic_entity" where
  "new_cover uid c = with_topics cover_topics (new_entity ''cover'' uid c)"

definition cover_document :: "'c topic_entity \<Rightarrow> entity_config \<Rightarrow> entity_config result" where
  "cover_document s cfg =
     (let c = set_string ''command_topic'' (topic_at s ''command_topic'') (Inr cfg);
          c = set_string ''state_topic'' (topic_at s ''state_topic'') c;
          c = set_string ''state_opening'' (mapper_map_key cover_state_mapper Opening) c;
          c = set_string ''state_open'' (mapper_map_key cover_state_mapper Open) c;
          c = set_string ''state_closing'' (mapper_map_key cover_state_mapper Closing) c;
          c = set_string ''state_closed'' (mapper_map_key cover_state_mapper Closed) c;
          c = set_string_if_not_null ''payload_open'' (mapper_map_key cover_command_mapper Command_open) c;
          c = set_string_if_not_null ''payload_close'' (mapper_map_key cover_command_mapper Command_close) c;
          c = set_string_if_not_null ''payload_stop'' (mapper_map_key cover_command_mapper Command_stop) c;
          c = result_map (config_set_override ''availability_topic'' (availability_topic s)) c;
          c = set_string ''json_attributes_topic'' (topic_at s ''json_attributes_topic'') c
      in result_map (config_set ''json_attributes_template'' json_template) c)"

definition cover_configure ::
    "'c client_ops \<Rightarrow> json_lib \<Rightarrow> entity_config \<Rightarrow> pubopts \<Rightarrow> ('c, error) topic_entity_op" where
  "cover_configure K L cfg opts = (\<lambda>s.
     co_bind (co_result (cover_document s cfg)) (\<lambda>d.
       checked (entity_set_config K L d opts)
         (co_bind (co_result (topic_at s ''command_topic'')) (\<lambda>t.
           checked (entity_subscribe K [t]) (co_return no_error)))) s)"

definition cover_set_state ::
    "'c client_ops \<Rightarrow> cover_state \<Rightarrow> pubopts \<Rightarrow> ('c, error) topic_entity_op" where
  "cover_set_state K st opts = (\<lambda>s.
     if st = Undefined then co_return no_error s
     else co_bind (co_result (topic_at s ''state_topic'')) (\<lambda>t.
       co_bind (co_result (mapper_map_key cover_state_mapper st)) (\<lambda>p. entity_publish K t p opts)) s)"

text \<open>\<open>assert(0)\<close> for a topic that is not the command topic is compiled out in a release build.\<close>

definition map_command ::
    "bool \<Rightarrow> 'c topic_entity \<Rightarrow> publish_packet \<Rightarrow> cover_command option result" where
  "map_command release s p =
     result_bind (topic_at s ''command_topic'') (\<lambda>t.
       if publish_topic p = t
       then result_map Some (mapper_map_value cover_command_mapper (publish_payload p))
       else if release then Inr None else Inl Assertion_failed)"

definition cover_receive :: "'c client_ops \<Rightarrow> bool \<Rightarrow> nat \<Rightarrow> ('c, cover_command expected) topic_entity_op" where
  "cover_receive K release m =
     co_bind (entity_receive K m) (\<lambda>r.
       case r of
         Inl e \<Rightarrow> co_return (Inl e)
       | Inr p \<Rightarrow> (\<lambda>s.
           co_bind (co_result (map_command release s p)) (\<lambda>cmd.
             case cmd of
               Some c \<Rightarrow> co_return (Inr c)
             | None \<Rightarrow> co_return (Inl (make_error_code UnknownPacket, ''''))) s))"

section \<open>Lemmas\<close>

lemma set_string_Inr [simp]:
  "set_string k (Inr v) (Inr c) = Inr (config_set_override k (J_string v) c)"
  "set_string_if_not_null k (Inr v) (Inr c) = Inr (config_set_override_if_not_null k (J_string v) c)"
  by (simp_all add: set_string_def set_string_if_not_null_def)

lemma cover_state_payload:
  "mapper_map_key cover_state_mapper Open = Inr ''open''"
  "mapper_map_key cover_state_mapper Opening = Inr ''opening''"
  "mapper_map_key cover_state_mapper Closing = Inr ''closing''"
  "mapper_map_key cover_state_mapper Closed = Inr ''closed''"
  by (simp_all add: cover_state_mapper_def mapper_automap_def)

lemma cover_command_payload:
  "mapper_map_key cover_command_mapper Command_open = Inr ''open''"
  "mapper_map_key cover_command_mapper Command_close = Inr ''close''"
  "mapper_map_key cover_command_mapper Command_stop = Inr ''stop''"
  by (simp_all add: cover_command_mapper_def mapper_automap_def)

lemma cover_command_of_payload:
  "mapper_map_value cover_command_mapper p =
    (if p = ''open'' then Inr Command_open else if p = ''close'' then Inr Command_close
     else if p = ''stop'' then Inr Command_stop else Inl (Invalid_argument ''Key does not exist''))"
  by (simp add: cover_command_mapper_def mapper_automap_def)

text \<open>An entity with the name and the topics a cover is made with.\<close>

definition is_cover :: "'c topic_entity \<Rightarrow> bool" where
  "is_cover s \<longleftrightarrow> entity_name s = ''cover'' \<and> topics s = topics (new_cover (entity_uid s) (entity_client s))"

lemma new_cover_is_cover: "is_cover (new_cover uid c)"
  by (simp add: is_cover_def new_cover_def with_topics_def new_entity_def entity.defs entity_topic_def)

lemma cover_topic_at:
  assumes "is_cover s"
  shows "topic_at s ''command_topic'' = Inr (entity_topic s ''set'')"
    and "topic_at s ''state_topic'' = Inr (entity_topic s ''state'')"
    and "topic_at s ''json_attributes_topic'' = Inr (entity_topic s ''json_attributes_topic'')"
  using assms
  by (simp_all add: is_cover_def topic_at_def new_cover_def with_topics_def new_entity_def entity.defs
      static_map_at_key_def entity_topic_def)

lemma receive_keeps_cover:
  assumes "is_cover s"
  shows "entity_receive_loop K m s = Some (r, s') \<Longrightarrow> is_cover s'"
  using assms
proof (induction m arbitrary: s)
  case (Suc m)
  have keep: "is_cover (s\<lparr>entity_client := c\<rparr>)" "is_cover (s\<lparr>entity_client := c, pending_puback := P\<rparr>)" for c P
    using Suc.prems(2) by (simp_all add: is_cover_def new_cover_def with_topics_def new_entity_def
        entity.defs entity_topic_def)
  from Suc.prems(1) show ?case
    by (auto simp: on_client_bind co_return_def keep dest!: Suc.IH
        split: option.splits prod.splits sum.splits receive_result.splits if_splits)
qed simp

lemma co_result_Inr [simp]: "co_bind (co_result (Inr x)) f s = f x s"
  by (simp add: co_result_def co_bind_def co_return_def)

lemma co_result_Inl [simp]: "co_bind (co_result (Inl x)) f s = Some (Inl x, s)"
  by (simp add: co_result_def co_bind_def co_throw_def)

lemma cover_document_eq:
  assumes "is_cover s"
  shows "cover_document s cfg = Inr
    (config_set ''json_attributes_template'' json_template
    (config_set_override ''json_attributes_topic'' (J_string (entity_topic s ''json_attributes_topic''))
    (config_set_override ''availability_topic'' (availability_topic s)
    (config_set_override_if_not_null ''payload_stop'' (J_string ''stop'')
    (config_set_override_if_not_null ''payload_close'' (J_string ''close'')
    (config_set_override_if_not_null ''payload_open'' (J_string ''open'')
    (config_set_override ''state_closed'' (J_string ''closed'')
    (config_set_override ''state_closing'' (J_string ''closing'')
    (config_set_override ''state_open'' (J_string ''open'')
    (config_set_override ''state_opening'' (J_string ''opening'')
    (config_set_override ''state_topic'' (J_string (entity_topic s ''state''))
    (config_set_override ''command_topic'' (J_string (entity_topic s ''set'')) cfg))))))))))))"
  by (simp add: cover_document_def Let_def cover_topic_at [OF assms] cover_state_payload
      cover_command_payload)

section \<open>Properties\<close>

text \<open>The member of the document that announces a state and a command.\<close>

definition state_member :: "cover_state \<Rightarrow> string" where
  "state_member st = (case st of Undefined \<Rightarrow> '''' | Open \<Rightarrow> ''state_open'' | Opening \<Rightarrow> ''state_opening''
     | Closing \<Rightarrow> ''state_closing'' | Closed \<Rightarrow> ''state_closed'')"

definition command_member :: "cover_command \<Rightarrow> string" where
  "command_member c = (case c of Command_open \<Rightarrow> ''payload_open'' | Command_close \<Rightarrow> ''payload_close''
     | Command_stop \<Rightarrow> ''payload_stop'')"

text \<open>C24: A cover keeps what its document announces: on the announced state topic it publishes for
  every state but \<open>Undefined\<close>, for which it publishes nothing, the payload announced for that
  state, and a packet with the announced payload of a command on the announced command topic is
  read as that command. A command payload that the configuration sets to null stays null.\<close>

theorem cover_keeps_its_announcement:
  assumes "is_cover s" and "cover_document s cfg = Inr doc"
  shows "(if st = Undefined then cover_set_state K st opts s = Some (Inr no_error, s)
      else \<exists>t p. map_of doc ''state_topic'' = Some (J_string t)
        \<and> map_of doc (state_member st) = Some (J_string p)
        \<and> cover_set_state K st opts s = entity_publish K t p opts s)
    \<and> (\<exists>t. map_of doc ''command_topic'' = Some (J_string t)
        \<and> (if map_of cfg (command_member cmd) = Some J_null
           then map_of doc (command_member cmd) = Some J_null
           else \<exists>p. map_of doc (command_member cmd) = Some (J_string p)
             \<and> map_command release s \<lparr>publish_id = i, publish_topic = t, publish_payload = p,
                  publish_opts = opts\<rparr> = Inr (Some cmd)))"
proof -
  have doc: "doc = projr (cover_document s cfg)" using assms(2) by simp
  have state: "map_of doc ''state_topic'' = Some (J_string (entity_topic s ''state''))"
    and cmds: "map_of doc ''command_topic'' = Some (J_string (entity_topic s ''set''))"
    by (simp_all add: doc cover_document_eq [OF assms(1)])
  have "st \<noteq> Undefined \<Longrightarrow> \<exists>p. map_of doc (state_member st) = Some (J_string p)
      \<and> cover_set_state K st opts s = entity_publish K (entity_topic s ''state'') p opts s"
    by (cases st) (simp_all add: doc cover_document_eq [OF assms(1)] state_member_def
        cover_set_state_def cover_topic_at [OF assms(1)] cover_state_payload)
  moreover have "if map_of cfg (command_member cmd) = Some J_null
      then map_of doc (command_member cmd) = Some J_null
      else \<exists>p. map_of doc (command_member cmd) = Some (J_string p)
        \<and> map_command release s \<lparr>publish_id = i, publish_topic = entity_topic s ''set'',
             publish_payload = p, publish_opts = opts\<rparr> = Inr (Some cmd)"
    by (cases cmd) (simp_all add: doc cover_document_eq [OF assms(1)] command_member_def
        map_command_def cover_topic_at [OF assms(1)] cover_command_of_payload)
  ultimately show ?thesis using state cmds by (auto simp: cover_set_state_def co_return_def)
qed

theorem cover_keeps_its_announcement_witness:
  "\<exists>doc. cover_document (new_cover ''h'' up_client) [(''payload_stop'', J_null)] = Inr doc
    \<and> map_of doc ''payload_stop'' = Some J_null"
proof -
  let ?s = "new_cover ''h'' up_client" and ?cfg = "[(''payload_stop'', J_null)]"
  obtain doc where doc: "cover_document ?s ?cfg = Inr doc"
    by (rule that) (rule cover_document_eq [OF new_cover_is_cover])
  from cover_keeps_its_announcement [OF new_cover_is_cover doc, where cmd = Command_stop]
  have "map_of doc ''payload_stop'' = Some J_null" by (simp add: command_member_def)
  with doc show ?thesis by blast
qed

text \<open>C25: A publication a cover receives is read as a command only on its command topic and with one
  of the three payloads; any other payload there is not reported as an error but thrown out of the
  coroutine, and a packet on another topic fails an assertion or, in a release build, is an
  unknown packet.\<close>

theorem cover_receive_outcome:
  assumes "is_cover s" and "entity_receive K m s = Some (Inr (Inr p), s')"
  shows "cover_receive K release m s =
    Some (if publish_topic p = entity_topic s' ''set''
      then if publish_payload p = ''open'' then Inr (Inr Command_open)
        else if publish_payload p = ''close'' then Inr (Inr Command_close)
        else if publish_payload p = ''stop'' then Inr (Inr Command_stop)
        else Inl (Invalid_argument ''Key does not exist'')
      else if release then Inr (Inl (App UnknownPacket, '''')) else Inl Assertion_failed, s')"
proof -
  have "is_cover s'" using receive_keeps_cover [OF assms(1)] assms(2) by (simp add: entity_receive_def)
  then show ?thesis
    using assms(2) by (simp add: cover_receive_def co_bind_def [of "entity_receive K m"] map_command_def
        cover_topic_at cover_command_of_payload co_return_def make_error_code_def)
qed

theorem cover_receive_outcome_witness:
  "\<exists>s'. cover_receive (mqtt_ops (acknowledging\<lparr>net_recv := (\<lambda>e. (Recv_packet (Publish_in
      \<lparr>publish_id = 1, publish_topic = ''cover_h/set'', publish_payload = ''OPEN'',
       publish_opts = \<lparr>qos_of = At_least_once, retain = False\<rparr>\<rparr>), e))\<rparr>) 1) True 1
      (new_cover ''h'' up_client) = Some (Inl (Invalid_argument ''Key does not exist''), s')"
proof -
  let ?p = "\<lparr>publish_id = 1, publish_topic = ''cover_h/set'', publish_payload = ''OPEN'',
       publish_opts = \<lparr>qos_of = At_least_once, retain = False\<rparr>\<rparr>"
  let ?K = "mqtt_ops (acknowledging\<lparr>net_recv := (\<lambda>e. (Recv_packet (Publish_in ?p), e))\<rparr>) 1"
  obtain s' where run: "entity_receive ?K 1 (new_cover ''h'' up_client) = Some (Inr (Inr ?p), s')"
    and s': "entity_topic s' ''set'' = ''cover_h/set''"
    by (simp add: entity_receive_def mqtt_ops_def async_receive_def connected_def up_client_def
        new_cover_def with_topics_def new_entity_def entity.defs acknowledging_def co_bind_def
        await_def co_return_def on_client_def entity_topic_def)
  from cover_receive_outcome [OF new_cover_is_cover run, of True] s' show ?thesis by simp
qed

end
