(* ===== verification/Mqtt_Text.thy ===== *)
theory Mqtt_Text
  imports Mqtt_Types
begin

text \<open>
  Packets as the MQTT client writes them to its log (\<^verbatim>\<open>mqtt/async_mqtt_client.hpp\<close>, \<open>detail::to_string\<close>).
  The names of the library for its enumerators are the record \<open>packet_names\<close>; the flag of a duplicate
  is an argument, since no packet of the model carries it.
\<close>

record packet_names =
  qos_name :: "qos \<Rightarrow> string"
  retain_name :: "bool \<Rightarrow> string"
  dup_name :: "bool \<Rightarrow> string"
  connect_code_name :: "nat \<Rightarrow> string"
  suback_code_name :: "suback_code \<Rightarrow> string"

definition text_field :: "string \<Rightarrow> string \<Rightarrow> string" where
  "text_field k v = k @ '': '' @ [CHR 0x27] @ v @ [CHR 0x27]"

definition bool_text :: "bool \<Rightarrow> string" where
  "bool_text b = (if b then ''true'' else ''false'')"

text \<open>\<open>fmt::join\<close>.\<close>

fun joined :: "string \<Rightarrow> string list \<Rightarrow> string" where
  "joined sep [] = ''''"
| "joined sep [s] = s"
| "joined sep (s # t # ts) = s @ sep @ joined sep (t # ts)"

definition will_to_string :: "packet_names \<Rightarrow> will_config \<Rightarrow> string" where
  "will_to_string T w = joined '', '' [text_field ''topic'' (will_topic w), text_field ''message'' (will_message w),
     text_field ''qos'' (qos_name T (qos_of (will_pubopts w))),
     text_field ''retain'' (retain_name T (retain (will_pubopts w)))]"

definition null_will :: will_config where
  "null_will = \<lparr>will_topic = ''null'', will_message = ''null'',
     will_pubopts = \<lparr>qos_of = At_most_once, retain = False\<rparr>\<rparr>"

definition connect_packet_to_string :: "packet_names \<Rightarrow> connect_packet \<Rightarrow> string" where
  "connect_packet_to_string T p = joined '', '' [text_field ''client_id'' (connect_client_id p),
     text_field ''keep_alive'' (nat_to_string (unat (keep_alive_value p))),
     text_field ''clean_session'' (bool_text (clean_session_flag p)),
     text_field ''will'' (will_to_string T (case connect_will p of None \<Rightarrow> null_will | Some w \<Rightarrow> w))]"

definition connack_to_string :: "packet_names \<Rightarrow> bool \<Rightarrow> nat \<Rightarrow> string" where
  "connack_to_string T present code = joined '', '' [text_field ''session present'' (bool_text present),
     text_field ''return code'' (connect_code_name T code)]"

definition publish_packet_to_string :: "packet_names \<Rightarrow> bool \<Rightarrow> publish_packet \<Rightarrow> string" where
  "publish_packet_to_string T dup p = joined '', '' [text_field ''pid'' (nat_to_string (unat (publish_id p))),
     text_field ''topic'' (publish_topic p), text_field ''payload'' (publish_payload p),
     text_field ''qos'' (qos_name T (qos_of (publish_opts p))),
     text_field ''retain'' (retain_name T (retain (publish_opts p))), text_field ''dup'' (dup_name T dup)]"

definition puback_to_string :: "packet_id \<Rightarrow> string" where
  "puback_to_string i = text_field ''pid'' (nat_to_string (unat i))"

definition subscribe_packet_to_string :: "packet_names \<Rightarrow> subscribe_packet \<Rightarrow> string" where
  "subscribe_packet_to_string T p = ''pid: '' @ nat_to_string (unat (subscribe_id p)) @ '', '' @
     joined '','' (map (\<lambda>(t, q). joined '', '' [text_field ''topic'' t, text_field ''qos'' (qos_name T q)])
       (subscribe_topics p))"

text \<open>The index counts the return codes as the range is run through.\<close>

fun suback_lines :: "packet_names \<Rightarrow> nat \<Rightarrow> suback_code list \<Rightarrow> string list" where
  "suback_lines T idx [] = []"
| "suback_lines T idx (c # cs) =
     (''- '' @ text_field ''suback idx'' (nat_to_string idx) @ '' '' @ text_field ''suback retcode'' (suback_code_name T c))
     # suback_lines T (Suc idx) cs"

definition suback_to_string :: "packet_names \<Rightarrow> suback_packet \<Rightarrow> string" where
  "suback_to_string T p = ''pid: '' @ nat_to_string (unat (suback_id p)) @ '', '' @ [CHR 0x0A] @
     joined [CHR 0x0A] (suback_lines T 0 (suback_entries p))"

section \<open>Lemmas\<close>

text \<open>Each return code is written with its position.\<close>

lemma suback_lines_nth:
  "length (suback_lines T idx cs) = length cs
    \<and> (\<forall>n < length cs. suback_lines T idx cs ! n = ''- '' @ text_field ''suback idx'' (nat_to_string (idx + n))
        @ '' '' @ text_field ''suback retcode'' (suback_code_name T (cs ! n)))"
proof (induction cs arbitrary: idx)
  case (Cons c cs)
  then show ?case by (auto simp: less_Suc_eq_0_disj)
qed simp

text \<open>The credentials of a client never reach its log.\<close>

lemma connect_text_hides_credentials:
  "connect_packet_to_string T (p\<lparr>connect_username := u, connect_password := pw\<rparr>) = connect_packet_to_string T p"
  by (simp add: connect_packet_to_string_def)

end
