(* ===== verification/Entity_Adapter.thy ===== *)
theory Entity_Adapter
  imports Mqtt_Entities
begin

text \<open>
  The adapter between a device and its entity (\<^verbatim>\<open>home_assistant/adapter/entity_adapter.hpp\<close>), a
  template over the entity and the device: the operations of both are the record \<open>adapter_impl\<close>.
  The state is the entity and the world of the devices, which the adapter only touches through the
  operations of the device.
\<close>

section \<open>The device and its entity\<close>

text \<open>
  \<open>im_state\<close> is missing where the device is not \<open>Synchronizable\<close>; an entity that returns an error
  only is one whose \<open>im_receive\<close> never returns a value. Waiting is a parameter, in seconds.
\<close>

record ('s, 'w, 'v, 'st) adapter_impl =
  im_connect :: "('s, error) co"
  im_will :: "will_config \<Rightarrow> 's \<Rightarrow> 's"
  im_availability_topic :: "'s \<Rightarrow> string"
  im_configure :: "entity_config \<Rightarrow> pubopts \<Rightarrow> ('s, error) co"
  im_availability :: "availability \<Rightarrow> pubopts \<Rightarrow> ('s, error) co"
  im_set_state :: "'st \<Rightarrow> pubopts \<Rightarrow> ('s, error) co"
  im_receive :: "('s, 'v expected) co"
  im_config :: entity_config
  im_state :: "('w, 'st) co option"
  im_handle :: "'v \<Rightarrow> ('w, unit) co"
  im_wait :: "int \<Rightarrow> ('w, unit) co"

record ('s, 'w) adapter =
  adapted_entity :: 's
  world :: 'w

definition on_entity :: "('s, 'a) co \<Rightarrow> (('s, 'w) adapter, 'a) co" where
  "on_entity m = (\<lambda>a. map_option (\<lambda>(r, s). (r, a\<lparr>adapted_entity := s\<rparr>)) (m (adapted_entity a)))"

definition on_world :: "('w, 'a) co \<Rightarrow> (('s, 'w) adapter, 'a) co" where
  "on_world m = (\<lambda>a. map_option (\<lambda>(r, w). (r, a\<lparr>world := w\<rparr>)) (m (world a)))"

definition adapter_pubopts :: pubopts where
  "adapter_pubopts = \<lparr>qos_of = At_least_once, retain = True\<rparr>"

definition init_retry_attempts :: nat where
  "init_retry_attempts = 10"

definition init_retry_delay :: int where
  "init_retry_delay = 60"

section \<open>Operations\<close>

text \<open>The constructor; \<open>Retain_t::yes\<close> alone asks for quality of service 0.\<close>

definition offline_will :: "('s, 'w, 'v, 'st) adapter_impl \<Rightarrow> 's \<Rightarrow> will_config result" where
  "offline_will I s =
     result_map (\<lambda>p. \<lparr>will_topic = im_availability_topic I s, will_message = p,
         will_pubopts = \<lparr>qos_of = At_most_once, retain = True\<rparr>\<rparr>)
       (mapper_map_key availability_mapper Offline)"

definition new_adapter :: "('s, 'w, 'v, 'st) adapter_impl \<Rightarrow> 's \<Rightarrow> 's result" where
  "new_adapter I s = result_map (\<lambda>w. im_will I w s) (offline_will I s)"

text \<open>The attempts of \<open>async_init\<close>; the delay follows every failure, also the last one.\<close>

primrec init_connect :: "('s, 'w, 'v, 'st) adapter_impl \<Rightarrow> nat \<Rightarrow> error \<Rightarrow> (('s, 'w) adapter, error) co" where
  "init_connect I 0 error = co_return error"
| "init_connect I (Suc n) error =
     co_bind (on_entity (im_connect I)) (\<lambda>e.
       if \<not> is_error e then co_return e
       else co_bind (on_world (im_wait I init_retry_delay)) (\<lambda>_. init_connect I n e))"

definition sync_state :: "('s, 'w, 'v, 'st) adapter_impl \<Rightarrow> (('s, 'w) adapter, unit) co" where
  "sync_state I =
     (case im_state I of
        None \<Rightarrow> co_return ()
      | Some st \<Rightarrow>
          co_bind (on_world st) (\<lambda>v.
            co_bind (on_entity (im_set_state I v adapter_pubopts)) (\<lambda>e. co_return ())))"

definition adapter_configure :: "('s, 'w, 'v, 'st) adapter_impl \<Rightarrow> (('s, 'w) adapter, bool) co" where
  "adapter_configure I =
     co_bind (on_entity (im_configure I (im_config I) adapter_pubopts)) (\<lambda>e.
       if is_error e then co_return False
       else co_bind (on_world (im_wait I 1)) (\<lambda>_.
         co_bind (on_entity (im_availability I Online adapter_pubopts)) (\<lambda>e'.
           co_bind (sync_state I) (\<lambda>_. co_return True))))"

definition async_init :: "('s, 'w, 'v, 'st) adapter_impl \<Rightarrow> (('s, 'w) adapter, bool) co" where
  "async_init I =
     co_bind (init_connect I init_retry_attempts no_error) (\<lambda>e.
       if is_error e then co_return False else adapter_configure I)"

definition handle_disconnected :: "('s, 'w, 'v, 'st) adapter_impl \<Rightarrow> (('s, 'w) adapter, bool) co" where
  "handle_disconnected I =
     co_bind (on_entity (im_connect I)) (\<lambda>e. if is_error e then co_return False else adapter_configure I)"

definition handle_reconnected :: "('s, 'w, 'v, 'st) adapter_impl \<Rightarrow> (('s, 'w) adapter, bool) co" where
  "handle_reconnected I = adapter_configure I"

text \<open>Whether an error was recovered from is only logged.\<close>

definition recover :: "('s, 'w, 'v, 'st) adapter_impl \<Rightarrow> error \<Rightarrow> (('s, 'w) adapter, bool) co" where
  "recover I e =
     (if fst e = make_error_code Disconnected then handle_disconnected I
      else if fst e = make_error_code Reconnected then handle_reconnected I
      else co_return False)"

definition handle_error :: "('s, 'w, 'v, 'st) adapter_impl \<Rightarrow> error \<Rightarrow> (('s, 'w) adapter, unit) co" where
  "handle_error I e = co_bind (recover I e) (\<lambda>recovered. co_return ())"

text \<open>One round of \<open>async_run\<close>, and \<open>async_run\<close> for as many rounds as there is fuel.\<close>

definition run_round :: "('s, 'w, 'v, 'st) adapter_impl \<Rightarrow> (('s, 'w) adapter, unit) co" where
  "run_round I =
     co_bind (on_entity (im_receive I)) (\<lambda>v.
       case v of Inl e \<Rightarrow> handle_error I e | Inr x \<Rightarrow> on_world (im_handle I x))"

primrec async_run :: "('s, 'w, 'v, 'st) adapter_impl \<Rightarrow> nat \<Rightarrow> (('s, 'w) adapter, unit) co" where
  "async_run I 0 = (\<lambda>a. None)"
| "async_run I (Suc n) = co_bind (run_round I) (\<lambda>_. async_run I n)"

section \<open>Lemmas\<close>

lemma on_entity_Some:
  "on_entity m a = Some (r, a') \<longleftrightarrow> (\<exists>s. m (adapted_entity a) = Some (r, s) \<and> a' = a\<lparr>adapted_entity := s\<rparr>)"
  by (auto simp: on_entity_def)

lemma on_world_Some:
  "on_world m a = Some (r, a') \<longleftrightarrow> (\<exists>w. m (world a) = Some (r, w) \<and> a' = a\<lparr>world := w\<rparr>)"
  by (auto simp: on_world_def)

text \<open>Rounds of \<open>async_run\<close>, until one throws.\<close>

inductive rounds :: "('s, 'w, 'v, 'st) adapter_impl \<Rightarrow> nat \<Rightarrow> ('s, 'w) adapter \<Rightarrow> ('s, 'w) adapter \<Rightarrow> bool"
  for I where
  rounds_none: "rounds I 0 a a"
| rounds_more: "run_round I a = Some (Inr (), b) \<Longrightarrow> rounds I k b c \<Longrightarrow> rounds I (Suc k) a c"

inductive_cases rounds_SucE: "rounds I (Suc k) a c"

lemma run_leaves_by_exception:
  "async_run I n a = Some (r, b) \<Longrightarrow>
    \<exists>k c x. k < n \<and> rounds I k a c \<and> run_round I c = Some (Inl x, b) \<and> r = Inl x"
proof (induction n arbitrary: a)
  case (Suc n)
  then consider x where "run_round I a = Some (Inl x, b)" "r = Inl x"
    | c where "run_round I a = Some (Inr (), c)" "async_run I n c = Some (r, b)"
    by (auto simp: co_bind_eq_Some)
  then show ?case
  proof cases
    case 1
    then show ?thesis using rounds_none by blast
  next
    case 2
    from Suc.IH [OF 2(2)] obtain k d x where
      "k < n" "rounds I k c d" "run_round I d = Some (Inl x, b)" "r = Inl x" by blast
    with rounds_more [OF 2(1), of k d] show ?thesis by (intro exI [of _ "Suc k"] exI [of _ d]) simp
  qed
qed simp

text \<open>Failed attempts of \<open>async_init\<close>, each followed by its delay.\<close>

inductive failed_attempts ::
    "('s, 'w, 'v, 'st) adapter_impl \<Rightarrow> nat \<Rightarrow> ('s, 'w) adapter \<Rightarrow> ('s, 'w) adapter \<Rightarrow> bool" for I where
  attempts_none: "failed_attempts I 0 a a"
| attempts_more: "im_connect I (adapted_entity a) = Some (Inr e, s) \<Longrightarrow> is_error e \<Longrightarrow>
    im_wait I init_retry_delay (world a) = Some (Inr (), w) \<Longrightarrow>
    failed_attempts I k \<lparr>adapted_entity = s, world = w\<rparr> b \<Longrightarrow> failed_attempts I (Suc k) a b"

inductive_cases attempts_0E: "failed_attempts I 0 a b"
inductive_cases attempts_SucE: "failed_attempts I (Suc k) a b"

lemma attempts_0 [simp]: "failed_attempts I 0 a b \<longleftrightarrow> b = a"
  by (auto elim: attempts_0E intro: attempts_none)

lemma adapter_update [simp]: "a\<lparr>adapted_entity := s, world := w\<rparr> = \<lparr>adapted_entity = s, world = w\<rparr>"
  by (cases a) simp

lemma init_connect_failed:
  "is_error e0 \<Longrightarrow>
    (\<exists>e. init_connect I n e0 a = Some (Inr e, b) \<and> is_error e) \<longleftrightarrow> failed_attempts I n a b"
proof (induction n arbitrary: a e0)
  case (Suc n)
  show ?case
  proof
    assume "\<exists>e. init_connect I (Suc n) e0 a = Some (Inr e, b) \<and> is_error e"
    then obtain e e1 s w where "init_connect I n e1 \<lparr>adapted_entity = s, world = w\<rparr> = Some (Inr e, b)"
      "is_error e" "is_error e1" "im_connect I (adapted_entity a) = Some (Inr e1, s)"
      "im_wait I init_retry_delay (world a) = Some (Inr (), w)"
      by (auto simp: co_bind_eq_Some on_entity_Some on_world_Some co_return_def split: if_splits)
    with Suc.IH [of e1 "\<lparr>adapted_entity = s, world = w\<rparr>"] show "failed_attempts I (Suc n) a b"
      by (blast intro: attempts_more)
  next
    assume "failed_attempts I (Suc n) a b"
    then obtain e1 s w where step: "im_connect I (adapted_entity a) = Some (Inr e1, s)" "is_error e1"
      "im_wait I init_retry_delay (world a) = Some (Inr (), w)"
      and "failed_attempts I n \<lparr>adapted_entity = s, world = w\<rparr> b"
      by (auto elim: attempts_SucE)
    with Suc.IH obtain e where
      "init_connect I n e1 \<lparr>adapted_entity = s, world = w\<rparr> = Some (Inr e, b)" "is_error e" by blast
    with step show "\<exists>e. init_connect I (Suc n) e0 a = Some (Inr e, b) \<and> is_error e"
      by (intro exI [of _ e]) (simp add: co_bind_def on_entity_def on_world_def)
  qed
qed (auto simp: co_return_def)

lemma init_connect_done:
  "is_error e0 \<Longrightarrow>
    (init_connect I n e0 a = Some (Inr e, b) \<and> \<not> is_error e) \<longleftrightarrow>
    (\<exists>k<n. \<exists>c s. failed_attempts I k a c \<and> im_connect I (adapted_entity c) = Some (Inr e, s) \<and> \<not> is_error e
      \<and> b = c\<lparr>adapted_entity := s\<rparr>)"
proof (induction n arbitrary: a e0)
  case (Suc n)
  show ?case
  proof
    assume "init_connect I (Suc n) e0 a = Some (Inr e, b) \<and> \<not> is_error e"
    then consider s where "im_connect I (adapted_entity a) = Some (Inr e, s)" "\<not> is_error e"
        "b = a\<lparr>adapted_entity := s\<rparr>"
      | e1 s w where "init_connect I n e1 \<lparr>adapted_entity = s, world = w\<rparr> = Some (Inr e, b) \<and> \<not> is_error e"
        "is_error e1" "im_connect I (adapted_entity a) = Some (Inr e1, s)"
        "im_wait I init_retry_delay (world a) = Some (Inr (), w)"
      by (auto simp: co_bind_eq_Some on_entity_Some on_world_Some co_return_def split: if_splits)
    then show "\<exists>k<Suc n. \<exists>c s. failed_attempts I k a c \<and> im_connect I (adapted_entity c) = Some (Inr e, s)
        \<and> \<not> is_error e \<and> b = c\<lparr>adapted_entity := s\<rparr>"
    proof cases
      case 1
      then show ?thesis by (intro exI [of _ 0]) simp
    next
      case 2
      from Suc.IH [OF 2(2)] 2(1) obtain k c s' where
        "k < n" "failed_attempts I k \<lparr>adapted_entity = s, world = w\<rparr> c"
        "im_connect I (adapted_entity c) = Some (Inr e, s')" "\<not> is_error e" "b = c\<lparr>adapted_entity := s'\<rparr>"
        by blast
      with attempts_more [OF 2(3,2,4)] show ?thesis by (intro exI [of _ "Suc k"]) auto
    qed
  next
    assume "\<exists>k<Suc n. \<exists>c s. failed_attempts I k a c \<and> im_connect I (adapted_entity c) = Some (Inr e, s)
        \<and> \<not> is_error e \<and> b = c\<lparr>adapted_entity := s\<rparr>"
    then obtain k c s where k: "k < Suc n" "failed_attempts I k a c"
      "im_connect I (adapted_entity c) = Some (Inr e, s)" "\<not> is_error e" "b = c\<lparr>adapted_entity := s\<rparr>" by blast
    show "init_connect I (Suc n) e0 a = Some (Inr e, b) \<and> \<not> is_error e"
    proof (cases k)
      case 0
      with k show ?thesis by (simp add: co_bind_def on_entity_def co_return_def)
    next
      case (Suc j)
      with k(2) obtain e1 s1 w where step: "im_connect I (adapted_entity a) = Some (Inr e1, s1)" "is_error e1"
        "im_wait I init_retry_delay (world a) = Some (Inr (), w)"
        "failed_attempts I j \<lparr>adapted_entity = s1, world = w\<rparr> c"
        by (auto elim: attempts_SucE)
      with Suc.IH [OF step(2), of "\<lparr>adapted_entity = s1, world = w\<rparr>"] k Suc have
        "init_connect I n e1 \<lparr>adapted_entity = s1, world = w\<rparr> = Some (Inr e, b)" by auto
      with step k(4) show ?thesis by (simp add: co_bind_def on_entity_def on_world_def)
    qed
  qed
qed (auto simp: co_return_def)

lemma init_connect_any: "0 < n \<Longrightarrow> init_connect I n e0 = init_connect I n e1"
  by (cases n) simp_all

lemma async_init_iff:
  "async_init I a = Some (Inr ok, b) \<longleftrightarrow>
    (\<exists>k<init_retry_attempts. \<exists>c e s. failed_attempts I k a c \<and> im_connect I (adapted_entity c) = Some (Inr e, s)
      \<and> \<not> is_error e \<and> adapter_configure I (c\<lparr>adapted_entity := s\<rparr>) = Some (Inr ok, b))
    \<or> ok = False \<and> failed_attempts I init_retry_attempts a b"
proof -
  define e0 :: error where "e0 = (App Disconnected, '''')"
  have e0: "is_error e0" by (simp add: e0_def)
  have any: "init_connect I init_retry_attempts no_error = init_connect I init_retry_attempts e0"
    by (rule init_connect_any) (simp add: init_retry_attempts_def)
  have "async_init I a = Some (Inr ok, b) \<longleftrightarrow>
      (\<exists>e c. (init_connect I init_retry_attempts e0 a = Some (Inr e, c) \<and> \<not> is_error e)
        \<and> adapter_configure I c = Some (Inr ok, b))
      \<or> ok = False \<and> (\<exists>e. init_connect I init_retry_attempts e0 a = Some (Inr e, b) \<and> is_error e)"
    unfolding async_init_def any co_bind_eq_Some by (auto simp: co_return_def split: if_splits)
  also have "\<dots> \<longleftrightarrow> (\<exists>e c. (\<exists>k<init_retry_attempts. \<exists>d s. failed_attempts I k a d
        \<and> im_connect I (adapted_entity d) = Some (Inr e, s) \<and> \<not> is_error e \<and> c = d\<lparr>adapted_entity := s\<rparr>)
        \<and> adapter_configure I c = Some (Inr ok, b))
      \<or> ok = False \<and> failed_attempts I init_retry_attempts a b"
    unfolding init_connect_done [OF e0] init_connect_failed [OF e0] by (rule refl)
  finally show ?thesis by blast
qed

lemma adapter_configure_iff:
  "adapter_configure I a = Some (Inr ok, b) \<longleftrightarrow>
    (\<exists>e s. im_configure I (im_config I) adapter_pubopts (adapted_entity a) = Some (Inr e, s)
      \<and> (if is_error e then ok = False \<and> b = a\<lparr>adapted_entity := s\<rparr>
         else ok = True \<and> (\<exists>w e' s'. im_wait I 1 (world a) = Some (Inr (), w)
           \<and> im_availability I Online adapter_pubopts s = Some (Inr e', s')
           \<and> sync_state I \<lparr>adapted_entity = s', world = w\<rparr> = Some (Inr (), b))))"
proof (cases "im_configure I (im_config I) adapter_pubopts (adapted_entity a)")
  case None
  then show ?thesis by (simp add: adapter_configure_def co_bind_def on_entity_def)
next
  case (Some p)
  obtain r s where p: "p = (r, s)" by (metis prod.exhaust)
  have run: "on_entity (im_configure I (im_config I) adapter_pubopts) a = Some (r, a\<lparr>adapted_entity := s\<rparr>)"
    using Some p by (simp add: on_entity_def)
  show ?thesis
  proof (cases r)
    case (Inl x)
    with run Some p show ?thesis by (simp add: adapter_configure_def co_bind_Inl)
  next
    case (Inr e)
    with run have eq: "adapter_configure I a = (if is_error e then co_return False
       else co_bind (on_world (im_wait I 1)) (\<lambda>_.
         co_bind (on_entity (im_availability I Online adapter_pubopts)) (\<lambda>e'.
           co_bind (sync_state I) (\<lambda>_. co_return True)))) (a\<lparr>adapted_entity := s\<rparr>)"
      by (simp add: adapter_configure_def co_bind_Inr)
    show ?thesis
    proof (cases "is_error e")
      case True
      with Inr Some p show ?thesis unfolding eq by (auto simp: co_return_def)
    next
      case False
      with Inr Some p show ?thesis
        unfolding eq by (auto simp: co_bind_eq_Some on_entity_Some on_world_Some co_return_def)
    qed
  qed
qed

lemma sync_state_iff:
  "sync_state I a = Some (Inr (), b) \<longleftrightarrow>
    (case im_state I of
       None \<Rightarrow> b = a
     | Some st \<Rightarrow> \<exists>v w e s. st (world a) = Some (Inr v, w)
         \<and> im_set_state I v adapter_pubopts (adapted_entity a) = Some (Inr e, s)
         \<and> b = \<lparr>adapted_entity = s, world = w\<rparr>)"
proof -
  have up: "a\<lparr>world := w, adapted_entity := s\<rparr> = \<lparr>adapted_entity = s, world = w\<rparr>" for s w
    by (cases a) simp
  show ?thesis
    by (auto simp: sync_state_def co_bind_eq_Some on_entity_Some on_world_Some co_return_def up split: option.split)
qed

section \<open>The contract of an entity\<close>

text \<open>
  What the adapter relies on: no operation of an entity changes its availability topic or the will
  its client has been given.
\<close>

locale entity_contract =
  fixes I :: "('s, 'w, 'v, 'st) adapter_impl" and will_of :: "'s \<Rightarrow> will_config option"
  assumes set_will: "will_of (im_will I c s) = Some c"
    and set_will_topic: "im_availability_topic I (im_will I c s) = im_availability_topic I s"
    and keeps_connect: "co_keeps (\<lambda>s. will_of s = w \<and> im_availability_topic I s = t) (im_connect I)"
    and keeps_configure: "co_keeps (\<lambda>s. will_of s = w \<and> im_availability_topic I s = t) (im_configure I cfg opts)"
    and keeps_availability: "co_keeps (\<lambda>s. will_of s = w \<and> im_availability_topic I s = t) (im_availability I av opts)"
    and keeps_set_state: "co_keeps (\<lambda>s. will_of s = w \<and> im_availability_topic I s = t) (im_set_state I st opts)"
    and keeps_receive: "co_keeps (\<lambda>s. will_of s = w \<and> im_availability_topic I s = t) (im_receive I)"
begin

definition announced :: "will_config option \<Rightarrow> string \<Rightarrow> ('s, 'w) adapter \<Rightarrow> bool" where
  "announced w t a \<longleftrightarrow> will_of (adapted_entity a) = w \<and> im_availability_topic I (adapted_entity a) = t"

lemma on_entity_keeps:
  "co_keeps (\<lambda>s. will_of s = w \<and> im_availability_topic I s = t) m \<Longrightarrow> co_keeps (announced w t) (on_entity m)"
  by (rule co_keepsI) (auto simp: announced_def on_entity_Some dest: co_keepsD)

lemma on_world_keeps: "co_keeps (announced w t) (on_world m)"
  by (rule co_keepsI) (auto simp: announced_def on_world_Some)

lemmas keeps = co_keeps_intros on_world_keeps on_entity_keeps keeps_connect keeps_configure
  keeps_availability keeps_set_state keeps_receive

lemma sync_keeps: "co_keeps (announced w t) (sync_state I)"
  unfolding sync_state_def by (auto split: option.split intro!: keeps)

lemma configure_keeps: "co_keeps (announced w t) (adapter_configure I)"
  unfolding adapter_configure_def by (auto intro!: keeps sync_keeps)

lemma recover_keeps: "co_keeps (announced w t) (recover I e)"
  unfolding recover_def handle_disconnected_def handle_reconnected_def
  by (auto intro!: keeps configure_keeps)

lemma round_keeps: "co_keeps (announced w t) (run_round I)"
  unfolding run_round_def handle_error_def by (auto intro!: keeps recover_keeps split: sum.split)

lemma init_connect_keeps: "co_keeps (announced w t) (init_connect I n e)"
  by (induction n arbitrary: e) (auto intro!: keeps)

lemma init_keeps: "co_keeps (announced w t) (async_init I)"
  unfolding async_init_def by (auto intro!: keeps init_connect_keeps configure_keeps)

lemma rounds_keep: "rounds I k a b \<Longrightarrow> announced w t a \<Longrightarrow> announced w t b"
  by (induction rule: rounds.induct) (blast dest: co_keepsD [OF round_keeps])+

text \<open>From its construction on, whatever happens, the entity has its offline will on the topic of its
  availability.\<close>

lemma will_is_kept:
  assumes "new_adapter I s = Inr s0" and "async_init I \<lparr>adapted_entity = s0, world = w\<rparr> = Some (r, a)"
    and "rounds I k a b"
  shows "im_availability_topic I (adapted_entity b) = im_availability_topic I s
    \<and> will_of (adapted_entity b) = Some \<lparr>will_topic = im_availability_topic I s, will_message = ''offline'',
        will_pubopts = \<lparr>qos_of = At_most_once, retain = True\<rparr>\<rparr>"
proof -
  let ?w = "\<lparr>will_topic = im_availability_topic I s, will_message = ''offline'',
        will_pubopts = \<lparr>qos_of = At_most_once, retain = True\<rparr>\<rparr>"
  have "s0 = im_will I ?w s"
    using assms(1) by (simp add: new_adapter_def offline_will_def availability_payload)
  then have "announced (Some ?w) (im_availability_topic I s) \<lparr>adapted_entity = s0, world = w\<rparr>"
    by (simp add: announced_def set_will set_will_topic)
  from rounds_keep [OF assms(3) co_keepsD [OF init_keeps this assms(2)]] show ?thesis
    by (simp add: announced_def)
qed

end

section \<open>Properties\<close>

text \<open>C26: An adapter comes up exactly when one of its ten attempts to connect succeeds, each failed one
  followed by a minute of waiting, and its document is then accepted; after one more second it
  says it is online and publishes its state, and what becomes of these two publications is not
  looked at. It gives up after ten failed attempts or when the document is refused.\<close>

theorem init_outcome:
  "async_init I a = Some (Inr ok, b) \<longleftrightarrow>
    (if ok then \<exists>k<10. \<exists>c e s e1 s1 w e2 s2. failed_attempts I k a c
        \<and> im_connect I (adapted_entity c) = Some (Inr e, s) \<and> \<not> is_error e
        \<and> im_configure I (im_config I) adapter_pubopts s = Some (Inr e1, s1) \<and> \<not> is_error e1
        \<and> im_wait I 1 (world c) = Some (Inr (), w)
        \<and> im_availability I Online adapter_pubopts s1 = Some (Inr e2, s2)
        \<and> sync_state I \<lparr>adapted_entity = s2, world = w\<rparr> = Some (Inr (), b)
     else failed_attempts I 10 a b
        \<or> (\<exists>k<10. \<exists>c e s e1 s1. failed_attempts I k a c
            \<and> im_connect I (adapted_entity c) = Some (Inr e, s) \<and> \<not> is_error e
            \<and> im_configure I (im_config I) adapter_pubopts s = Some (Inr e1, s1) \<and> is_error e1
            \<and> b = \<lparr>adapted_entity = s1, world = world c\<rparr>))"
proof -
  have upd: "c\<lparr>adapted_entity := s\<rparr> = \<lparr>adapted_entity = s, world = world c\<rparr>" for c :: "('a, 'b) adapter" and s
    by (cases c) simp
  have n: "init_retry_attempts = 10" by (simp add: init_retry_attempts_def)
  show ?thesis
    unfolding async_init_iff adapter_configure_iff n upd
    by (cases ok) (simp_all, (meson | blast)+)
qed

text \<open>C27: Listening never ends by itself: it is left only by an exception, of receiving, of the device
  handling a command, or of recovering from a connection that was lost or re-established; every
  other error is logged and the next round begins.\<close>

theorem run_outcome:
  assumes "async_run I n a = Some (r, b)"
  shows "\<exists>k c x. k < n \<and> rounds I k a c \<and> r = Inl x
    \<and> (im_receive I (adapted_entity c) = Some (Inl x, adapted_entity b) \<and> world b = world c
      \<or> (\<exists>v s. im_receive I (adapted_entity c) = Some (Inr (Inr v), s)
          \<and> im_handle I v (world c) = Some (Inl x, world b) \<and> adapted_entity b = s)
      \<or> (\<exists>e s. im_receive I (adapted_entity c) = Some (Inr (Inl e), s)
          \<and> fst e \<in> {App Disconnected, App Reconnected}
          \<and> recover I e (c\<lparr>adapted_entity := s\<rparr>) = Some (Inl x, b)))"
proof -
  from run_leaves_by_exception [OF assms] obtain k c x where
    k: "k < n" "rounds I k a c" "run_round I c = Some (Inl x, b)" "r = Inl x" by blast
  from k(3) consider s where "im_receive I (adapted_entity c) = Some (Inl x, s)" "b = c\<lparr>adapted_entity := s\<rparr>"
    | v s where "im_receive I (adapted_entity c) = Some (Inr v, s)"
      "(case v of Inl e \<Rightarrow> handle_error I e | Inr y \<Rightarrow> on_world (im_handle I y)) (c\<lparr>adapted_entity := s\<rparr>) = Some (Inl x, b)"
    by (auto simp: run_round_def co_bind_eq_Some on_entity_Some)
  then show ?thesis
  proof cases
    case 1
    with k show ?thesis by (intro exI [of _ k] exI [of _ c] exI [of _ x]) simp
  next
    case 2
    show ?thesis
    proof (cases v)
      case (Inl e)
      with 2(2) have "recover I e (c\<lparr>adapted_entity := s\<rparr>) = Some (Inl x, b)"
        by (simp add: handle_error_def co_bind_eq_Some co_return_def)
      moreover from this have "fst e \<in> {App Disconnected, App Reconnected}"
        by (auto simp: recover_def make_error_code_def co_return_def split: if_splits)
      ultimately show ?thesis using k 2(1) Inl by blast
    next
      case (Inr y)
      with 2(2) have "im_handle I y (world c) = Some (Inl x, world b)" "adapted_entity b = s"
        by (auto simp: on_world_Some)
      with k 2(1) Inr show ?thesis by blast
    qed
  qed
qed

text \<open>A device of the examples: its broker is up at the third attempt, the second command breaks it.\<close>

definition flaky :: "(nat, int, unit, unit) adapter_impl" where
  "flaky = \<lparr>im_connect = (\<lambda>s. Some (Inr (if s < 2 then (App Disconnected, '''') else no_error), s + 1)),
     im_will = (\<lambda>w s. s), im_availability_topic = (\<lambda>s. ''t''),
     im_configure = (\<lambda>cfg opts s. Some (Inr no_error, s)), im_availability = (\<lambda>a opts s. Some (Inr no_error, s)),
     im_set_state = (\<lambda>st opts s. Some (Inr no_error, s)), im_receive = (\<lambda>s. Some (Inr (Inr ()), s + 1)),
     im_config = empty_config, im_state = None,
     im_handle = (\<lambda>v w. Some (if w < 1 then Inr () else Inl (System_error 5), w + 1)),
     im_wait = (\<lambda>d w. Some (Inr (), w + d))\<rparr>"

theorem run_outcome_witness:
  "\<exists>k c x. k < (5::nat) \<and> rounds flaky k \<lparr>adapted_entity = 0, world = 0\<rparr> c \<and> x = System_error 5
    \<and> im_handle flaky () (world c) = Some (Inl x, 2)"
proof -
  have "async_run flaky 5 \<lparr>adapted_entity = 0, world = 0\<rparr> = Some (Inl (System_error 5), \<lparr>adapted_entity = 2, world = 2\<rparr>)"
    by (simp add: eval_nat_numeral flaky_def run_round_def co_bind_def on_entity_def on_world_def)
  from run_outcome [OF this] obtain k c x where "k < 5" "rounds flaky k \<lparr>adapted_entity = 0, world = 0\<rparr> c"
    "x = System_error 5" "im_handle flaky () (world c) = Some (Inl x, 2)"
    by (auto simp: flaky_def)
  then show ?thesis by blast
qed

end
