(* ===== verification/Sysfs.thy ===== *)
theory Sysfs
  imports Prelude
begin

text \<open>
  Attribute files (\<^verbatim>\<open>utils/sysfs.hpp\<close>). The file system is a state; what a write leaves behind in a
  file is a function of the file, since an attribute of the kernel answers with what its driver
  says and a regular file with what was written. A file whose reads fail with an error sets
  \<open>badbit\<close> on the stream, one that is read to its end sets \<open>eofbit\<close>.
\<close>

section \<open>The file system\<close>

record fs_file =
  content :: string
  opens_for_reading :: bool
  opens_for_writing :: bool
  reads_fail :: bool
  store :: "string \<Rightarrow> string \<Rightarrow> string"

record fs =
  files :: "string \<Rightarrow> fs_file option"
  directories :: "string set"
  may_create :: "string \<Rightarrow> bool"

definition regular_file :: "string \<Rightarrow> fs_file" where
  "regular_file s = \<lparr>content = s, opens_for_reading = True, opens_for_writing = True,
     reads_fail = False, store = (\<lambda>old new. new)\<rparr>"

definition fs_exists :: "fs \<Rightarrow> string \<Rightarrow> bool" where
  "fs_exists w p \<longleftrightarrow> files w p \<noteq> None \<or> p \<in> directories w"

text \<open>\<open>operator/\<close> of \<open>std::filesystem::path\<close> on POSIX.\<close>

definition path_join :: "string \<Rightarrow> string \<Rightarrow> string" where
  "path_join a b =
     (if b \<noteq> [] \<and> hd b = CHR ''/'' then b
      else if a = [] \<or> last a = CHR ''/'' then a @ b
      else a @ ''/'' @ b)"

section \<open>Operations\<close>

definition get_path :: "string \<Rightarrow> (fs, string) eff" where
  "get_path p = (\<lambda>w.
     if \<not> fs_exists w p
     then (Inl (Runtime_error (''Sysfs directory: '' @ p @ '' does not exist'')), w)
     else (Inr p, w))"

text \<open>An input stream: the characters not read yet and the state bits.\<close>

record ifstream =
  rest :: string
  broken :: bool
  eofbit :: bool
  failbit :: bool
  badbit :: bool

definition open_in :: "string \<Rightarrow> fs \<Rightarrow> ifstream option" where
  "open_in p w =
     (case files w p of
        None \<Rightarrow> None
      | Some f \<Rightarrow>
          if opens_for_reading f
          then Some \<lparr>rest = content f, broken = reads_fail f, eofbit = False, failbit = False, badbit = False\<rparr>
          else None)"

definition stream_good :: "ifstream \<Rightarrow> bool" where
  "stream_good st \<longleftrightarrow> \<not> eofbit st \<and> \<not> failbit st \<and> \<not> badbit st"

definition input_ends :: "ifstream \<Rightarrow> ifstream" where
  "input_ends st = (if broken st then st\<lparr>rest := [], badbit := True\<rparr> else st\<lparr>rest := [], eofbit := True\<rparr>)"

text \<open>\<open>fstream >> ret\<close> leaves \<open>ret\<close> alone when there is no word to extract.\<close>

definition extract_word :: "ifstream \<Rightarrow> string \<Rightarrow> ifstream \<times> string" where
  "extract_word st ret =
     (if \<not> stream_good st then (st\<lparr>failbit := True\<rparr>, ret)
      else let t = dropWhile is_space (rest st) in
        if t = [] then ((input_ends st)\<lparr>failbit := True\<rparr>, ret)
        else let w = takeWhile (\<lambda>c. \<not> is_space c) t; t' = dropWhile (\<lambda>c. \<not> is_space c) t in
          (if t' = [] then input_ends st else st\<lparr>rest := t'\<rparr>, w))"

text \<open>\<open>while (!fstream.eof()) fstream >> ret;\<close>, which need not end.\<close>

partial_function (option) read_loop :: "ifstream \<Rightarrow> string \<Rightarrow> string option" where
  "read_loop st ret =
     (if eofbit st then Some ret
      else case extract_word st ret of (st', ret') \<Rightarrow> read_loop st' ret')"

declare read_loop.simps [code]

definition attribute_missing :: "string \<Rightarrow> exn" where
  "attribute_missing p = Runtime_error (''Attribute does not exist. Path: '' @ p)"

definition read_attr :: "string \<Rightarrow> (fs, string) co" where
  "read_attr p = (\<lambda>w.
     case open_in p w of
       None \<Rightarrow> Some (Inl (attribute_missing p), w)
     | Some st \<Rightarrow> (case read_loop st [] of None \<Rightarrow> None | Some s \<Rightarrow> Some (Inr s, w)))"

text \<open>
  \<open>std::ios::out\<close> truncates or creates the file; an error of the write itself is left in the
  stream and not looked at.
\<close>

definition write_attr :: "string \<Rightarrow> string \<Rightarrow> (fs, unit) eff" where
  "write_attr p v = (\<lambda>w.
     case files w p of
       None \<Rightarrow>
         if may_create w p
         then (Inr (), w\<lparr>files := (files w)(p \<mapsto> regular_file v)\<rparr>)
         else (Inl (attribute_missing p), w)
     | Some f \<Rightarrow>
         if opens_for_writing f
         then (Inr (), w\<lparr>files := (files w)(p \<mapsto> f\<lparr>content := store f (content f) v\<rparr>)\<rparr>)
         else (Inl (attribute_missing p), w))"

section \<open>Lemmas\<close>

text \<open>The words of a text, and the last one of them.\<close>

function split_words :: "string \<Rightarrow> string list" where
  "split_words s =
     (let t = dropWhile is_space s in
      if t = [] then []
      else takeWhile (\<lambda>c. \<not> is_space c) t # split_words (dropWhile (\<lambda>c. \<not> is_space c) t))"
  by pat_completeness auto
termination
proof (relation "measure length")
  fix s t :: string
  assume t: "t = dropWhile is_space s" and ne: "t \<noteq> []"
  then have "\<not> is_space (hd t)" using hd_dropWhile [of is_space s] by simp
  with ne obtain c t' where c: "t = c # t'" "\<not> is_space c" by (cases t) auto
  have "length t \<le> length s" unfolding t by (rule length_dropWhile_le)
  moreover have "length (dropWhile (\<lambda>c. \<not> is_space c) t) < length t"
    using c length_dropWhile_le [of "\<lambda>c. \<not> is_space c" t'] by simp
  ultimately show "(dropWhile (\<lambda>c. \<not> is_space c) t, s) \<in> measure length" by simp
qed simp

declare split_words.simps [simp del]

definition last_word :: "string \<Rightarrow> string" where
  "last_word s = last ([] # split_words s)"

lemma read_loop_eof: "eofbit st \<Longrightarrow> read_loop st ret = Some ret"
  by (subst read_loop.simps) simp

lemma read_loop_step:
  "\<not> eofbit st \<Longrightarrow> extract_word st ret = (st', ret') \<Longrightarrow> read_loop st ret = read_loop st' ret'"
  by (subst read_loop.simps) simp

lemma split_words_nil: "dropWhile is_space s = [] \<Longrightarrow> split_words s = []"
  by (subst split_words.simps) simp

lemma split_words_cons:
  "dropWhile is_space s = t \<Longrightarrow> t \<noteq> [] \<Longrightarrow>
    split_words s = takeWhile (\<lambda>c. \<not> is_space c) t # split_words (dropWhile (\<lambda>c. \<not> is_space c) t)"
  by (subst split_words.simps) (simp add: Let_def)

text \<open>Reading a healthy stream returns, with the last word of what was left.\<close>

lemma read_loop_words:
  "\<not> broken st \<Longrightarrow> stream_good st \<Longrightarrow> read_loop st ret = Some (last (ret # split_words (rest st)))"
proof (induction "rest st" arbitrary: st ret rule: split_words.induct)
  case 1
  let ?t = "dropWhile is_space (rest st)"
  let ?t' = "dropWhile (\<lambda>c. \<not> is_space c) ?t" and ?w = "takeWhile (\<lambda>c. \<not> is_space c) ?t"
  have eof: "\<not> eofbit st" using 1(3) by (simp add: stream_good_def)
  consider "?t = []" | "?t \<noteq> []" "?t' = []" | "?t \<noteq> []" "?t' \<noteq> []" by blast
  then show ?case
  proof cases
    case 1
    let ?st = "st\<lparr>rest := [], eofbit := True, failbit := True\<rparr>"
    have "extract_word st ret = (?st, ret)"
      using 1 \<open>\<not> broken st\<close> \<open>stream_good st\<close> by (simp add: extract_word_def input_ends_def)
    then have "read_loop st ret = Some ret" by (simp add: read_loop_step [OF eof] read_loop_eof)
    then show ?thesis by (simp add: split_words_nil [OF 1])
  next
    case 2
    have "extract_word st ret = (st\<lparr>rest := [], eofbit := True\<rparr>, ?w)"
      using 2 \<open>\<not> broken st\<close> \<open>stream_good st\<close> by (simp add: extract_word_def input_ends_def Let_def del: dropWhile_eq_Nil_conv)
    then have "read_loop st ret = Some ?w" by (simp add: read_loop_step [OF eof] read_loop_eof)
    then show ?thesis by (simp add: split_words_cons [OF refl 2(1)] 2(2) split_words_nil)
  next
    case 3
    have "extract_word st ret = (st\<lparr>rest := ?t'\<rparr>, ?w)"
      using 3 \<open>stream_good st\<close>
      by (simp add: extract_word_def Let_def del: dropWhile_eq_Nil_conv)
    then have "read_loop st ret = read_loop (st\<lparr>rest := ?t'\<rparr>) ?w" by (rule read_loop_step [OF eof])
    also have "\<dots> = Some (last (?w # split_words ?t'))"
      using 1(1) [of ?t "st\<lparr>rest := ?t'\<rparr>" ?w] 3 1(2,3) by (simp add: stream_good_def)
    also have "?w # split_words ?t' = split_words (rest st)"
      by (rule split_words_cons [OF refl 3(1), symmetric])
    finally show ?thesis by (simp add: split_words_cons [OF refl 3(1)])
  qed
qed

text \<open>On a broken stream the end is never seen.\<close>

lemma extract_word_broken:
  "broken st \<Longrightarrow> \<not> eofbit st \<Longrightarrow>
    broken (fst (extract_word st ret)) \<and> \<not> eofbit (fst (extract_word st ret))"
  by (simp add: extract_word_def input_ends_def Let_def)

lemma read_loop_broken:
  assumes "broken st" and "\<not> eofbit st"
  shows "read_loop st ret = None"
proof -
  have "broken st \<longrightarrow> eofbit st" if "read_loop st ret = Some y" for y
  proof (rule read_loop.raw_induct [of "\<lambda>st ret y. broken st \<longrightarrow> eofbit st", OF _ that])
    fix loop st ret y
    assume IH: "\<And>st ret y. loop st ret = Some y \<Longrightarrow> broken st \<longrightarrow> eofbit st"
      and run: "(if eofbit st then Some ret
        else case extract_word st ret of (st', ret') \<Rightarrow> loop st' ret') = Some y"
    show "broken st \<longrightarrow> eofbit st"
      using extract_word_broken [of st ret] IH run by (auto split: if_splits prod.splits)
  qed
  with assms show ?thesis by (cases "read_loop st ret") auto
qed

lemma read_attr_open:
  assumes "files w p = Some f" and "opens_for_reading f" and "\<not> reads_fail f"
  shows "read_attr p w = Some (Inr (last_word (content f)), w)"
proof -
  let ?st = "\<lparr>rest = content f, broken = False, eofbit = False, failbit = False, badbit = False\<rparr>"
  have "read_loop ?st [] = Some (last_word (content f))"
    using read_loop_words [of ?st "[]"] by (simp add: stream_good_def last_word_def)
  with assms show ?thesis by (simp add: read_attr_def open_in_def)
qed

lemma read_attr_unopened:
  "files w p = None \<or> (\<exists>f. files w p = Some f \<and> \<not> opens_for_reading f) \<Longrightarrow>
    read_attr p w = Some (Inl (attribute_missing p), w)"
  by (auto simp: read_attr_def open_in_def)

lemma read_attr_broken:
  assumes "files w p = Some f" and "opens_for_reading f" and "reads_fail f"
  shows "read_attr p w = None"
  using assms by (simp add: read_attr_def open_in_def read_loop_broken)

text \<open>\<open>read_attr\<close> never changes the file system.\<close>

lemma read_attr_state: "read_attr p w = Some (r, w') \<Longrightarrow> w' = w"
  by (auto simp: read_attr_def split: option.splits)

lemma split_words_single:
  assumes "list_all (\<lambda>c. \<not> is_space c) s" and "s \<noteq> []"
  shows "split_words s = [s]"
proof -
  have d: "dropWhile is_space s = s" by (rule dropWhile_space_id [OF assms(1)])
  have "takeWhile (\<lambda>c. \<not> is_space c) s = s" "dropWhile (\<lambda>c. \<not> is_space c) s = []"
    using assms(1) by (auto simp: takeWhile_eq_all_conv list_all_iff)
  then show ?thesis by (simp only: split_words_cons [OF d assms(2)]) (simp add: split_words_nil)
qed

lemma last_word_single: "list_all (\<lambda>c. \<not> is_space c) s \<Longrightarrow> last_word s = s"
  by (cases "s = []") (simp_all add: last_word_def split_words_single split_words_nil)

text \<open>An attribute that keeps what it is told.\<close>

definition keeps_writes :: "fs \<Rightarrow> string \<Rightarrow> bool" where
  "keeps_writes w p \<longleftrightarrow>
     (case files w p of
        None \<Rightarrow> may_create w p
      | Some f \<Rightarrow> opens_for_writing f \<and> opens_for_reading f \<and> \<not> reads_fail f
          \<and> store f = (\<lambda>old new. new))"

lemma write_attr_read:
  assumes "keeps_writes w p"
  shows "\<exists>w'. write_attr p v w = (Inr (), w')
    \<and> read_attr p w' = Some (Inr (last_word v), w')
    \<and> keeps_writes w' p \<and> (\<forall>q. q \<noteq> p \<longrightarrow> files w' q = files w q)
    \<and> directories w' = directories w \<and> may_create w' = may_create w"
proof (cases "files w p")
  case None
  let ?w = "w\<lparr>files := (files w)(p \<mapsto> regular_file v)\<rparr>"
  from None assms have "write_attr p v w = (Inr (), ?w)"
    by (simp add: write_attr_def keeps_writes_def)
  moreover have "read_attr p ?w = Some (Inr (last_word v), ?w)"
    using read_attr_open [of ?w p "regular_file v"] by (simp add: regular_file_def)
  ultimately show ?thesis by (simp add: keeps_writes_def regular_file_def)
next
  case (Some f)
  let ?f = "f\<lparr>content := v\<rparr>"
  let ?w = "w\<lparr>files := (files w)(p \<mapsto> ?f)\<rparr>"
  from Some assms have f: "opens_for_writing f" "opens_for_reading f" "\<not> reads_fail f"
    "store f = (\<lambda>old new. new)"
    by (simp_all add: keeps_writes_def)
  with Some have "write_attr p v w = (Inr (), ?w)" by (simp add: write_attr_def)
  moreover have "read_attr p ?w = Some (Inr (last_word v), ?w)"
    using read_attr_open [of ?w p ?f] f by simp
  ultimately show ?thesis using f by (simp add: keeps_writes_def)
qed

text \<open>Writing never removes a file and leaves every other file alone.\<close>

lemma write_attr_other:
  "write_attr p v w = (r, w') \<Longrightarrow> q \<noteq> p \<Longrightarrow> files w' q = files w q"
  by (auto simp: write_attr_def split: option.splits if_splits)

lemma write_attr_frame:
  "write_attr p v w = (r, w') \<Longrightarrow> directories w' = directories w \<and> may_create w' = may_create w"
  by (auto simp: write_attr_def split: option.splits if_splits)

section \<open>Properties\<close>

text \<open>Reading an attribute is settled in every case: without a file that opens it throws, on a
  healthy file it returns the last word of the content (the empty string when there is none), and on
  a file whose reads fail it never returns; the file system is left as it was.\<close>

theorem read_attr_outcome:
  "read_attr p w =
    (case files w p of
       None \<Rightarrow> Some (Inl (attribute_missing p), w)
     | Some f \<Rightarrow>
         if \<not> opens_for_reading f then Some (Inl (attribute_missing p), w)
         else if reads_fail f then None
         else Some (Inr (last_word (content f)), w))"
  using read_attr_open [of w p] read_attr_unopened [of w p] read_attr_broken [of w p]
  by (cases "files w p") auto

text \<open>A number written to an attribute that keeps what it is told is read back and parses to
  the same number; no other file changes.\<close>

theorem attribute_round_trip:
  assumes "keeps_writes w p" and "- (2 ^ 31) \<le> i" and "i < 2 ^ 31"
  shows "\<exists>w' s. write_attr p (int_to_string i) w = (Inr (), w')
    \<and> read_attr p w' = Some (Inr s, w') \<and> stoi s = Inr i
    \<and> files w' = (files w)(p := files w' p)"
proof -
  from write_attr_read [OF assms(1), of "int_to_string i"] obtain w' where
    w': "write_attr p (int_to_string i) w = (Inr (), w')"
      "read_attr p w' = Some (Inr (last_word (int_to_string i)), w')"
      "\<forall>q. q \<noteq> p \<longrightarrow> files w' q = files w q"
    by blast
  from w'(3) have "files w' = (files w)(p := files w' p)" by (auto simp: fun_eq_iff)
  moreover have "last_word (int_to_string i) = int_to_string i"
    by (rule last_word_single [OF int_to_string_no_space])
  ultimately show ?thesis using w'(1,2) stoi_int_to_string [OF assms(2,3)] by metis
qed

theorem attribute_round_trip_witness:
  "\<exists>w' s. write_attr ''led/brightness'' (int_to_string 255)
       \<lparr>files = [''led/brightness'' \<mapsto> regular_file ''0''], directories = {''led''}, may_create = (\<lambda>_. False)\<rparr>
     = (Inr (), w')
    \<and> read_attr ''led/brightness'' w' = Some (Inr s, w') \<and> stoi s = Inr 255"
  using attribute_round_trip [of
      "\<lparr>files = [''led/brightness'' \<mapsto> regular_file ''0''], directories = {''led''}, may_create = (\<lambda>_. False)\<rparr>"
      "''led/brightness''" 255]
  by (auto simp: keeps_writes_def regular_file_def)

end
