(* ===== verification/Devices.thy ===== *)
theory Devices
  imports Sysfs Lookup_Tables
begin

text \<open>
  The devices: LEDs, indicators, the main board, the hatch and the temperature sensors
  (\<^verbatim>\<open>device/*.hpp\<close>, \<^verbatim>\<open>device/rgb_indicator.cpp\<close>, \<^verbatim>\<open>main_board/*.cpp\<close>). A device is the directory of its
  attributes; what it does happens in the file system.
\<close>

type_synonym 'a fs_op = "(fs, 'a) co"

definition fs_result :: "'a result \<Rightarrow> 'a fs_op" where
  "fs_result r = (\<lambda>w. Some (r, w))"

section \<open>LEDs\<close>

record sysfs_led =
  led_dir :: string

definition new_sysfs_led :: "string \<Rightarrow> sysfs_led fs_op" where
  "new_sysfs_led dir = co_bind (co_run (get_path dir)) (\<lambda>p. co_return \<lparr>led_dir = p\<rparr>)"

definition brightness_path :: "sysfs_led \<Rightarrow> string" where
  "brightness_path l = path_join (led_dir l) ''brightness''"

definition led_brightness :: "sysfs_led \<Rightarrow> int fs_op" where
  "led_brightness l = co_bind (read_attr (brightness_path l)) (\<lambda>s. fs_result (stoi s))"

definition led_set_brightness :: "sysfs_led \<Rightarrow> int \<Rightarrow> unit fs_op" where
  "led_set_brightness l v = co_run (write_attr (brightness_path l) (int_to_string v))"

record rgb_value =
  red :: int
  green :: int
  blue :: int

record sysfs_rgbled =
  red_led :: sysfs_led
  green_led :: sysfs_led
  blue_led :: sysfs_led

definition rgb_brightness :: "sysfs_rgbled \<Rightarrow> rgb_value fs_op" where
  "rgb_brightness l =
     co_bind (led_brightness (red_led l)) (\<lambda>r.
     co_bind (led_brightness (green_led l)) (\<lambda>g.
     co_bind (led_brightness (blue_led l)) (\<lambda>b.
       co_return \<lparr>red = r, green = g, blue = b\<rparr>)))"

definition rgb_set_brightness :: "sysfs_rgbled \<Rightarrow> rgb_value \<Rightarrow> unit fs_op" where
  "rgb_set_brightness l v =
     co_bind (led_set_brightness (red_led l) (red v)) (\<lambda>_.
     co_bind (led_set_brightness (green_led l) (green v)) (\<lambda>_.
       led_set_brightness (blue_led l) (blue v)))"

section \<open>Indicators\<close>

datatype indicator_state = Not_available | Off | On | Blinking

datatype indicator_type = Status | Warning | Fault | Maintenance

definition indicator_state_string :: "indicator_state \<Rightarrow> string" where
  "indicator_state_string s = (case s of Not_available \<Rightarrow> ''NotAvailable'' | Off \<Rightarrow> ''Off''
     | On \<Rightarrow> ''On'' | Blinking \<Rightarrow> ''Blinking'')"

definition indicator_type_string :: "indicator_type \<Rightarrow> string" where
  "indicator_type_string t = (case t of Status \<Rightarrow> ''Status'' | Warning \<Rightarrow> ''Warning''
     | Fault \<Rightarrow> ''Fault'' | Maintenance \<Rightarrow> ''Maintenance'')"

definition indicator_mapping :: "(indicator_type, rgb_value) static_map" where
  "indicator_mapping = \<lparr>map_data =
     [(Status, \<lparr>red = 0, green = 255, blue = 0\<rparr>), (Warning, \<lparr>red = 255, green = 255, blue = 0\<rparr>),
      (Maintenance, \<lparr>red = 0, green = 0, blue = 255\<rparr>), (Fault, \<lparr>red = 255, green = 0, blue = 0\<rparr>)]\<rparr>"

text \<open>The variant \<open>Indicator_t\<close>; the RGB LED behind an indicator is shared.\<close>

datatype indicator = Led_indicator indicator_type sysfs_led | Rgb_indicator indicator_type sysfs_rgbled

fun indicator_kind :: "indicator \<Rightarrow> indicator_type" where
  "indicator_kind (Led_indicator t l) = t"
| "indicator_kind (Rgb_indicator t l) = t"

definition rgb_indicator_state :: "indicator_type \<Rightarrow> sysfs_rgbled \<Rightarrow> indicator_state fs_op" where
  "rgb_indicator_state t l =
     co_bind (rgb_brightness l) (\<lambda>b.
     co_bind (fs_result (static_map_at_key indicator_mapping t)) (\<lambda>c.
       co_return (if red c = red b \<and> green c = green b \<and> blue c = blue b then On else Off)))"

definition rgb_indicator_set_state :: "indicator_type \<Rightarrow> sysfs_rgbled \<Rightarrow> indicator_state \<Rightarrow> unit fs_op" where
  "rgb_indicator_set_state t l st =
     co_bind (fs_result (static_map_at_key indicator_mapping t)) (\<lambda>c.
       case st of
         On \<Rightarrow> rgb_set_brightness l \<lparr>red = red c, green = green c, blue = blue c\<rparr>
       | Off \<Rightarrow> rgb_set_brightness l \<lparr>red = 0, green = 0, blue = 0\<rparr>
       | Not_available \<Rightarrow> co_return ()
       | Blinking \<Rightarrow> co_return ())"

definition led_indicator_state :: "sysfs_led \<Rightarrow> indicator_state fs_op" where
  "led_indicator_state l = co_return Not_available"

definition led_indicator_set_state :: "sysfs_led \<Rightarrow> indicator_state \<Rightarrow> unit fs_op" where
  "led_indicator_set_state l st = (case st of
     Off \<Rightarrow> led_set_brightness l 0
   | On \<Rightarrow> led_set_brightness l 255
   | Blinking \<Rightarrow> co_return ()
   | Not_available \<Rightarrow> co_return ())"

fun indicator_get :: "indicator \<Rightarrow> indicator_state fs_op" where
  "indicator_get (Led_indicator t l) = led_indicator_state l"
| "indicator_get (Rgb_indicator t l) = rgb_indicator_state t l"

fun indicator_set :: "indicator \<Rightarrow> indicator_state \<Rightarrow> unit fs_op" where
  "indicator_set (Led_indicator t l) st = led_indicator_set_state l st"
| "indicator_set (Rgb_indicator t l) st = rgb_indicator_set_state t l st"

section \<open>The main board\<close>

record main_board =
  indicators :: "indicator list"

definition board_indicator :: "main_board \<Rightarrow> indicator_type \<Rightarrow> indicator option" where
  "board_indicator b t = List.find (\<lambda>i. indicator_kind i = t) (indicators b)"

definition board_indicator_state :: "main_board \<Rightarrow> indicator_type \<Rightarrow> indicator_state fs_op" where
  "board_indicator_state b t =
     (case board_indicator b t of None \<Rightarrow> co_return Not_available | Some i \<Rightarrow> indicator_get i)"

definition board_set_indicator_state ::
    "main_board \<Rightarrow> indicator_type \<Rightarrow> indicator_state \<Rightarrow> unit fs_op" where
  "board_set_indicator_state b t st =
     (case board_indicator b t of None \<Rightarrow> co_return () | Some i \<Rightarrow> indicator_set i st)"

definition new_main_board :: "indicator list \<Rightarrow> main_board fs_op" where
  "new_main_board is =
     (let b = \<lparr>indicators = is\<rparr> in
      co_bind (board_set_indicator_state b Status Off) (\<lambda>_.
      co_bind (board_set_indicator_state b Status On) (\<lambda>_. co_return b)))"

record hardware_identity =
  hwid_manufacturer :: string
  hwid_model :: string
  hwid_revision :: string
  hwid_serial_number :: string

text \<open>
  The loop of \<open>get_hw_info_attr\<close>: at the end of the file \<open>get\<close> returns \<open>EOF\<close>, which the cast turns
  into the character 255, and only then the end is seen; on a read error the end is never seen.
\<close>

fun hw_scan :: "bool \<Rightarrow> string \<Rightarrow> string option" where
  "hw_scan fails [] = (if fails then None else Some [char_of (255::nat)])"
| "hw_scan fails (c # cs) =
     (if c = char_of (10::nat) \<or> c = char_of (0::nat) then Some []
      else map_option (Cons c) (hw_scan fails cs))"

definition get_hw_info_attr :: "string \<Rightarrow> string fs_op" where
  "get_hw_info_attr p = (\<lambda>w.
     case open_in p w of
       None \<Rightarrow> Some (Inr (''default-'' @ p), w)
     | Some st \<Rightarrow> (case hw_scan (broken st) (rest st) of None \<Rightarrow> None | Some s \<Rightarrow> Some (Inr s, w)))"

definition board_hardware_identity :: "hardware_identity fs_op" where
  "board_hardware_identity =
     co_bind (get_hw_info_attr ''/etc/hw-name'') (\<lambda>m.
     co_bind (get_hw_info_attr ''/etc/hw-serial'') (\<lambda>s.
       co_return \<lparr>hwid_manufacturer = ''BHome'', hwid_model = m, hwid_revision = ''R1'', hwid_serial_number = s\<rparr>))"

section \<open>The hatch\<close>

datatype hatch_state = Hatch_undefined | Hatch_open | Hatch_closed | Hatch_changing_position | Hatch_faulty

definition hatch_state_string :: "hatch_state \<Rightarrow> string" where
  "hatch_state_string s = (case s of Hatch_undefined \<Rightarrow> ''Undefined'' | Hatch_open \<Rightarrow> ''Open''
     | Hatch_closed \<Rightarrow> ''Closed'' | Hatch_changing_position \<Rightarrow> ''ChangingPosition'' | Hatch_faulty \<Rightarrow> ''Faulty'')"

definition status_mapping :: "(hatch_state, string) static_map" where
  "status_mapping = \<lparr>map_data = [(Hatch_open, ''open''), (Hatch_closed, ''closed''),
     (Hatch_changing_position, ''changing_position''), (Hatch_faulty, ''faulty''), (Hatch_undefined, ''undefined'')]\<rparr>"

record sysfs_hatch =
  hatch_dir :: string

definition new_sysfs_hatch :: "string \<Rightarrow> sysfs_hatch fs_op" where
  "new_sysfs_hatch dir = co_bind (co_run (get_path dir)) (\<lambda>p. co_return \<lparr>hatch_dir = p\<rparr>)"

definition hatch_open :: "sysfs_hatch \<Rightarrow> unit fs_op" where
  "hatch_open h = co_run (write_attr (path_join (hatch_dir h) ''change_position'') ''open'')"

definition hatch_close :: "sysfs_hatch \<Rightarrow> unit fs_op" where
  "hatch_close h = co_run (write_attr (path_join (hatch_dir h) ''change_position'') ''close'')"

definition hatch_status :: "sysfs_hatch \<Rightarrow> hatch_state fs_op" where
  "hatch_status h =
     co_bind (read_attr (path_join (hatch_dir h) ''status''))
       (\<lambda>s. fs_result (static_map_at_value status_mapping s))"

section \<open>Temperature sensors\<close>

text \<open>
  Floating point is a parameter: \<open>std::stof\<close>, the division by a thousand, zero and printing with one
  decimal.
\<close>

record 'f floats =
  stof :: "string \<Rightarrow> 'f result"
  milli :: "'f \<Rightarrow> 'f"
  float_zero :: 'f
  one_decimal :: "'f \<Rightarrow> string"

text \<open>\<open>std::string::find\<close>, as what stands behind the first match.\<close>

fun after_first :: "string \<Rightarrow> string \<Rightarrow> string option" where
  "after_first p [] = (if p = [] then Some [] else None)"
| "after_first p (c # cs) =
     (if take (length p) (c # cs) = p then Some (drop (length p) (c # cs)) else after_first p cs)"

datatype temp_sensor = Ds18b20 string | Cpu_temp_sensor string

definition new_ds18b20 :: "string \<Rightarrow> temp_sensor fs_op" where
  "new_ds18b20 dir = co_bind (co_run (get_path dir)) (\<lambda>p. co_return (Ds18b20 p))"

definition new_cpu_temp_sensor :: "string \<Rightarrow> temp_sensor fs_op" where
  "new_cpu_temp_sensor dir = co_bind (co_run (get_path dir)) (\<lambda>p. co_return (Cpu_temp_sensor p))"

definition ds18b20_value :: "'f floats \<Rightarrow> string \<Rightarrow> 'f fs_op" where
  "ds18b20_value F dir =
     co_bind (read_attr (path_join dir ''w1_slave'')) (\<lambda>s.
       case after_first ''t='' s of
         None \<Rightarrow> co_return (float_zero F)
       | Some v \<Rightarrow> fs_result (result_map (milli F) (stof F v)))"

definition cpu_temp_value :: "'f floats \<Rightarrow> string \<Rightarrow> 'f fs_op" where
  "cpu_temp_value F dir =
     co_bind (read_attr (path_join dir ''temp'')) (\<lambda>s. fs_result (result_map (milli F) (stof F s)))"

fun temp_sensor_value :: "'f floats \<Rightarrow> temp_sensor \<Rightarrow> 'f fs_op" where
  "temp_sensor_value F (Ds18b20 dir) = ds18b20_value F dir"
| "temp_sensor_value F (Cpu_temp_sensor dir) = cpu_temp_value F dir"

section \<open>Lemmas\<close>

lemma read_attr_cong:
  "read_attr p w = Some (r, w) \<Longrightarrow> files w' p = files w p \<Longrightarrow> read_attr p w' = Some (r, w')"
  by (auto simp: read_attr_def open_in_def split: option.splits)

lemma keeps_writes_cong:
  "files w' p = files w p \<Longrightarrow> may_create w' = may_create w \<Longrightarrow> keeps_writes w' p = keeps_writes w p"
  by (simp add: keeps_writes_def split: option.split)

definition led_shows :: "fs \<Rightarrow> sysfs_led \<Rightarrow> int \<Rightarrow> bool" where
  "led_shows w l v \<longleftrightarrow> led_brightness l w = Some (Inr v, w)"

lemma led_shows_cong:
  assumes "led_shows w l v" and "files w' (brightness_path l) = files w (brightness_path l)"
  shows "led_shows w' l v"
proof -
  from assms(1) obtain s where "read_attr (brightness_path l) w = Some (Inr s, w)" "stoi s = Inr v"
    by (auto simp: led_shows_def led_brightness_def co_bind_eq_Some fs_result_def dest: read_attr_state)
  with read_attr_cong [OF this(1) assms(2)] show ?thesis
    by (simp add: led_shows_def led_brightness_def co_bind_def fs_result_def)
qed

lemma led_set_shows:
  assumes "keeps_writes w (brightness_path l)" and "0 \<le> v" and "v \<le> 255"
  shows "\<exists>w'. led_set_brightness l v w = Some (Inr (), w') \<and> led_shows w' l v
    \<and> keeps_writes w' (brightness_path l)
    \<and> (\<forall>q. q \<noteq> brightness_path l \<longrightarrow> files w' q = files w q) \<and> may_create w' = may_create w"
proof -
  from write_attr_read [OF assms(1), of "int_to_string v"] obtain w' where
    w': "write_attr (brightness_path l) (int_to_string v) w = (Inr (), w')"
      "read_attr (brightness_path l) w' = Some (Inr (last_word (int_to_string v)), w')"
      "keeps_writes w' (brightness_path l)"
      "\<forall>q. q \<noteq> brightness_path l \<longrightarrow> files w' q = files w q" "may_create w' = may_create w"
    by blast
  have "stoi (last_word (int_to_string v)) = Inr v"
    using assms(2,3) by (simp add: last_word_single int_to_string_no_space stoi_int_to_string)
  with w' show ?thesis
    by (intro exI [of _ w'])
      (simp add: led_set_brightness_def co_run_def led_shows_def led_brightness_def co_bind_def fs_result_def)
qed

text \<open>Three LEDs on different attributes, each keeping what it is told.\<close>

definition working_rgb :: "fs \<Rightarrow> sysfs_rgbled \<Rightarrow> bool" where
  "working_rgb w l \<longleftrightarrow>
     keeps_writes w (brightness_path (red_led l)) \<and> keeps_writes w (brightness_path (green_led l))
     \<and> keeps_writes w (brightness_path (blue_led l))
     \<and> distinct [brightness_path (red_led l), brightness_path (green_led l), brightness_path (blue_led l)]"

definition rgb_range :: "rgb_value \<Rightarrow> bool" where
  "rgb_range v \<longleftrightarrow> 0 \<le> red v \<and> red v \<le> 255 \<and> 0 \<le> green v \<and> green v \<le> 255 \<and> 0 \<le> blue v \<and> blue v \<le> 255"

lemma rgb_set_shows:
  assumes work: "working_rgb w l" and range: "rgb_range v"
  shows "\<exists>w'. rgb_set_brightness l v w = Some (Inr (), w') \<and> rgb_brightness l w' = Some (Inr v, w')
    \<and> working_rgb w' l"
proof -
  let ?r = "brightness_path (red_led l)" and ?g = "brightness_path (green_led l)"
    and ?b = "brightness_path (blue_led l)"
  from work have kr: "keeps_writes w ?r" and kg: "keeps_writes w ?g" and kb: "keeps_writes w ?b"
    and neq: "?r \<noteq> ?g" "?r \<noteq> ?b" "?g \<noteq> ?b"
    by (simp_all add: working_rgb_def)
  from range have v: "0 \<le> red v" "red v \<le> 255" "0 \<le> green v" "green v \<le> 255" "0 \<le> blue v" "blue v \<le> 255"
    by (simp_all add: rgb_range_def)
  from led_set_shows [OF kr v(1,2)] obtain w1 where
    w1: "led_set_brightness (red_led l) (red v) w = Some (Inr (), w1)" "led_shows w1 (red_led l) (red v)"
      "keeps_writes w1 ?r" "\<forall>q. q \<noteq> ?r \<longrightarrow> files w1 q = files w q" "may_create w1 = may_create w" by blast
  have kg1: "keeps_writes w1 ?g" and kb1: "keeps_writes w1 ?b"
    using kg kb w1(4,5) neq keeps_writes_cong by metis+
  from led_set_shows [OF kg1 v(3,4)] obtain w2 where
    w2: "led_set_brightness (green_led l) (green v) w1 = Some (Inr (), w2)" "led_shows w2 (green_led l) (green v)"
      "keeps_writes w2 ?g" "\<forall>q. q \<noteq> ?g \<longrightarrow> files w2 q = files w1 q" "may_create w2 = may_create w1" by blast
  have kr2: "keeps_writes w2 ?r" and kb2: "keeps_writes w2 ?b"
    using w1(3) kb1 w2(4,5) neq keeps_writes_cong by metis+
  from led_set_shows [OF kb2 v(5,6)] obtain w3 where
    w3: "led_set_brightness (blue_led l) (blue v) w2 = Some (Inr (), w3)" "led_shows w3 (blue_led l) (blue v)"
      "keeps_writes w3 ?b" "\<forall>q. q \<noteq> ?b \<longrightarrow> files w3 q = files w2 q" "may_create w3 = may_create w2" by blast
  have kr3: "keeps_writes w3 ?r" and kg3: "keeps_writes w3 ?g"
    using kr2 w2(3) w3(4,5) neq keeps_writes_cong by metis+
  have r3: "led_shows w3 (red_led l) (red v)" and g3: "led_shows w3 (green_led l) (green v)"
    using led_shows_cong [OF w1(2), of w3] led_shows_cong [OF w2(2), of w3] w2(4) w3(4) neq by simp_all
  have "rgb_set_brightness l v w = Some (Inr (), w3)"
    using w1(1) w2(1) w3(1) by (simp add: rgb_set_brightness_def co_bind_def)
  moreover have "rgb_brightness l w3 = Some (Inr v, w3)"
    using r3 g3 w3(2) by (simp add: rgb_brightness_def led_shows_def co_bind_def co_return_def)
  ultimately show ?thesis using kr3 kg3 w3(3) neq by (auto simp: working_rgb_def)
qed

definition color_of :: "indicator_type \<Rightarrow> rgb_value" where
  "color_of t = (case t of Status \<Rightarrow> \<lparr>red = 0, green = 255, blue = 0\<rparr>
     | Warning \<Rightarrow> \<lparr>red = 255, green = 255, blue = 0\<rparr> | Maintenance \<Rightarrow> \<lparr>red = 0, green = 0, blue = 255\<rparr>
     | Fault \<Rightarrow> \<lparr>red = 255, green = 0, blue = 0\<rparr>)"

lemma indicator_color: "static_map_at_key indicator_mapping t = Inr (color_of t)"
  by (cases t) (simp_all add: indicator_mapping_def static_map_at_key_def color_of_def)

lemma color_of_inject: "color_of t = color_of u \<longleftrightarrow> t = u"
  by (cases t; cases u) (simp_all add: color_of_def)

lemma color_of_lit: "color_of t \<noteq> \<lparr>red = 0, green = 0, blue = 0\<rparr>" "rgb_range (color_of t)"
  by (cases t; simp add: color_of_def rgb_range_def)+

lemma rgb_state_of:
  "rgb_brightness l w = Some (Inr v, w) \<Longrightarrow>
    rgb_indicator_state t l w = Some (Inr (if color_of t = v then On else Off), w)"
  by (cases v; cases "color_of t")
    (simp add: rgb_indicator_state_def co_bind_def indicator_color fs_result_def co_return_def)

lemma rgb_eta: "\<lparr>red = red c, green = green c, blue = blue c\<rparr> = c"
  by (cases c) simp

lemma rgb_set_state_eq:
  "rgb_indicator_set_state t l st =
    (case st of On \<Rightarrow> rgb_set_brightness l (color_of t)
     | Off \<Rightarrow> rgb_set_brightness l \<lparr>red = 0, green = 0, blue = 0\<rparr>
     | Not_available \<Rightarrow> co_return () | Blinking \<Rightarrow> co_return ())"
  unfolding rgb_indicator_set_state_def rgb_eta
  by (intro ext) (simp add: co_bind_def indicator_color fs_result_def split: indicator_state.split)

text \<open>A board whose indicators share one RGB LED.\<close>

definition rgb_board :: "main_board \<Rightarrow> sysfs_rgbled \<Rightarrow> bool" where
  "rgb_board b l \<longleftrightarrow> list_all (\<lambda>i. \<exists>t. i = Rgb_indicator t l) (indicators b)"

lemma rgb_board_indicator:
  assumes "rgb_board b l" and "board_indicator b t \<noteq> None"
  shows "board_indicator b t = Some (Rgb_indicator t l)"
proof -
  from assms(2) obtain i where i: "board_indicator b t = Some i" by blast
  then have "i \<in> set (indicators b)" "indicator_kind i = t"
    using find_Some_set unfolding board_indicator_def by fastforce+
  with assms(1) have "i = Rgb_indicator t l" by (auto simp: rgb_board_def list_all_iff)
  with i show ?thesis by simp
qed

lemma rgb_board_set:
  assumes board: "rgb_board b l" "board_indicator b t \<noteq> None" and work: "working_rgb w l"
    and st: "st = On \<or> st = Off"
  shows "\<exists>w'. board_set_indicator_state b t st w = Some (Inr (), w') \<and> working_rgb w' l
    \<and> (\<forall>u. board_indicator_state b u w' = Some (Inr (
          if board_indicator b u = None then Not_available
          else if u = t \<and> st = On then On else Off), w'))"
proof -
  let ?v = "if st = On then color_of t else \<lparr>red = 0, green = 0, blue = 0\<rparr>"
  have "rgb_range ?v" using color_of_lit by (simp add: rgb_range_def)
  from rgb_set_shows [OF work this] obtain w' where
    w': "rgb_set_brightness l ?v w = Some (Inr (), w')" "rgb_brightness l w' = Some (Inr ?v, w')"
      "working_rgb w' l" by blast
  have "board_set_indicator_state b t st w = Some (Inr (), w')"
    using rgb_board_indicator [OF board] w'(1) st
    by (auto simp: board_set_indicator_state_def rgb_set_state_eq)
  moreover have "board_indicator_state b u w' = Some (Inr (
          if board_indicator b u = None then Not_available
          else if u = t \<and> st = On then On else Off), w')" for u
  proof (cases "board_indicator b u = None")
    case False
    then show ?thesis
      using rgb_board_indicator [OF board(1), of u] rgb_state_of [OF w'(2), of u] color_of_inject color_of_lit(1) st
      by (auto simp: board_indicator_state_def)
  qed (simp add: board_indicator_state_def co_return_def)
  ultimately show ?thesis using w'(3) by blast
qed

section \<open>Properties\<close>

text \<open>C37: On a board whose indicators share a working RGB LED, switching an indicator on makes it the
  only one that is on, switching one off turns all of them off, the states \<open>Blinking\<close> and
  \<open>NotAvailable\<close> change nothing, an indicator the board does not have reads as not available, and
  a newly built board shows its status indicator.\<close>

theorem rgb_board_shows_last_indicator:
  assumes "rgb_board b l" and "board_indicator b t \<noteq> None" and "working_rgb w l"
  shows "(\<exists>w'. board_set_indicator_state b t On w = Some (Inr (), w') \<and> working_rgb w' l
      \<and> board_indicator_state b u w' = Some (Inr (
          if board_indicator b u = None then Not_available else if u = t then On else Off), w'))
    \<and> (\<exists>w'. board_set_indicator_state b t Off w = Some (Inr (), w') \<and> working_rgb w' l
      \<and> board_indicator_state b u w' = Some (Inr (
          if board_indicator b u = None then Not_available else Off), w'))
    \<and> board_set_indicator_state b t Blinking w = Some (Inr (), w)
    \<and> board_set_indicator_state b t Not_available w = Some (Inr (), w)
    \<and> (if board_indicator b Status = None then new_main_board (indicators b) w = Some (Inr b, w)
       else \<exists>w'. new_main_board (indicators b) w = Some (Inr b, w')
         \<and> board_indicator_state b Status w' = Some (Inr On, w'))"
proof -
  note on = rgb_board_set [OF assms, of On] and off = rgb_board_set [OF assms, of Off]
  have idle: "board_set_indicator_state b t Blinking w = Some (Inr (), w)"
    "board_set_indicator_state b t Not_available w = Some (Inr (), w)"
    using rgb_board_indicator [OF assms(1,2)]
    by (simp_all add: board_set_indicator_state_def rgb_set_state_eq co_return_def)
  have b: "\<lparr>indicators = indicators b\<rparr> = b" by simp
  have start: "\<exists>w'. new_main_board (indicators b) w = Some (Inr b, w')
      \<and> board_indicator_state b Status w' = Some (Inr On, w')" if some: "board_indicator b Status \<noteq> None"
  proof -
    from rgb_board_set [OF assms(1) some assms(3), of Off] obtain w1 where
      w1: "board_set_indicator_state b Status Off w = Some (Inr (), w1)" "working_rgb w1 l" by auto
    from rgb_board_set [OF assms(1) some w1(2), of On] obtain w2 where
      w2: "board_set_indicator_state b Status On w1 = Some (Inr (), w2)"
        "board_indicator_state b Status w2 = Some (Inr On, w2)" using some by auto
    from w1(1) w2 show ?thesis by (simp add: new_main_board_def Let_def co_bind_def co_return_def b)
  qed
  have "board_indicator b Status = None \<Longrightarrow> new_main_board (indicators b) w = Some (Inr b, w)"
    by (simp add: new_main_board_def Let_def co_bind_def co_return_def b board_set_indicator_state_def)
  with start on off idle show ?thesis by auto
qed

definition example_rgb :: sysfs_rgbled where
  "example_rgb = \<lparr>red_led = \<lparr>led_dir = ''red''\<rparr>, green_led = \<lparr>led_dir = ''green''\<rparr>, blue_led = \<lparr>led_dir = ''blue''\<rparr>\<rparr>"

definition example_disk :: fs where
  "example_disk = \<lparr>files = (\<lambda>p. None), directories = {''red'', ''green'', ''blue''}, may_create = (\<lambda>p. True)\<rparr>"

theorem rgb_board_shows_last_indicator_witness:
  "\<exists>w. board_set_indicator_state \<lparr>indicators = [Rgb_indicator Status example_rgb, Rgb_indicator Fault example_rgb]\<rparr>
      Fault On example_disk = Some (Inr (), w)
    \<and> board_indicator_state \<lparr>indicators = [Rgb_indicator Status example_rgb, Rgb_indicator Fault example_rgb]\<rparr>
      Status w = Some (Inr Off, w)"
proof -
  let ?b = "\<lparr>indicators = [Rgb_indicator Status example_rgb, Rgb_indicator Fault example_rgb]\<rparr>"
  have "rgb_board ?b example_rgb" by (simp add: rgb_board_def)
  moreover have "board_indicator ?b Fault \<noteq> None" "board_indicator ?b Status \<noteq> None"
    by (simp_all add: board_indicator_def)
  moreover have "working_rgb example_disk example_rgb"
    by (simp add: working_rgb_def keeps_writes_def example_disk_def example_rgb_def brightness_path_def path_join_def)
  ultimately show ?thesis
    using rgb_board_shows_last_indicator [of ?b example_rgb Fault example_disk Status] by auto
qed

text \<open>What \<open>read_attr\<close> does on a healthy attribute, for the devices that only read.\<close>

definition healthy :: "fs \<Rightarrow> string \<Rightarrow> string \<Rightarrow> bool" where
  "healthy w p s \<longleftrightarrow>
     (case files w p of
        None \<Rightarrow> False
      | Some f \<Rightarrow> opens_for_reading f \<and> \<not> reads_fail f \<and> content f = s)"

lemma healthy_read: "healthy w p s \<Longrightarrow> read_attr p w = Some (Inr (last_word s), w)"
  using read_attr_open [of w p] by (auto simp: healthy_def split: option.splits)

lemma healthy_open:
  "healthy w p s \<Longrightarrow> open_in p w =
    Some \<lparr>rest = s, broken = False, eofbit = False, failbit = False, badbit = False\<rparr>"
  by (auto simp: healthy_def open_in_def split: option.splits)

lemma status_word:
  "static_map_at_value status_mapping s =
    (if s = ''open'' then Inr Hatch_open else if s = ''closed'' then Inr Hatch_closed
     else if s = ''changing_position'' then Inr Hatch_changing_position
     else if s = ''faulty'' then Inr Hatch_faulty else if s = ''undefined'' then Inr Hatch_undefined
     else Inl (Range_error ''range error''))"
  by (simp add: status_mapping_def static_map_at_value_def)

lemma hw_scan_healthy:
  "hw_scan False s = Some (takeWhile (\<lambda>c. c \<noteq> char_of (10::nat) \<and> c \<noteq> char_of (0::nat)) s @
    (if char_of (10::nat) \<in> set s \<or> char_of (0::nat) \<in> set s then [] else [char_of (255::nat)]))"
  by (induction s) auto

lemma hw_scan_broken:
  "hw_scan True s = (if char_of (10::nat) \<in> set s \<or> char_of (0::nat) \<in> set s
    then Some (takeWhile (\<lambda>c. c \<noteq> char_of (10::nat) \<and> c \<noteq> char_of (0::nat)) s) else None)"
  by (induction s) auto

text \<open>The status of a hatch is the last word of its status attribute, translated by the table;
  a word that is not in the table, also of an empty attribute, is thrown as a range error. A hatch
  is opened and closed by writing the one word to its position attribute and nothing else.\<close>

theorem hatch_follows_its_attributes:
  assumes "healthy w (path_join (hatch_dir h) ''status'') s"
    and "keeps_writes w (path_join (hatch_dir h) ''change_position'')"
  shows "hatch_status h w = Some (case last_word s of
       word \<Rightarrow> if word = ''open'' then Inr Hatch_open else if word = ''closed'' then Inr Hatch_closed
         else if word = ''changing_position'' then Inr Hatch_changing_position
         else if word = ''faulty'' then Inr Hatch_faulty else if word = ''undefined'' then Inr Hatch_undefined
         else Inl (Range_error ''range error''), w)
    \<and> (\<exists>w'. hatch_open h w = Some (Inr (), w')
       \<and> read_attr (path_join (hatch_dir h) ''change_position'') w' = Some (Inr ''open'', w')
       \<and> files w' = (files w)(path_join (hatch_dir h) ''change_position'' :=
            files w' (path_join (hatch_dir h) ''change_position'')))
    \<and> (\<exists>w'. hatch_close h w = Some (Inr (), w')
       \<and> read_attr (path_join (hatch_dir h) ''change_position'') w' = Some (Inr ''close'', w')
       \<and> files w' = (files w)(path_join (hatch_dir h) ''change_position'' :=
            files w' (path_join (hatch_dir h) ''change_position'')))"
proof -
  let ?p = "path_join (hatch_dir h) ''change_position''"
  have word: "last_word ''open'' = ''open''" "last_word ''close'' = ''close''"
    by (simp_all add: last_word_single is_space_def)
  have written: "\<exists>w'. co_run (write_attr ?p v) w = Some (Inr (), w')
      \<and> read_attr ?p w' = Some (Inr (last_word v), w') \<and> files w' = (files w)(?p := files w' ?p)" for v
    using write_attr_read [OF assms(2), of v] by (auto simp: co_run_def fun_eq_iff)
  have "hatch_status h w = Some (static_map_at_value status_mapping (last_word s), w)"
    using healthy_read [OF assms(1)] by (simp add: hatch_status_def co_bind_def fs_result_def)
  with written [of "''open''"] written [of "''close''"] show ?thesis
    by (simp only: hatch_open_def hatch_close_def word status_word)
qed

theorem hatch_follows_its_attributes_witness:
  "hatch_status \<lparr>hatch_dir = ''hatch''\<rparr>
     \<lparr>files = [''hatch/status'' \<mapsto> regular_file ''changing_position''], directories = {''hatch''},
      may_create = (\<lambda>p. p = ''hatch/change_position'')\<rparr>
   = Some (Inr Hatch_changing_position,
     \<lparr>files = [''hatch/status'' \<mapsto> regular_file ''changing_position''], directories = {''hatch''},
      may_create = (\<lambda>p. p = ''hatch/change_position'')\<rparr>)"
proof -
  let ?w = "\<lparr>files = [''hatch/status'' \<mapsto> regular_file ''changing_position''], directories = {''hatch''},
      may_create = (\<lambda>p. p = ''hatch/change_position'')\<rparr>"
  have "healthy ?w (path_join (hatch_dir \<lparr>hatch_dir = ''hatch''\<rparr>) ''status'') ''changing_position''"
    and "keeps_writes ?w (path_join (hatch_dir \<lparr>hatch_dir = ''hatch''\<rparr>) ''change_position'')"
    by (simp_all add: healthy_def keeps_writes_def path_join_def regular_file_def)
  from hatch_follows_its_attributes [OF this] show ?thesis
    by (simp add: last_word_single is_space_def)
qed

text \<open>A hardware attribute file is read up to its first newline or null character. A file that
  ends without one is read with a character 255 behind its text, the \<open>EOF\<close> of the stream, and so
  carries it into the model or the serial number; a missing file gives the default name.\<close>

theorem hardware_attribute_outcome:
  "get_hw_info_attr p w =
    (case open_in p w of
       None \<Rightarrow> Some (Inr (''default-'' @ p), w)
     | Some st \<Rightarrow>
         if char_of (10::nat) \<in> set (rest st) \<or> char_of (0::nat) \<in> set (rest st)
         then Some (Inr (takeWhile (\<lambda>c. c \<noteq> char_of (10::nat) \<and> c \<noteq> char_of (0::nat)) (rest st)), w)
         else if broken st then None
         else Some (Inr (rest st @ [char_of (255::nat)]), w))"
proof (cases "open_in p w")
  case (Some st)
  have "char_of (10::nat) \<notin> set (rest st) \<and> char_of (0::nat) \<notin> set (rest st) \<Longrightarrow>
      takeWhile (\<lambda>c. c \<noteq> char_of (10::nat) \<and> c \<noteq> char_of (0::nat)) (rest st) = rest st"
    by (auto simp: takeWhile_eq_all_conv)
  with Some show ?thesis
    by (cases "broken st") (auto simp: get_hw_info_attr_def hw_scan_healthy hw_scan_broken)
qed (simp add: get_hw_info_attr_def)

text \<open>A temperature sensor reads the last word of its attribute: the one-wire sensor what stands
  behind \<open>t=\<close> in it, and zero when there is no such mark, the processor sensor all of it; in
  thousandths, and an exception of the conversion is passed on.\<close>

theorem temperature_outcome:
  assumes "healthy w (path_join dir (case s of Ds18b20 d \<Rightarrow> ''w1_slave'' | Cpu_temp_sensor d \<Rightarrow> ''temp'')) attr"
    and "s = Ds18b20 dir \<or> s = Cpu_temp_sensor dir"
  shows "temp_sensor_value F s w =
    (case s of
       Cpu_temp_sensor d \<Rightarrow> Some (result_map (milli F) (stof F (last_word attr)), w)
     | Ds18b20 d \<Rightarrow>
         (case after_first ''t='' (last_word attr) of
            None \<Rightarrow> Some (Inr (float_zero F), w)
          | Some v \<Rightarrow> Some (result_map (milli F) (stof F v), w)))"
  using assms healthy_read [OF assms(1)]
  by (auto simp: ds18b20_value_def cpu_temp_value_def co_bind_def fs_result_def co_return_def
      split: option.splits)

definition integer_floats :: "int floats" where
  "integer_floats = \<lparr>stof = stoi, milli = (\<lambda>v. v div 1000), float_zero = 0, one_decimal = int_to_string\<rparr>"

theorem temperature_outcome_witness:
  "fst (the (temp_sensor_value integer_floats (Ds18b20 ''d'')
     \<lparr>files = [''d/w1_slave'' \<mapsto> regular_file ''t=23125''], directories = {}, may_create = (\<lambda>p. False)\<rparr>))
   = Inr 23"
proof -
  let ?w = "\<lparr>files = [''d/w1_slave'' \<mapsto> regular_file ''t=23125''], directories = {}, may_create = (\<lambda>p. False)\<rparr>"
  have "healthy ?w (path_join ''d'' (case Ds18b20 ''d'' of Ds18b20 d \<Rightarrow> ''w1_slave''
      | Cpu_temp_sensor d \<Rightarrow> ''temp'')) ''t=23125''"
    by (simp add: healthy_def path_join_def regular_file_def)
  from temperature_outcome [OF this, of integer_floats] show ?thesis
    by (simp add: last_word_single is_space_def integer_floats_def stoi_def is_digit_def digits_value_def
        digit_value_def)
qed

end
