(* ===== verification/Device_Tree.thy ===== *)
theory Device_Tree
  imports Prelude
begin

text \<open>
  The device tree (\<^verbatim>\<open>device/include/device/devicetree.hpp\<close>, \<^verbatim>\<open>main_board/devicetree.cpp\<close>):
  a vector of nodes, each a device, its parent and an optional callback that the node's destructor
  runs. The callbacks are labels of a type parameter; an operation that destroys nodes returns the
  callbacks it runs, in order. Moving a node out of a slot leaves the slot with an empty
  \<open>std::function\<close>, as libstdc++ does, so its destructor runs nothing.
\<close>

section \<open>State\<close>

type_synonym device_id = "32 word"

record 'cb node =
  parent_device_id :: device_id
  node_device_id :: device_id
  func :: "'cb option"

record 'cb device_tree =
  nodes :: "'cb node list"

definition empty_tree :: "'cb device_tree" where
  "empty_tree = \<lparr>nodes = []\<rparr>"

text \<open>\<open>~Node\<close>: run the callback if there is one.\<close>

definition destroy_node :: "'cb node \<Rightarrow> 'cb list" where
  "destroy_node n = (case func n of None \<Rightarrow> [] | Some cb \<Rightarrow> [cb])"

definition moved_from :: "'cb node \<Rightarrow> 'cb node" where
  "moved_from n = n\<lparr>func := None\<rparr>"

section \<open>Operations\<close>

text \<open>
  \<open>add_child\<close>: a device that has a node already is not added again; the result says whether it
  hangs under the requested parent. The callback handed in is dropped in that case.
\<close>

definition add_child ::
    "device_id \<Rightarrow> device_id \<Rightarrow> 'cb option \<Rightarrow> 'cb device_tree \<Rightarrow> bool \<times> 'cb device_tree" where
  "add_child p d cb t =
     (case List.find (\<lambda>n. node_device_id n = d) (nodes t) of
        Some n \<Rightarrow> (parent_device_id n = p, t)
      | None \<Rightarrow>
          (True, t\<lparr>nodes := nodes t @ [\<lparr>parent_device_id = p, node_device_id = d, func = cb\<rparr>]\<rparr>))"

text \<open>
  \<open>remove_child\<close> clears the callback of the node it finds, then erases the node: the nodes behind
  it move one slot down, and the destructor of the last slot finds nothing to run.
\<close>

fun erase_shift :: "('cb node \<Rightarrow> bool) \<Rightarrow> 'cb node list \<Rightarrow> 'cb node list \<times> 'cb list" where
  "erase_shift P [] = ([], [])"
| "erase_shift P (n # ns) =
     (if P n
      then (ns, destroy_node (last (n\<lparr>func := None\<rparr> # map moved_from ns)))
      else (case erase_shift P ns of (ns', cbs) \<Rightarrow> (n # ns', cbs)))"

definition remove_child ::
    "device_id \<Rightarrow> device_id \<Rightarrow> 'cb device_tree \<Rightarrow> bool \<times> 'cb list \<times> 'cb device_tree" where
  "remove_child p d t =
     (let P = (\<lambda>n. parent_device_id n = p \<and> node_device_id n = d)
      in case List.find P (nodes t) of
           None \<Rightarrow> (False, [], t)
         | Some _ \<Rightarrow>
             (case erase_shift P (nodes t) of (ns, cbs) \<Rightarrow> (True, cbs, t\<lparr>nodes := ns\<rparr>)))"

text \<open>
  \<open>std::remove_if\<close> behind \<open>std::erase_if\<close>, as the slots of the vector: \<open>kept\<close> are the slots in
  front of the write position, \<open>gap\<close> the slots between the write and the read position. A node that
  stays is move-assigned to the first slot of the gap, whose old content is overwritten (its
  callback is dropped without a call), and its own slot joins the gap as a moved-from node. A node
  that goes just joins the gap. Nothing moves before the first node that goes.
\<close>

fun remove_if_loop ::
    "('cb node \<Rightarrow> bool) \<Rightarrow> 'cb node list \<Rightarrow> 'cb node list \<Rightarrow> 'cb node list
      \<Rightarrow> 'cb node list \<times> 'cb node list" where
  "remove_if_loop P kept gap [] = (kept, gap)"
| "remove_if_loop P kept gap (n # ns) =
     (if P n then remove_if_loop P kept (gap @ [n]) ns
      else if gap = [] then remove_if_loop P (kept @ [n]) [] ns
      else remove_if_loop P (kept @ [n]) (tl gap @ [moved_from n]) ns)"

text \<open>\<open>remove\<close>: the slots behind the write position are destroyed, front to back.\<close>

definition remove_parent :: "device_id \<Rightarrow> 'cb device_tree \<Rightarrow> bool \<times> 'cb list \<times> 'cb device_tree" where
  "remove_parent p t =
     (case remove_if_loop (\<lambda>n. parent_device_id n = p) [] [] (nodes t) of
        (kept, gap) \<Rightarrow> (gap \<noteq> [], concat (map destroy_node gap), t\<lparr>nodes := kept\<rparr>))"

definition parent_of :: "device_id \<Rightarrow> 'cb device_tree \<Rightarrow> device_id option" where
  "parent_of d t =
     (case List.find (\<lambda>n. node_device_id n = d) (nodes t) of
        Some n \<Rightarrow> Some (parent_device_id n)
      | None \<Rightarrow> None)"

definition all_children :: "device_id \<Rightarrow> 'cb device_tree \<Rightarrow> device_id list" where
  "all_children p t = map node_device_id (filter (\<lambda>n. parent_device_id n = p) (nodes t))"

text \<open>The operations as events, and the trees that a run of operations reaches.\<close>

datatype 'cb tree_op =
    AddChild device_id device_id "'cb option"
  | RemoveChild device_id device_id
  | RemoveParent device_id

fun tree_step :: "'cb tree_op \<Rightarrow> 'cb device_tree \<Rightarrow> 'cb device_tree" where
  "tree_step (AddChild p d cb) t = snd (add_child p d cb t)"
| "tree_step (RemoveChild p d) t = snd (snd (remove_child p d t))"
| "tree_step (RemoveParent p) t = snd (snd (remove_parent p t))"

inductive tree_reachable :: "'cb device_tree \<Rightarrow> bool" where
  tree_start: "tree_reachable empty_tree"
| tree_more: "tree_reachable t \<Longrightarrow> tree_reachable (tree_step op t)"

section \<open>Lemmas\<close>

definition tree_inv :: "'cb device_tree \<Rightarrow> bool" where
  "tree_inv t \<longleftrightarrow> distinct (map node_device_id (nodes t))"

lemma erase_shift_nodes: "fst (erase_shift P ns) = erase_first P ns"
  by (induction ns) (auto split: prod.splits)

lemma last_moved_from_silent: "destroy_node (last (n\<lparr>func := None\<rparr> # map moved_from ns)) = []"
  by (cases ns rule: rev_cases) (auto simp: destroy_node_def moved_from_def)

lemma erase_shift_silent: "snd (erase_shift P ns) = []"
  by (induction ns) (auto simp: last_moved_from_silent simp del: last.simps split: prod.splits)

lemma erase_shift_eq: "erase_shift P ns = (erase_first P ns, [])"
  by (rule prod_eqI) (simp_all add: erase_shift_nodes erase_shift_silent)

lemma remove_child_spec:
  "remove_child p d t =
     (let P = (\<lambda>n. parent_device_id n = p \<and> node_device_id n = d)
      in (\<exists>n \<in> set (nodes t). P n, [], t\<lparr>nodes := erase_first P (nodes t)\<rparr>))"
proof (cases "\<exists>n \<in> set (nodes t). parent_device_id n = p \<and> node_device_id n = d")
  case True
  then have "List.find (\<lambda>n. parent_device_id n = p \<and> node_device_id n = d) (nodes t) \<noteq> None"
    by (auto simp: find_None_iff)
  with True show ?thesis
    by (auto simp: remove_child_def Let_def erase_shift_eq)
next
  case False
  then have none: "List.find (\<lambda>n. parent_device_id n = p \<and> node_device_id n = d) (nodes t) = None"
    by (auto simp: find_None_iff)
  from False have "erase_first (\<lambda>n. parent_device_id n = p \<and> node_device_id n = d) (nodes t) = nodes t"
    by (intro erase_first_none) auto
  with False none show ?thesis by (auto simp: remove_child_def Let_def)
qed

text \<open>
  What \<open>std::remove_if\<close> leaves: in front, the nodes that stay, in order; behind, slot by slot, a
  node that goes or a moved-from one.
\<close>

lemma remove_if_loop_result:
  assumes "gap = map (\<lambda>n. if P n then n else moved_from n) (drop (length kept) pre)"
    and "kept = filter (\<lambda>n. \<not> P n) pre"
  shows "remove_if_loop P kept gap ns =
    (filter (\<lambda>n. \<not> P n) (pre @ ns),
     map (\<lambda>n. if P n then n else moved_from n)
       (drop (length (filter (\<lambda>n. \<not> P n) (pre @ ns))) (pre @ ns)))"
  using assms
proof (induction ns arbitrary: kept gap pre)
  case Nil
  then show ?case by simp
next
  case (Cons n ns)
  have len: "length kept \<le> length pre"
    using Cons.prems(2) by simp
  show ?case
  proof (cases "P n")
    case True
    then show ?thesis
      using Cons.IH [of "gap @ [n]" kept "pre @ [n]"] Cons.prems len by simp
  next
    case False
    show ?thesis
    proof (cases "gap = []")
      case True
      with Cons.prems(1) len have "length pre = length kept" by simp
      with False True show ?thesis
        using Cons.IH [of "[]" "kept @ [n]" "pre @ [n]"] Cons.prems by simp
    next
      case gap: False
      with Cons.prems(1) have "length kept < length pre" by simp
      then have "drop (length (kept @ [n])) (pre @ [n]) = tl (drop (length kept) pre) @ [n]"
        by (simp add: drop_Suc drop_tl)
      with False gap show ?thesis
        using Cons.IH [of "tl gap @ [moved_from n]" "kept @ [n]" "pre @ [n]"] Cons.prems
        by (simp add: map_tl)
    qed
  qed
qed

lemma destroy_slots:
  "concat (map destroy_node (map (\<lambda>n. if P n then n else moved_from n) ns))
   = List.map_filter func (filter P ns)"
  by (induction ns)
    (auto simp: destroy_node_def moved_from_def map_filter_def split: option.splits)

lemma remove_parent_spec:
  "remove_parent p t =
     (let gone = (\<lambda>n. parent_device_id n = p); stay = filter (\<lambda>n. \<not> gone n) (nodes t)
      in (\<exists>n \<in> set (nodes t). gone n,
          List.map_filter func (filter gone (drop (length stay) (nodes t))),
          t\<lparr>nodes := stay\<rparr>))"
proof -
  let ?gone = "\<lambda>n::'a node. parent_device_id n = p"
  let ?stay = "filter (\<lambda>n. \<not> ?gone n) (nodes t)"
  have loop: "remove_if_loop ?gone [] [] (nodes t) =
      (?stay, map (\<lambda>n. if ?gone n then n else moved_from n) (drop (length ?stay) (nodes t)))"
    using remove_if_loop_result [of "[]" ?gone "[]" "[]" "nodes t"] by simp
  have "drop (length ?stay) (nodes t) \<noteq> [] \<longleftrightarrow> length ?stay < length (nodes t)"
    by (simp add: not_le)
  also have "\<dots> \<longleftrightarrow> (\<exists>n \<in> set (nodes t). ?gone n)"
    using length_filter_less [of _ "nodes t" "\<lambda>n. \<not> ?gone n"]
    by (metis (mono_tags, lifting) filter_True less_irrefl)
  finally show ?thesis
    using loop by (simp add: remove_parent_def Let_def destroy_slots del: map_map)
qed

lemmas tree_op_specs = remove_child_spec remove_parent_spec

section \<open>Abstraction: a partial map from devices to their parents\<close>

definition tree_map :: "'cb device_tree \<Rightarrow> device_id \<Rightarrow> device_id option" where
  "tree_map t = (\<lambda>d. parent_of d t)"

fun parent_map_step :: "'cb tree_op \<Rightarrow> (device_id \<Rightarrow> device_id option) \<Rightarrow> device_id \<Rightarrow> device_id option"
where
  "parent_map_step (AddChild p d cb) m = (if m d = None then m(d := Some p) else m)"
| "parent_map_step (RemoveChild p d) m = (if m d = Some p then m(d := None) else m)"
| "parent_map_step (RemoveParent p) m = (\<lambda>d. if m d = Some p then None else m d)"

lemma parent_of_None: "parent_of d t = None \<longleftrightarrow> d \<notin> node_device_id ` set (nodes t)"
  by (auto simp: parent_of_def find_None_iff image_iff split: option.splits dest: find_Some_set)

lemma parent_of_member:
  assumes "tree_inv t" and "n \<in> set (nodes t)"
  shows "parent_of (node_device_id n) t = Some (parent_device_id n)"
  using find_key_distinct [of node_device_id "nodes t" n] assms
  by (simp add: parent_of_def tree_inv_def)

lemma parent_of_Some:
  assumes "tree_inv t"
  shows "parent_of d t = Some p \<longleftrightarrow>
    (\<exists>n \<in> set (nodes t). node_device_id n = d \<and> parent_device_id n = p)"
proof
  assume "parent_of d t = Some p"
  then show "\<exists>n \<in> set (nodes t). node_device_id n = d \<and> parent_device_id n = p"
    by (auto simp: parent_of_def split: option.splits dest: find_Some_set)
next
  assume "\<exists>n \<in> set (nodes t). node_device_id n = d \<and> parent_device_id n = p"
  then show "parent_of d t = Some p" using parent_of_member [OF assms] by blast
qed

lemma parent_of_ext:
  assumes "tree_inv t" and "tree_inv t'"
    and "\<And>d p. (\<exists>n \<in> set (nodes t'). node_device_id n = d \<and> parent_device_id n = p)
      \<longleftrightarrow> m d = Some p"
  shows "tree_map t' = m"
proof (rule ext, rule option.expand)
  have eq: "parent_of d t' = Some p \<longleftrightarrow> m d = Some p" for d p
    using parent_of_Some [OF assms(2)] assms(3) by simp
  fix d
  show "(tree_map t' d = None) = (m d = None)"
    using eq [of d] by (cases "m d"; cases "parent_of d t'") (auto simp: tree_map_def)
  show "tree_map t' d \<noteq> None \<Longrightarrow> m d \<noteq> None \<Longrightarrow> the (tree_map t' d) = the (m d)"
    using eq [of d "the (m d)"] by (auto simp: tree_map_def)
qed

lemma add_child_nodes:
  "nodes (snd (add_child p d cb t)) =
     (if tree_map t d = None
      then nodes t @ [\<lparr>parent_device_id = p, node_device_id = d, func = cb\<rparr>] else nodes t)"
  by (auto simp: add_child_def tree_map_def parent_of_def split: option.splits)

lemma add_child_fst: "fst (add_child p d cb t) \<longleftrightarrow> tree_map t d = None \<or> tree_map t d = Some p"
  by (auto simp: add_child_def tree_map_def parent_of_def split: option.splits)

lemma tree_inv_empty: "tree_inv empty_tree"
  by (simp add: tree_inv_def empty_tree_def)

lemma tree_inv_step: "tree_inv t \<Longrightarrow> tree_inv (tree_step op t)"
proof (cases op)
  case (AddChild p d cb)
  assume "tree_inv t"
  then show ?thesis
    using AddChild by (auto simp: tree_inv_def add_child_nodes tree_map_def parent_of_None)
next
  case (RemoveChild p d)
  assume "tree_inv t"
  then show ?thesis
    using RemoveChild by (simp add: tree_inv_def remove_child_spec Let_def distinct_map_erase_first)
next
  case (RemoveParent p)
  assume "tree_inv t"
  then show ?thesis
    using RemoveParent by (simp add: tree_inv_def remove_parent_spec Let_def distinct_map_filter)
qed

lemma tree_reachable_inv: "tree_reachable t \<Longrightarrow> tree_inv t"
  by (induction rule: tree_reachable.induct) (auto intro: tree_inv_empty tree_inv_step)

lemma remove_child_nodes:
  assumes "tree_inv t"
  shows "nodes (snd (snd (remove_child p d t))) =
    filter (\<lambda>n. \<not> (parent_device_id n = p \<and> node_device_id n = d)) (nodes t)"
proof -
  have "erase_first (\<lambda>n. parent_device_id n = p \<and> node_device_id n = d) (nodes t) =
      filter (\<lambda>n. \<not> (parent_device_id n = p \<and> node_device_id n = d)) (nodes t)"
    by (rule erase_first_key_distinct [where k = node_device_id and a = d])
      (use assms in \<open>auto simp: tree_inv_def\<close>)
  then show ?thesis by (simp add: remove_child_spec Let_def)
qed

lemma remove_parent_nodes:
  "nodes (snd (snd (remove_parent p t))) = filter (\<lambda>n. parent_device_id n \<noteq> p) (nodes t)"
  by (simp add: remove_parent_spec Let_def)

lemma tree_inv_unique:
  assumes "tree_inv t" and "n \<in> set (nodes t)" and "n' \<in> set (nodes t)"
    and "node_device_id n = node_device_id n'"
  shows "parent_device_id n = parent_device_id n'"
  using parent_of_member [OF assms(1,2)] parent_of_member [OF assms(1,3)] assms(4) by simp

lemma tree_step_refines:
  assumes inv: "tree_inv t"
  shows "tree_map (tree_step op t) = parent_map_step op (tree_map t)"
proof (rule parent_of_ext [OF inv tree_inv_step [OF inv]])
  fix d q
  show "(\<exists>n \<in> set (nodes (tree_step op t)). node_device_id n = d \<and> parent_device_id n = q)
      \<longleftrightarrow> parent_map_step op (tree_map t) d = Some q"
    by (cases op)
      (auto simp: add_child_nodes remove_child_nodes [OF inv] remove_parent_nodes tree_map_def
        parent_of_Some [OF inv] parent_of_None image_iff dest: tree_inv_unique [OF inv])
qed

lemma set_all_children:
  assumes "tree_inv t"
  shows "set (all_children p t) = {d. tree_map t d = Some p}"
  using assms by (auto simp: all_children_def tree_map_def parent_of_Some image_iff)

lemma distinct_all_children: "tree_inv t \<Longrightarrow> distinct (all_children p t)"
  by (simp add: all_children_def tree_inv_def distinct_map_filter)

lemma tree_map_empty: "tree_map empty_tree = (\<lambda>d. None)"
  by (rule ext) (simp add: tree_map_def parent_of_def empty_tree_def)

section \<open>The interface its users rely on\<close>

text \<open>
  What the device loaders and the identity provider rely on: attaching a device under a parent,
  looking its parent up, listing the children of a parent.
\<close>

locale parent_directory =
  fixes inv :: "'t \<Rightarrow> bool"
    and view :: "'t \<Rightarrow> 'd \<Rightarrow> 'd option"
    and attach :: "'d \<Rightarrow> 'd \<Rightarrow> 't \<Rightarrow> 't"
    and children :: "'d \<Rightarrow> 't \<Rightarrow> 'd list"
  assumes attach_inv: "inv t \<Longrightarrow> inv (attach p d t)"
    and attach_view:
      "inv t \<Longrightarrow> view (attach p d t) = (if view t d = None then (view t)(d := Some p) else view t)"
    and children_view: "inv t \<Longrightarrow> set (children p t) = {d. view t d = Some p}"
begin

lemma attach_keeps: "inv t \<Longrightarrow> view t e = Some q \<Longrightarrow> view (attach p d t) e = Some q"
  by (auto simp: attach_view)

lemma attach_all_inv: "inv t \<Longrightarrow> inv (fold (attach p) ds t)"
  by (induction ds arbitrary: t) (simp_all add: attach_inv)

lemma attach_all_view:
  "inv t \<Longrightarrow> view (fold (attach p) ds t) =
     (\<lambda>d. if view t d = None \<and> d \<in> set ds then Some p else view t d)"
proof (induction ds arbitrary: t)
  case (Cons d ds)
  then show ?case
    using Cons.IH [OF attach_inv [OF Cons.prems, of p d]] by (auto simp: attach_view fun_eq_iff)
qed simp

lemma attach_all_children:
  assumes "inv t" and "\<And>d. d \<in> set ds \<Longrightarrow> view t d = None"
  shows "set (children p (fold (attach p) ds t)) = set (children p t) \<union> set ds"
  using assms by (auto simp: children_view attach_all_inv attach_all_view)

end

interpretation dtree: parent_directory
  "tree_inv :: 'cb device_tree \<Rightarrow> bool" tree_map
  "\<lambda>p d t. snd (add_child p d None t)" all_children
proof unfold_locales
  fix t :: "'cb device_tree" and p d
  assume inv: "tree_inv t"
  show "tree_inv (snd (add_child p d None t))"
    using tree_inv_step [OF inv, of "AddChild p d None"] by simp
  show "tree_map (snd (add_child p d None t)) =
      (if tree_map t d = None then (tree_map t)(d := Some p) else tree_map t)"
    using tree_step_refines [OF inv, of "AddChild p d None"] by simp
  show "set (all_children p t) = {d. tree_map t d = Some p}"
    by (rule set_all_children [OF inv])
qed

section \<open>Properties\<close>

text \<open>C9: In every tree the operations can build, each device has one parent, \<open>parent\<close> and
  \<open>all_children\<close> describe the same relation, and no child is listed twice.\<close>

theorem device_tree_consistent:
  assumes "tree_reachable t"
  shows "distinct (all_children p t) \<and> (d \<in> set (all_children p t) \<longleftrightarrow> parent_of d t = Some p)"
  using tree_reachable_inv [OF assms] by (simp add: distinct_all_children set_all_children tree_map_def)

theorem device_tree_consistent_witness:
  "7 \<in> set (all_children 1 (tree_step (AddChild 1 7 (Some ''cb'')) empty_tree))
   \<longleftrightarrow> parent_of 7 (tree_step (AddChild 1 7 (Some ''cb'')) empty_tree) = Some 1"
  using device_tree_consistent [OF tree_more [OF tree_start], where p = 1 and d = 7] by blast

text \<open>C10: The device tree implements a partial map from devices to parents: every operation acts
  on the vector of nodes as its abstract counterpart acts on the map, and its result says what the
  map says.\<close>

theorem device_tree_refines_map:
  assumes "tree_reachable t"
  shows "tree_map (tree_step op t) = parent_map_step op (tree_map t)
    \<and> (fst (add_child p d cb t) \<longleftrightarrow> parent_map_step (AddChild p d cb) (tree_map t) d = Some p)
    \<and> (fst (remove_child p d t) \<longleftrightarrow> tree_map t d = Some p)
    \<and> (fst (remove_parent p t) \<longleftrightarrow> (\<exists>c. tree_map t c = Some p))"
proof -
  have inv: "tree_inv t" by (rule tree_reachable_inv [OF assms])
  have "fst (remove_child p d t) \<longleftrightarrow> tree_map t d = Some p"
    by (auto simp: remove_child_spec Let_def tree_map_def parent_of_Some [OF inv])
  moreover have "fst (remove_parent p t) \<longleftrightarrow> (\<exists>c. tree_map t c = Some p)"
    by (auto simp: remove_parent_spec Let_def tree_map_def parent_of_Some [OF inv])
  moreover have "fst (add_child p d cb t) \<longleftrightarrow> parent_map_step (AddChild p d cb) (tree_map t) d = Some p"
    by (auto simp: add_child_fst)
  ultimately show ?thesis using tree_step_refines [OF inv] by blast
qed

theorem device_tree_refines_map_witness:
  "fst (remove_child 1 7 (tree_step (AddChild 1 7 (Some ''cb'')) empty_tree))
   \<longleftrightarrow> tree_map (tree_step (AddChild 1 7 (Some ''cb'')) empty_tree) 7 = Some 1"
  using device_tree_refines_map [OF tree_more [OF tree_start], where p = 1 and d = 7] by blast

text \<open>Removing a parent erases exactly its children and keeps the other nodes in order, but of
  the removal callbacks it runs only those of children stored behind as many slots as there are
  nodes that stay: the callback of a child in front of a surviving node is overwritten and lost. Removing a single child runs none.\<close>

theorem remove_parent_callbacks:
  "remove_parent p t =
     (let stay = filter (\<lambda>n. parent_device_id n \<noteq> p) (nodes t);
          tail_slots = drop (length stay) (nodes t)
      in (\<exists>n \<in> set (nodes t). parent_device_id n = p,
          List.map_filter func (filter (\<lambda>n. parent_device_id n = p) tail_slots),
          t\<lparr>nodes := stay\<rparr>))
   \<and> fst (snd (remove_child p d t)) = []"
  by (simp add: remove_parent_spec remove_child_spec Let_def)

text \<open>The callback of a removed child can be lost: with child 7 of parent 1 in front of child 8
  of parent 2, removing parent 1 removes child 7 and runs no callback.\<close>

theorem remove_parent_loses_callback:
  "\<exists>t :: string device_tree. tree_reachable t \<and> tree_map t 7 = Some 1
     \<and> (\<exists>n \<in> set (nodes t). node_device_id n = 7 \<and> func n = Some ''on parent removed'')
     \<and> fst (remove_parent 1 t) \<and> fst (snd (remove_parent 1 t)) = []
     \<and> tree_map (snd (snd (remove_parent 1 t))) 7 = None"
proof (intro exI conjI)
  let ?t = "tree_step (AddChild 2 8 None)
    (tree_step (AddChild 1 7 (Some ''on parent removed'')) empty_tree) :: string device_tree"
  show "tree_reachable ?t" by (intro tree_more tree_start)
qed (simp_all add: add_child_def empty_tree_def tree_map_def parent_of_def remove_parent_spec
    map_filter_def)

end
