(* ===== verification/Device_Register.thy ===== *)
theory Device_Register
  imports Device_Tree
begin

text \<open>
  The inventories of devices and their registration (\<^verbatim>\<open>device/inventory.hpp\<close>,
  \<^verbatim>\<open>device/device_register.hpp\<close>). Identifiers are handed out by one counter of type \<open>int\<close>, which
  wraps, and every registration takes one.
\<close>

section \<open>The inventory\<close>

type_synonym 'd inventory = "device_id \<Rightarrow> 'd option"

definition empty_inventory :: "'d inventory" where
  "empty_inventory = (\<lambda>_. None)"

definition inventory_exists :: "device_id \<Rightarrow> 'd inventory \<Rightarrow> bool" where
  "inventory_exists i m \<longleftrightarrow> m i \<noteq> None"

definition inventory_emplace :: "device_id \<Rightarrow> 'd result \<Rightarrow> ('d inventory, unit) eff" where
  "inventory_emplace i d = (\<lambda>m.
     if inventory_exists i m then (Inl (Runtime_error ''Duplicate instance of the key''), m)
     else case d of Inl x \<Rightarrow> (Inl x, m) | Inr d \<Rightarrow> (Inr (), m(i \<mapsto> d)))"

definition inventory_add :: "device_id \<Rightarrow> 'd \<Rightarrow> ('d inventory, unit) eff" where
  "inventory_add i d = (\<lambda>m.
     if inventory_exists i m then (Inl (Runtime_error ''Duplicate instance of the key''), m)
     else (Inr (), m(i \<mapsto> d)))"

definition inventory_get :: "device_id \<Rightarrow> 'd inventory \<Rightarrow> 'd result" where
  "inventory_get i m =
     (case m i of None \<Rightarrow> Inl (Runtime_error ''Device does not exist'') | Some d \<Rightarrow> Inr d)"

definition inventory_remove :: "device_id \<Rightarrow> 'd inventory \<Rightarrow> 'd inventory" where
  "inventory_remove i m = m(i := None)"

section \<open>Registration\<close>

record 'd registry =
  next_id :: device_id
  inventory :: "'d inventory"

definition new_registry :: "'d registry" where
  "new_registry = \<lparr>next_id = 1, inventory = empty_inventory\<rparr>"

definition new_id :: "('d registry, device_id) eff" where
  "new_id = (\<lambda>r. (Inr (next_id r), r\<lparr>next_id := next_id r + 1\<rparr>))"

definition on_inventory :: "('d inventory, 'a) eff \<Rightarrow> ('d registry, 'a) eff" where
  "on_inventory f = (\<lambda>r. case f (inventory r) of (x, m) \<Rightarrow> (x, r\<lparr>inventory := m\<rparr>))"

definition register_device :: "'d \<Rightarrow> ('d registry, device_id) eff" where
  "register_device d =
     eff_bind new_id (\<lambda>i. eff_bind (on_inventory (inventory_add i d)) (\<lambda>_. eff_return i))"

text \<open>The other overload constructs the device in place; its constructor may throw.\<close>

definition register_device_args :: "'d result \<Rightarrow> ('d registry, device_id) eff" where
  "register_device_args d =
     eff_bind new_id (\<lambda>i. eff_bind (on_inventory (inventory_emplace i d)) (\<lambda>_. eff_return i))"

definition get_device :: "device_id \<Rightarrow> 'd registry \<Rightarrow> 'd result" where
  "get_device i r = inventory_get i (inventory r)"

definition deregister_device :: "device_id \<Rightarrow> 'd registry \<Rightarrow> 'd registry" where
  "deregister_device i r = r\<lparr>inventory := inventory_remove i (inventory r)\<rparr>"

section \<open>Runs\<close>

text \<open>Reachable registries, with the number of identifiers taken so far.\<close>

inductive registry_reachable :: "nat \<Rightarrow> 'd registry \<Rightarrow> bool" where
  registry_start: "registry_reachable 0 new_registry"
| registry_register: "registry_reachable n r \<Longrightarrow> registry_reachable (Suc n) (snd (register_device d r))"
| registry_register_args:
    "registry_reachable n r \<Longrightarrow> registry_reachable (Suc n) (snd (register_device_args a r))"
| registry_deregister: "registry_reachable n r \<Longrightarrow> registry_reachable n (deregister_device i r)"

definition taken_ids :: "nat \<Rightarrow> device_id set" where
  "taken_ids n = {of_nat k | k. 1 \<le> k \<and> k \<le> n}"

definition registry_inv :: "nat \<Rightarrow> 'd registry \<Rightarrow> bool" where
  "registry_inv n r \<longleftrightarrow> next_id r = of_nat (Suc n) \<and> dom (inventory r) \<subseteq> taken_ids n"

lemma taken_ids_mono: "taken_ids n \<subseteq> taken_ids (Suc n)"
  by (auto simp: taken_ids_def)

lemma taken_ids_new: "of_nat (Suc n) \<in> taken_ids (Suc n)"
  unfolding taken_ids_def by (intro CollectI exI [of _ "Suc n"]) simp

lemma taken_ids_fresh:
  assumes "Suc n < 2 ^ 32"
  shows "(of_nat (Suc n) :: device_id) \<notin> taken_ids n"
proof
  assume "(of_nat (Suc n) :: device_id) \<in> taken_ids n"
  then obtain k where "(of_nat (Suc n) :: device_id) = of_nat k" "k \<le> n" by (auto simp: taken_ids_def)
  then show False using assms by (simp only: word_of_nat_eq_iff take_bit_eq_mod) simp
qed

lemma register_device_eq:
  "register_device d r =
    (if inventory r (next_id r) = None
     then (Inr (next_id r), \<lparr>next_id = next_id r + 1, inventory = (inventory r)(next_id r \<mapsto> d)\<rparr>)
     else (Inl (Runtime_error ''Duplicate instance of the key''), r\<lparr>next_id := next_id r + 1\<rparr>))"
  by (cases r) (simp add: register_device_def eff_bind_def new_id_def on_inventory_def inventory_add_def
      inventory_exists_def eff_return_def)

lemma register_device_args_eq:
  "register_device_args a r =
    (if inventory r (next_id r) \<noteq> None
     then (Inl (Runtime_error ''Duplicate instance of the key''), r\<lparr>next_id := next_id r + 1\<rparr>)
     else case a of Inl x \<Rightarrow> (Inl x, r\<lparr>next_id := next_id r + 1\<rparr>) | Inr d \<Rightarrow> register_device d r)"
  by (cases r) (simp add: register_device_args_def register_device_eq eff_bind_def new_id_def
      on_inventory_def inventory_emplace_def inventory_exists_def eff_return_def split: sum.split)

lemma registry_inv_reachable: "registry_reachable n r \<Longrightarrow> registry_inv n r"
proof (induction rule: registry_reachable.induct)
  case registry_start
  then show ?case by (simp add: registry_inv_def new_registry_def empty_inventory_def)
next
  case (registry_register n r d)
  then show ?case
    using taken_ids_mono [of n] taken_ids_new [of n]
    by (auto simp: registry_inv_def register_device_eq)
next
  case (registry_register_args n r a)
  then show ?case
    using taken_ids_mono [of n] taken_ids_new [of n]
    by (auto simp: registry_inv_def register_device_args_eq register_device_eq split: sum.split)
next
  case (registry_deregister n r i)
  then show ?case by (auto simp: registry_inv_def deregister_device_def inventory_remove_def)
qed

section \<open>Properties\<close>

text \<open>C36: As long as fewer than \<open>2^32 - 1\<close> identifiers were taken, a registration always succeeds with
  an identifier no device of the registry has or had; the device is found under it, and every other
  identifier answers as before. A device whose construction fails takes its identifier with it.\<close>

theorem registration_is_fresh:
  assumes "registry_reachable n r" and "Suc n < 2 ^ 32"
  shows "\<exists>r'. register_device d r = (Inr (of_nat (Suc n)), r')
    \<and> get_device (of_nat (Suc n)) r = Inl (Runtime_error ''Device does not exist'')
    \<and> get_device (of_nat (Suc n)) r' = Inr d
    \<and> (\<forall>i. i = of_nat (Suc n) \<or> get_device i r' = get_device i r)
    \<and> registry_reachable (Suc n) r'
    \<and> (let (res, r'') = register_device_args (Inl x) r in res = Inl x \<and> inventory r'' = inventory r
         \<and> next_id r'' = next_id r')"
proof -
  from registry_inv_reachable [OF assms(1)] have nxt: "next_id r = of_nat (Suc n)"
    and dom: "dom (inventory r) \<subseteq> taken_ids n"
    by (simp_all add: registry_inv_def)
  then have none: "inventory r (of_nat (Suc n)) = None"
    using taken_ids_fresh [OF assms(2)] by blast
  let ?r = "\<lparr>next_id = next_id r + 1, inventory = (inventory r)(of_nat (Suc n) \<mapsto> d)\<rparr>"
  have reg: "register_device d r = (Inr (of_nat (Suc n)), ?r)"
    by (simp only: register_device_eq nxt none) simp
  moreover have "registry_reachable (Suc n) ?r"
    using registry_reachable.registry_register [OF assms(1), of d] by (simp only: reg snd_conv)
  moreover have "register_device_args (Inl x) r = (Inl x, r\<lparr>next_id := next_id r + 1\<rparr>)"
    by (simp only: register_device_args_eq nxt none) simp
  ultimately show ?thesis
    using none by (intro exI [of _ ?r]) (simp add: get_device_def inventory_get_def)
qed

theorem registration_is_fresh_witness:
  "\<exists>r'. register_device ''hatch'' (snd (register_device ''board'' new_registry)) = (Inr 2, r')
    \<and> get_device 2 r' = Inr ''hatch'' \<and> registry_reachable 2 r'"
proof -
  have one: "registry_reachable (Suc 0) (snd (register_device ''board'' new_registry))"
    by (intro registry_reachable.intros)
  have "Suc (Suc 0) < 2 ^ 32" by simp
  from registration_is_fresh [OF one this, of "''hatch''"] show ?thesis
    by (auto simp: numeral_2_eq_2)
qed

end
