(* ===== verification/Ha_Devices.thy ===== *)
theory Ha_Devices
  imports Entity_Adapter Devices Device_Register
begin

text \<open>
  The devices as Home Assistant sees them (\<^verbatim>\<open>home_assistant_adapter/device/*.cpp\<close>,
  \<^verbatim>\<open>home_assistant/device_identity_provider.hpp\<close>, \<^verbatim>\<open>home_assistant/adapter/unique_id.hpp\<close>,
  \<^verbatim>\<open>home_assistant/entity_factory.hpp\<close>, \<^verbatim>\<open>home_assistant/client_factory.hpp\<close>): their identity, their
  entities, and what the adapter asks of them.
\<close>

section \<open>Identity\<close>

type_synonym hardware_identity_store = "device_id \<Rightarrow> hardware_identity option"

definition get_hardware_identity ::
    "hardware_identity_store \<Rightarrow> 'cb device_tree \<Rightarrow> device_id \<Rightarrow> hardware_identity result" where
  "get_hardware_identity hs t i =
     (let get = (\<lambda>j. case hs j of
          None \<Rightarrow> Inl (Runtime_error ''Cannot get HardwareIdentity for requested device id'')
        | Some h \<Rightarrow> Inr h)
      in if hs i \<noteq> None then get i
         else case parent_of i t of
           None \<Rightarrow> Inl (Runtime_error ''Cannot get DeviceInfo - parent does not exist'')
         | Some p \<Rightarrow> get p)"

definition identity_of ::
    "hardware_identity_store \<Rightarrow> 'cb device_tree \<Rightarrow> device_id \<Rightarrow> device_identity result" where
  "identity_of hs t i =
     result_map (\<lambda>h. \<lparr>manufacturer = hwid_manufacturer h, model = hwid_model h,
         serial_number = hwid_serial_number h, hw_revision = hwid_revision h, sw_revision = ''Sw rev default''\<rparr>)
       (get_hardware_identity hs t i)"

definition get_unique_id :: "device_id \<Rightarrow> device_identity \<Rightarrow> string" where
  "get_unique_id i d = serial_number d @ ''_'' @ int_to_string (sint i)"

section \<open>Clients and entities\<close>

record broker_config =
  broker_username :: string
  broker_password :: string
  broker_host :: string
  broker_port :: string
  broker_keep_alive :: "16 word"
  broker_max_attempts :: int
  broker_reconnect_delay :: int

definition create_client :: "broker_config \<Rightarrow> 'e \<Rightarrow> string \<Rightarrow> 'e client" where
  "create_client b e uid = new_client
     \<lparr>unique_id = uid, username = broker_username b, password = broker_password b, host = broker_host b,
      port = broker_port b, clean_session = True, keep_alive = broker_keep_alive b,
      config_max_attempts = broker_max_attempts b, config_reconnect_delay = broker_reconnect_delay b\<rparr> e"

definition create_cover :: "broker_config \<Rightarrow> 'e \<Rightarrow> string \<Rightarrow> 'e client topic_entity" where
  "create_cover b e uid = new_cover uid (create_client b e uid)"

definition create_binary_sensor :: "broker_config \<Rightarrow> 'e \<Rightarrow> string \<Rightarrow> 'e client topic_entity" where
  "create_binary_sensor b e uid = new_binary_sensor uid (create_client b e uid)"

definition create_button :: "broker_config \<Rightarrow> 'e \<Rightarrow> string \<Rightarrow> 'e client topic_entity" where
  "create_button b e uid = new_button uid (create_client b e uid)"

definition create_sensor :: "broker_config \<Rightarrow> 'e \<Rightarrow> string \<Rightarrow> 'e client topic_entity" where
  "create_sensor b e uid = new_sensor uid (create_client b e uid)"

section \<open>The world of the devices\<close>

text \<open>The inventories, the file system, and how often a restart was asked for.\<close>

record ha_world =
  world_hatches :: "sysfs_hatch inventory"
  world_boards :: "main_board inventory"
  world_sensors :: "temp_sensor inventory"
  world_fs :: fs
  restarts :: nat

definition device_at :: "(ha_world \<Rightarrow> 'd inventory) \<Rightarrow> device_id \<Rightarrow> (ha_world, 'd) co" where
  "device_at devs i = (\<lambda>w. Some (inventory_get i (devs w), w))"

definition on_fs :: "'a fs_op \<Rightarrow> (ha_world, 'a) co" where
  "on_fs m = (\<lambda>w. map_option (\<lambda>(r, f). (r, w\<lparr>world_fs := f\<rparr>)) (m (world_fs w)))"

definition board_restart :: "main_board \<Rightarrow> (ha_world, unit) co" where
  "board_restart b = (\<lambda>w. co_return () (w\<lparr>restarts := restarts w + 1\<rparr>))"

section \<open>Hatch\<close>

text \<open>The variant \<open>CoverCommand\<close>.\<close>

datatype cover_request = Switch_command cover_command | Tilt_command

definition hatch_config :: "device_identity \<Rightarrow> entity_config" where
  "hatch_config d =
     (let c = config_set ''name'' (J_string ''Cover'') empty_config;
          c = config_set ''device_class'' (J_string ''door'') c;
          c = config_set ''device'' (entity_config_basic_device d) c
      in config_set ''payload_stop'' J_null c)"

definition hatch_cover_state :: "device_id \<Rightarrow> (ha_world, cover_state) co" where
  "hatch_cover_state i =
     co_bind (device_at world_hatches i) (\<lambda>h.
     co_bind (on_fs (hatch_status h)) (\<lambda>st.
       co_return (case st of Hatch_open \<Rightarrow> Open | Hatch_closed \<Rightarrow> Closed | _ \<Rightarrow> Undefined)))"

definition hatch_handle :: "device_id \<Rightarrow> cover_request \<Rightarrow> (ha_world, unit) co" where
  "hatch_handle i r =
     (case r of
        Tilt_command \<Rightarrow> co_return ()
      | Switch_command cmd \<Rightarrow>
          co_bind (device_at world_hatches i) (\<lambda>h.
          co_bind (on_fs (hatch_status h)) (\<lambda>st.
            on_fs (case cmd of Command_open \<Rightarrow> hatch_open h | Command_close \<Rightarrow> hatch_close h
              | Command_stop \<Rightarrow> co_return ()))))"

definition hatch_impl ::
    "'c client_ops \<Rightarrow> json_lib \<Rightarrow> bool \<Rightarrow> nat \<Rightarrow> (int \<Rightarrow> (ha_world, unit) co) \<Rightarrow> device_id \<Rightarrow> device_identity
      \<Rightarrow> ('c topic_entity, ha_world, cover_request, cover_state) adapter_impl" where
  "hatch_impl K L release m wait i d =
     \<lparr>im_connect = entity_connect K, im_will = entity_set_will K,
      im_availability_topic = (\<lambda>s. entity_topic s ''availability_topic''),
      im_configure = cover_configure K L, im_availability = entity_set_availability K,
      im_set_state = cover_set_state K,
      im_receive = co_bind (cover_receive K release m) (\<lambda>r. co_return (map_sum id Switch_command r)),
      im_config = hatch_config d, im_state = Some (hatch_cover_state i), im_handle = hatch_handle i,
      im_wait = wait\<rparr>"

section \<open>Temperature sensor\<close>

text \<open>The unit is a degree sign in UTF-8 and C. The device has no commands.\<close>

definition temp_config :: "device_identity \<Rightarrow> entity_config" where
  "temp_config d =
     (let c = config_set ''name'' (J_string ''Temp sensor'') empty_config;
          c = config_set ''device_class'' (J_string ''temperature'') c;
          c = config_set ''unit_of_measurement'' (J_string (CHR 0xC2 # CHR 0xB0 # ''C'')) c
      in config_set ''device'' (entity_config_basic_device d) c)"

definition temp_state :: "'f floats \<Rightarrow> device_id \<Rightarrow> (ha_world, string) co" where
  "temp_state F i =
     co_bind (device_at world_sensors i) (\<lambda>t.
     co_bind (on_fs (temp_sensor_value F t)) (\<lambda>v. co_return (one_decimal F v)))"

definition temp_impl ::
    "'f floats \<Rightarrow> 'c client_ops \<Rightarrow> json_lib \<Rightarrow> nat \<Rightarrow> (int \<Rightarrow> (ha_world, unit) co) \<Rightarrow> device_id \<Rightarrow> device_identity
      \<Rightarrow> ('c topic_entity, ha_world, unit, string) adapter_impl" where
  "temp_impl F K L m wait i d =
     \<lparr>im_connect = entity_connect K, im_will = entity_set_will K,
      im_availability_topic = (\<lambda>s. entity_topic s ''availability_topic''),
      im_configure = sensor_configure K L, im_availability = entity_set_availability K,
      im_set_state = sensor_set_state K,
      im_receive = co_bind (sensor_receive K m) (\<lambda>e. co_return (Inl e)),
      im_config = temp_config d, im_state = Some (temp_state F i), im_handle = (\<lambda>v. co_return ()),
      im_wait = wait\<rparr>"

section \<open>Main board\<close>

definition indicator_number :: "indicator_type \<Rightarrow> int" where
  "indicator_number t = (case t of Status \<Rightarrow> 0 | Warning \<Rightarrow> 1 | Fault \<Rightarrow> 2 | Maintenance \<Rightarrow> 3)"

definition indicator_unique_id :: "device_id \<Rightarrow> indicator_type \<Rightarrow> device_identity \<Rightarrow> string" where
  "indicator_unique_id i t d = get_unique_id i d @ ''_i_'' @ int_to_string (indicator_number t)"

definition indicator_config :: "indicator_type \<Rightarrow> device_identity \<Rightarrow> entity_config" where
  "indicator_config t d =
     config_set ''device'' (entity_config_basic_device d)
       (config_set ''name'' (J_string (indicator_type_string t @ '' Indicator'')) empty_config)"

definition indicator_sensor_state :: "device_id \<Rightarrow> indicator_type \<Rightarrow> (ha_world, binary_sensor_state) co" where
  "indicator_sensor_state i t =
     co_bind (device_at world_boards i) (\<lambda>b.
     co_bind (on_fs (board_indicator_state b t)) (\<lambda>st.
       co_return (case st of On \<Rightarrow> Sensor_on | _ \<Rightarrow> Sensor_off)))"

definition indicator_impl ::
    "'c client_ops \<Rightarrow> json_lib \<Rightarrow> nat \<Rightarrow> (int \<Rightarrow> (ha_world, unit) co) \<Rightarrow> device_id \<Rightarrow> indicator_type
      \<Rightarrow> device_identity \<Rightarrow> ('c topic_entity, ha_world, unit, binary_sensor_state) adapter_impl" where
  "indicator_impl K L m wait i t d =
     \<lparr>im_connect = entity_connect K, im_will = entity_set_will K,
      im_availability_topic = (\<lambda>s. entity_topic s ''availability_topic''),
      im_configure = binary_sensor_configure K L, im_availability = entity_set_availability K,
      im_set_state = binary_sensor_set_state K,
      im_receive = co_bind (binary_sensor_receive K m) (\<lambda>e. co_return (Inl e)),
      im_config = indicator_config t d, im_state = Some (indicator_sensor_state i t),
      im_handle = (\<lambda>v. co_return ()), im_wait = wait\<rparr>"

definition button_unique_id :: "device_id \<Rightarrow> device_identity \<Rightarrow> string" where
  "button_unique_id i d = get_unique_id i d @ ''_restart_btn''"

definition button_config :: "device_identity \<Rightarrow> entity_config" where
  "button_config d =
     (let c = config_set ''name'' (J_string ''Restart board'') empty_config;
          c = config_set ''device_class'' (J_string ''restart'') c
      in config_set ''device'' (entity_config_basic_device d) c)"

definition button_handle :: "device_id \<Rightarrow> (ha_world, unit) co" where
  "button_handle i = co_bind (device_at world_boards i) board_restart"

text \<open>A button has no state to synchronise.\<close>

definition button_impl ::
    "'c client_ops \<Rightarrow> json_lib \<Rightarrow> nat \<Rightarrow> (int \<Rightarrow> (ha_world, unit) co) \<Rightarrow> device_id
      \<Rightarrow> device_identity \<Rightarrow> ('c topic_entity, ha_world, unit, unit) adapter_impl" where
  "button_impl K L m wait i d =
     \<lparr>im_connect = entity_connect K, im_will = entity_set_will K,
      im_availability_topic = (\<lambda>s. entity_topic s ''availability_topic''),
      im_configure = button_configure K L, im_availability = entity_set_availability K,
      im_set_state = (\<lambda>st opts. co_return no_error), im_receive = button_receive K m,
      im_config = button_config d, im_state = None, im_handle = (\<lambda>v. button_handle i),
      im_wait = wait\<rparr>"

section \<open>Creating devices\<close>

text \<open>The common part of the \<open>async_create\<close>s: an entity of its own, its will, and \<open>async_init\<close>.\<close>

definition create_adapter :: "('s, 'w, 'v, 'st) adapter_impl \<Rightarrow> 's \<Rightarrow> ('w, 's option) co" where
  "create_adapter I s = (\<lambda>w.
     case new_adapter I s of
       Inl x \<Rightarrow> Some (Inl x, w)
     | Inr s0 \<Rightarrow>
         map_option (\<lambda>(r, a). (result_map (\<lambda>ok. if ok then Some (adapted_entity a) else None) r, world a))
           (async_init I \<lparr>adapted_entity = s0, world = w\<rparr>))"

text \<open>
  What every creation needs: the operations of a client, the JSON library, whether assertions are
  compiled out, the fuel of receiving, waiting, the broker, a fresh network environment, and the
  identities. A client is that of the MQTT client over its network.
\<close>

record ('e, 'f, 'cb) services =
  sv_net :: "'e net"
  sv_fuel :: nat
  sv_json :: json_lib
  sv_release :: bool
  sv_wait :: "int \<Rightarrow> (ha_world, unit) co"
  sv_floats :: "'f floats"
  sv_broker :: broker_config
  sv_env :: 'e
  sv_store :: hardware_identity_store
  sv_tree :: "'cb device_tree"

definition services_identity :: "('e, 'f, 'cb) services \<Rightarrow> device_id \<Rightarrow> device_identity result" where
  "services_identity V i = identity_of (sv_store V) (sv_tree V) i"

definition services_ops :: "('e, 'f, 'cb) services \<Rightarrow> 'e client client_ops" where
  "services_ops V = mqtt_ops (sv_net V) (sv_fuel V)"

definition hatch_of where
  "hatch_of V = hatch_impl (services_ops V) (sv_json V) (sv_release V) (sv_fuel V) (sv_wait V)"

definition temp_of where
  "temp_of V = temp_impl (sv_floats V) (services_ops V) (sv_json V) (sv_fuel V) (sv_wait V)"

definition indicator_of where
  "indicator_of V = indicator_impl (services_ops V) (sv_json V) (sv_fuel V) (sv_wait V)"

definition button_of where
  "button_of V = button_impl (services_ops V) (sv_json V) (sv_fuel V) (sv_wait V)"

definition hatch_create ::
    "('e, 'f, 'cb) services \<Rightarrow> device_id \<Rightarrow> (ha_world, (device_identity \<times> 'e client topic_entity) option) co" where
  "hatch_create V i =
     co_bind (co_result (services_identity V i)) (\<lambda>d.
     co_bind (create_adapter (hatch_of V i d) (create_cover (sv_broker V) (sv_env V) (get_unique_id i d)))
       (\<lambda>r. co_return (map_option (Pair d) r)))"

definition temp_create ::
    "('e, 'f, 'cb) services \<Rightarrow> device_id \<Rightarrow> (ha_world, (device_identity \<times> 'e client topic_entity) option) co" where
  "temp_create V i =
     co_bind (co_result (services_identity V i)) (\<lambda>d.
     co_bind (create_adapter (temp_of V i d) (create_sensor (sv_broker V) (sv_env V) (get_unique_id i d)))
       (\<lambda>r. co_return (map_option (Pair d) r)))"

definition indicator_create ::
    "('e, 'f, 'cb) services \<Rightarrow> device_id \<Rightarrow> indicator_type \<Rightarrow> device_identity
      \<Rightarrow> (ha_world, 'e client topic_entity option) co" where
  "indicator_create V i t d =
     co_bind (device_at world_boards i) (\<lambda>b.
     co_bind (on_fs (board_indicator_state b t)) (\<lambda>st.
       if st = Not_available then co_return None
       else create_adapter (indicator_of V i t d)
         (create_binary_sensor (sv_broker V) (sv_env V) (indicator_unique_id i t d))))"

definition button_create ::
    "('e, 'f, 'cb) services \<Rightarrow> device_id \<Rightarrow> device_identity \<Rightarrow> (ha_world, 'e client topic_entity option) co" where
  "button_create V i d =
     create_adapter (button_of V i d) (create_button (sv_broker V) (sv_env V) (button_unique_id i d))"

text \<open>A main board: its identifier and identity, its indicators by type, and its restart button.\<close>

record 's ha_board =
  ha_indicators :: "indicator_type \<Rightarrow> 's option"
  ha_button :: 's

definition board_create ::
    "('e, 'f, 'cb) services \<Rightarrow> device_id \<Rightarrow> (ha_world, 'e client topic_entity ha_board option) co" where
  "board_create V i =
     co_bind (co_result (services_identity V i)) (\<lambda>d.
     co_bind (indicator_create V i Fault d) (\<lambda>f.
     co_bind (indicator_create V i Status d) (\<lambda>s.
     co_bind (indicator_create V i Warning d) (\<lambda>w.
     co_bind (indicator_create V i Maintenance d) (\<lambda>m.
       if f = None \<or> s = None \<or> w = None \<or> m = None then co_return None
       else co_bind (button_create V i d) (\<lambda>b.
         case b of
           None \<Rightarrow> co_return None
         | Some b \<Rightarrow> co_return (Some \<lparr>ha_indicators = Map.empty(Fault := f, Status := s, Warning := w,
             Maintenance := m), ha_button = b\<rparr>)))))))"

text \<open>The indicators in the order the hash map holds them in.\<close>

fun board_sync_state ::
    "('e, 'f, 'cb) services \<Rightarrow> device_id \<Rightarrow> device_identity \<Rightarrow> indicator_type list
      \<Rightarrow> (('e client topic_entity ha_board, ha_world) adapter, unit) co" where
  "board_sync_state V i d [] = co_return ()"
| "board_sync_state V i d (t # ts) = (\<lambda>a.
     case ha_indicators (adapted_entity a) t of
       None \<Rightarrow> board_sync_state V i d ts a
     | Some s \<Rightarrow>
         (case sync_state (indicator_of V i t d) \<lparr>adapted_entity = s, world = world a\<rparr> of
            None \<Rightarrow> None
          | Some (r, b) \<Rightarrow>
              let a' = \<lparr>adapted_entity = (adapted_entity a)
                  \<lparr>ha_indicators := (ha_indicators (adapted_entity a))(t \<mapsto> adapted_entity b)\<rparr>, world = world b\<rparr>
              in (case r of Inl x \<Rightarrow> Some (Inl x, a') | Inr y \<Rightarrow> board_sync_state V i d ts a')))"

section \<open>The entities keep the contract\<close>

text \<open>What is asked of a client: it keeps the will it was given.\<close>

locale willed_client =
  fixes K :: "'c client_ops" and client_will :: "'c \<Rightarrow> will_config option"
  assumes will_set: "client_will (op_set_will K wc c) = Some wc"
    and will_connect: "co_keeps (\<lambda>c. client_will c = v) (op_connect K)"
    and will_receive: "co_keeps (\<lambda>c. client_will c = v) (op_receive K)"
    and will_publish: "co_keeps (\<lambda>c. client_will c = v) (op_publish K t p opts)"
    and will_subscribe: "co_keeps (\<lambda>c. client_will c = v) (op_subscribe K ts)"
begin

definition kept :: "will_config option \<Rightarrow> string \<Rightarrow> ('c, 'z) entity_scheme \<Rightarrow> bool" where
  "kept v t s \<longleftrightarrow> client_will (entity_client s) = v \<and> entity_topic s ''availability_topic'' = t"

lemma kept_update [simp]:
  "kept v t (s\<lparr>entity_client := c\<rparr>) \<longleftrightarrow> client_will c = v \<and> entity_topic s ''availability_topic'' = t"
  "kept v t (s\<lparr>pending_puback := P\<rparr>) \<longleftrightarrow> kept v t s"
  by (simp_all add: kept_def entity_topic_def)

lemma client_keeps: "co_keeps (\<lambda>c. client_will c = v) m \<Longrightarrow> co_keeps (kept v t) (on_client m)"
  by (rule co_keepsI) (auto simp: on_client_Some kept_def entity_topic_def dest: co_keepsD)

lemma result_keeps: "co_keeps P (co_result r)"
  by (simp add: co_result_def co_keeps_intros split: sum.split)

lemma connect_keeps: "co_keeps (kept v t) (entity_connect K)"
  unfolding entity_connect_def by (intro client_keeps will_connect)

lemma publish_keeps: "co_keeps (kept v t) (entity_publish K topic payload opts)"
  unfolding entity_publish_def
  by (auto intro!: co_keeps_intros client_keeps will_publish co_keeps_update [of _ "co_return _"] split: sum.split)

lemma availability_keeps: "co_keeps (kept v t) (entity_set_availability K a opts)"
  unfolding entity_set_availability_def
  by (rule co_keeps_dep) (auto intro!: co_keeps_intros result_keeps publish_keeps)

lemma set_config_keeps: "co_keeps (kept v t) (entity_set_config K L cfg opts)"
  unfolding entity_set_config_def Let_def
  by (rule co_keeps_dep) (auto intro!: co_keeps_intros publish_keeps client_keeps will_receive
      split: sum.split receive_result.split)

lemma subscribe_keeps: "co_keeps (kept v t) (entity_subscribe K ts)"
  unfolding entity_subscribe_def
  by (auto intro!: co_keeps_intros client_keeps will_receive will_subscribe split: sum.split receive_result.split)

lemma receive_keeps: "co_keeps (kept v t) (entity_receive K m)"
  unfolding entity_receive_def
proof (induction m)
  case (Suc m)
  then show ?case
    by (auto intro!: co_keeps_intros client_keeps will_receive co_keeps_update [of _ "entity_receive_loop K m"]
        split: sum.split receive_result.split)
qed (simp add: co_keeps_def)

lemma checked_keeps: "co_keeps P m \<Longrightarrow> co_keeps P k \<Longrightarrow> co_keeps P (checked m k)"
  unfolding checked_def by (auto intro!: co_keeps_intros)

lemmas entity_keeps = co_keeps_intros result_keeps connect_keeps publish_keeps availability_keeps
  set_config_keeps subscribe_keeps receive_keeps checked_keeps

end

context willed_client begin

lemma topic_keeps: "(\<And>x. co_keeps P (f x)) \<Longrightarrow> co_keeps P (\<lambda>s. co_bind (co_result (g s)) f s)"
  by (rule co_keeps_dep) (intro co_keeps_bind result_keeps)

lemma cover_configure_keeps: "co_keeps (kept v t) (cover_configure K L cfg opts)"
  unfolding cover_configure_def
  by (rule co_keeps_dep) (intro co_keeps_bind result_keeps checked_keeps set_config_keeps subscribe_keeps co_keeps_return)

lemma cover_set_state_keeps: "co_keeps (kept v t) (cover_set_state K st opts)"
  unfolding cover_set_state_def
  by (intro co_keeps_if topic_keeps co_keeps_bind result_keeps publish_keeps co_keeps_return)

lemma cover_receive_keeps: "co_keeps (kept v t) (cover_receive K release m)"
proof -
  have read: "co_keeps (kept v t) (\<lambda>s. co_bind (co_result (map_command release s p)) (\<lambda>cmd.
      case cmd of Some c \<Rightarrow> co_return (Inr c)
      | None \<Rightarrow> co_return (Inl (make_error_code UnknownPacket, ''''))) s)" for p
    by (rule topic_keeps) (simp add: co_keeps_return split: option.split)
  show ?thesis
    unfolding cover_receive_def
  proof (intro co_keeps_bind receive_keeps)
    fix r :: "publish_packet expected"
    show "co_keeps (kept v t) (case r of Inl e \<Rightarrow> co_return (Inl e)
      | Inr p \<Rightarrow> (\<lambda>s. co_bind (co_result (map_command release s p)) (\<lambda>cmd.
          case cmd of Some c \<Rightarrow> co_return (Inr c)
          | None \<Rightarrow> co_return (Inl (make_error_code UnknownPacket, ''''))) s))"
      by (cases r) (simp_all only: sum.case co_keeps_return read)
  qed
qed

lemma announce_keeps: "co_keeps (kept v t) (announce K L doc opts)"
  unfolding announce_def
  by (intro co_keeps_bind result_keeps checked_keeps set_config_keeps co_keeps_return)

lemma sensor_configure_keeps: "co_keeps (kept v t) (sensor_configure K L cfg opts)"
  unfolding sensor_configure_def by (rule co_keeps_dep) (rule announce_keeps)

lemma sensor_set_state_keeps: "co_keeps (kept v t) (sensor_set_state K st opts)"
  unfolding sensor_set_state_def by (intro topic_keeps publish_keeps)

lemma sensor_receive_keeps: "co_keeps (kept v t) (sensor_receive K m)"
  unfolding sensor_receive_def
  by (intro co_keeps_bind receive_keeps) (simp add: co_keeps_return split: sum.split)

lemma binary_sensor_configure_keeps: "co_keeps (kept v t) (binary_sensor_configure K L cfg opts)"
  unfolding binary_sensor_configure_def by (rule co_keeps_dep) (rule announce_keeps)

lemma binary_sensor_set_state_keeps: "co_keeps (kept v t) (binary_sensor_set_state K st opts)"
  unfolding binary_sensor_set_state_def by (intro topic_keeps co_keeps_bind result_keeps publish_keeps)

lemma binary_sensor_receive_keeps: "co_keeps (kept v t) (binary_sensor_receive K m)"
  unfolding binary_sensor_receive_def
  by (intro co_keeps_bind receive_keeps) (simp add: co_keeps_return split: sum.split)

lemma button_configure_keeps: "co_keeps (kept v t) (button_configure K L cfg opts)"
  unfolding button_configure_def
  by (rule co_keeps_dep) (intro co_keeps_bind result_keeps checked_keeps set_config_keeps subscribe_keeps co_keeps_return)

lemma button_receive_keeps: "co_keeps (kept v t) (button_receive K m)"
  unfolding button_receive_def
  by (intro co_keeps_bind receive_keeps) (simp add: co_keeps_return split: sum.split)

lemmas entities_keep = cover_configure_keeps cover_set_state_keeps cover_receive_keeps sensor_configure_keeps
  sensor_set_state_keeps sensor_receive_keeps binary_sensor_configure_keeps binary_sensor_set_state_keeps
  binary_sensor_receive_keeps button_configure_keeps button_receive_keeps connect_keeps availability_keeps

lemma contract_set_will:
  "client_will (entity_client (entity_set_will K wc s)) = Some wc"
  "entity_topic (entity_set_will K wc s) k = entity_topic s k"
  by (simp_all add: entity_set_will_def will_set entity_topic_def)

lemma kept_eq: "kept v t = (\<lambda>s. client_will (entity_client s) = v \<and> entity_topic s ''availability_topic'' = t)"
  by (rule ext) (simp add: kept_def)

lemmas contract_facts = entities_keep [unfolded kept_eq] contract_set_will co_keeps_bind co_keeps_return

end

text \<open>Over such a client every device meets the contract of an adapter.\<close>

sublocale willed_client \<subseteq> hatch: entity_contract "hatch_impl K L release m wait i d" "\<lambda>s. client_will (entity_client s)"
  for L release m wait i d
  by unfold_locales (auto simp: hatch_impl_def intro!: contract_facts)

sublocale willed_client \<subseteq> temp: entity_contract "temp_impl fl K L m wait i d" "\<lambda>s. client_will (entity_client s)"
  for fl L m wait i d
  by unfold_locales (auto simp: temp_impl_def intro!: contract_facts)

sublocale willed_client \<subseteq> indicator: entity_contract "indicator_impl K L m wait i t d" "\<lambda>s. client_will (entity_client s)"
  for L m wait i t d
  by unfold_locales (auto simp: indicator_impl_def intro!: contract_facts)

sublocale willed_client \<subseteq> button: entity_contract "button_impl K L m wait i d" "\<lambda>s. client_will (entity_client s)"
  for L m wait i d
  by unfold_locales (auto simp: button_impl_def intro!: contract_facts)

lemma keeps_client_will: "(\<And>c0. co_keeps (keeps_client c0) m) \<Longrightarrow> co_keeps (\<lambda>c. will c = v) m"
proof (rule co_keepsI)
  fix s r s'
  assume keeps: "\<And>c0. co_keeps (keeps_client c0) m" and w: "will s = v" and run: "m s = Some (r, s')"
  from co_keepsD [OF keeps keeps_client_refl run] w show "will s' = v" by (simp add: keeps_client_def)
qed

interpretation mqtt_will: willed_client "mqtt_ops N n" will
  by unfold_locales (auto simp: mqtt_ops_def set_will_def intro!: keeps_client_will keeps_async_connect
      keeps_async_receive keeps_async_publish keeps_async_subscribe)

interpretation hatch_entity: entity_contract "hatch_of V i d" "\<lambda>s. will (entity_client s)"
  unfolding hatch_of_def services_ops_def by (rule mqtt_will.hatch.entity_contract_axioms)

interpretation temp_entity: entity_contract "temp_of V i d" "\<lambda>s. will (entity_client s)"
  unfolding temp_of_def services_ops_def by (rule mqtt_will.temp.entity_contract_axioms)

interpretation indicator_entity: entity_contract "indicator_of V i t d" "\<lambda>s. will (entity_client s)"
  unfolding indicator_of_def services_ops_def by (rule mqtt_will.indicator.entity_contract_axioms)

interpretation button_entity: entity_contract "button_of V i d" "\<lambda>s. will (entity_client s)"
  unfolding button_of_def services_ops_def by (rule mqtt_will.button.entity_contract_axioms)

section \<open>Lemmas\<close>

lemma co_result_eq_Some:
  "co_bind (co_result r) f w = Some (Inr x, w') \<longleftrightarrow> (\<exists>y. r = Inr y \<and> f y w = Some (Inr x, w'))"
  by (cases r) simp_all

lemma create_adapter_Some:
  assumes "create_adapter I s w = Some (Inr (Some s'), w')"
  shows "\<exists>s0. new_adapter I s = Inr s0
    \<and> async_init I \<lparr>adapted_entity = s0, world = w\<rparr> = Some (Inr True, \<lparr>adapted_entity = s', world = w'\<rparr>)"
proof -
  from assms obtain s0 r a where s0: "new_adapter I s = Inr s0"
    and run: "async_init I \<lparr>adapted_entity = s0, world = w\<rparr> = Some (r, a)"
    and r: "result_map (\<lambda>ok. if ok then Some (adapted_entity a) else None) r = Inr (Some s')" "world a = w'"
    by (auto simp: create_adapter_def split: sum.splits)
  from r have "r = Inr True" "a = \<lparr>adapted_entity = s', world = w'\<rparr>"
    by (cases r; cases a; auto split: if_splits)+
  with s0 run show ?thesis by blast
qed

lemma cover_document_availability:
  "cover_document s cfg = Inr doc \<Longrightarrow> map_of doc ''availability_topic'' = Some (availability_topic s)"
  by (auto simp: cover_document_def Let_def result_map_eq_Inr set_string_def result_bind_eq_Inr)

lemma int_to_string_inject: "int_to_string a = int_to_string b \<Longrightarrow> a = b"
proof -
  assume eq: "int_to_string a = int_to_string b"
  have minus: "nat_to_string n \<noteq> CHR ''-'' # s" for n s
    using hd_nat_to_string_digit [of n] by (auto simp: is_digit_def)
  show "a = b"
    using eq minus minus [symmetric]
    by (auto simp: int_to_string_def nat_to_string_inject split: if_splits)
qed

lemma int_to_string_no_underscore: "CHR ''_'' \<notin> set (int_to_string a)"
  using nat_to_string_digits [of "nat a"] nat_to_string_digits [of "nat (- a)"]
  by (auto simp: int_to_string_def list_all_iff is_digit_def)

text \<open>Text behind a number that starts with an underscore determines the number.\<close>

lemma number_then_suffix:
  assumes "int_to_string a @ s = int_to_string b @ s'"
    and "s = [] \<or> hd s = CHR ''_''" and "s' = [] \<or> hd s' = CHR ''_''"
  shows "a = b \<and> s = s'"
proof -
  have take: "takeWhile (\<lambda>c. c \<noteq> CHR ''_'') (int_to_string n @ u) = int_to_string n"
    if "u = [] \<or> hd u = CHR ''_''" for n and u :: string
    using that int_to_string_no_underscore [of n] by (cases u) (auto simp: takeWhile_append)
  from take [OF assms(2), of a] take [OF assms(3), of b] assms(1) have "int_to_string a = int_to_string b" by simp
  with assms(1) int_to_string_inject show ?thesis by auto
qed

text \<open>A round that receives a command writes its word into the position attribute, or does nothing for a stop.\<close>

lemma hatch_command:
  assumes "is_cover s" and "entity_receive (services_ops V) (sv_fuel V) s = Some (Inr (Inr p), s')"
    and "publish_topic p = entity_topic s' ''set''"
    and "publish_payload p = (case c of Command_open \<Rightarrow> ''open'' | Command_close \<Rightarrow> ''close'' | Command_stop \<Rightarrow> ''stop'')"
    and "world_hatches w i = Some h" and "hatch_status h (world_fs w) = Some (Inr st, world_fs w)"
    and "keeps_writes (world_fs w) (path_join (hatch_dir h) ''change_position'')"
  shows "\<exists>f. run_round (hatch_of V i d) \<lparr>adapted_entity = s, world = w\<rparr>
        = Some (Inr (), \<lparr>adapted_entity = s', world = w\<lparr>world_fs := f\<rparr>\<rparr>)
    \<and> (if c = Command_stop then f = world_fs w
       else read_attr (path_join (hatch_dir h) ''change_position'') f = Some (Inr (publish_payload p), f)
         \<and> (\<forall>q. q \<noteq> path_join (hatch_dir h) ''change_position'' \<longrightarrow> files f q = files (world_fs w) q))"
proof -
  let ?p = "path_join (hatch_dir h) ''change_position''"
  have read: "entity_receive (services_ops V) (sv_fuel V) s = Some (Inr (Inr p), s')" by (rule assms(2))
  have "cover_receive (services_ops V) (sv_release V) (sv_fuel V) s = Some (Inr (Inr c), s')"
    using read receive_keeps_cover [OF assms(1), of "services_ops V" "sv_fuel V" "Inr (Inr p)" s'] assms(3,4)
    by (cases c) (simp_all add: entity_receive_def cover_receive_def co_bind_def [of "entity_receive_loop _ _"]
        map_command_def cover_topic_at cover_command_of_payload co_return_def)
  then have recv: "im_receive (hatch_of V i d) s = Some (Inr (Inr (Switch_command c)), s')"
    by (simp add: hatch_of_def hatch_impl_def co_bind_def co_return_def)
  have im_handle_hatch: "im_handle (hatch_of V i d) = hatch_handle i" by (simp add: hatch_of_def hatch_impl_def)
  have status: "on_fs (hatch_status h) w = Some (Inr st, w)" using assms(6) by (simp add: on_fs_def)
  have dev: "device_at world_hatches i w = Some (Inr h, w)" using assms(5) by (simp add: device_at_def inventory_get_def)
  have run: "run_round (hatch_of V i d) \<lparr>adapted_entity = s, world = w\<rparr>
      = Some (Inr (), \<lparr>adapted_entity = s', world = w\<lparr>world_fs := f\<rparr>\<rparr>)"
    if "(case c of Command_open \<Rightarrow> hatch_open h | Command_close \<Rightarrow> hatch_close h | Command_stop \<Rightarrow> co_return ()) (world_fs w)
      = Some (Inr (), f)" for f
    using that recv dev assms(6)
    by (simp add: run_round_def on_entity_def co_bind_def on_world_def hatch_handle_def on_fs_def im_handle_hatch)
  have word: "last_word (publish_payload p) = publish_payload p"
    using assms(4) by (cases c) (simp_all add: last_word_single is_space_def)
  from write_attr_read [OF assms(7), of "publish_payload p"] word obtain f where
    f: "write_attr ?p (publish_payload p) (world_fs w) = (Inr (), f)"
      "read_attr ?p f = Some (Inr (publish_payload p), f)" "\<forall>q. q \<noteq> ?p \<longrightarrow> files f q = files (world_fs w) q" by auto
  show ?thesis
  proof (cases "c = Command_stop")
    case True
    then show ?thesis using run [of "world_fs w"] by (auto simp: co_return_def)
  next
    case False
    with f assms(4) run [of f] show ?thesis
      by (intro exI [of _ f]) (cases c; simp add: hatch_open_def hatch_close_def co_run_def)
  qed
qed

text \<open>Synchronising a hatch publishes its state when it is open or closed, and nothing otherwise.\<close>

lemma hatch_sync:
  assumes cover: "is_cover s" and "world_hatches w i = Some h"
    and "hatch_status h (world_fs w) = Some (Inr st, world_fs w)"
  shows "sync_state (hatch_of V i d) \<lparr>adapted_entity = s, world = w\<rparr> =
      (case st of
         Hatch_open \<Rightarrow> co_bind (on_entity (entity_publish (services_ops V) (entity_topic s ''state'') ''open''
           adapter_pubopts)) (\<lambda>e. co_return ())
       | Hatch_closed \<Rightarrow> co_bind (on_entity (entity_publish (services_ops V) (entity_topic s ''state'') ''closed''
           adapter_pubopts)) (\<lambda>e. co_return ())
       | _ \<Rightarrow> co_return ()) \<lparr>adapted_entity = s, world = w\<rparr>"
proof -
  have "on_world (hatch_cover_state i) \<lparr>adapted_entity = s, world = w\<rparr> =
      Some (Inr (case st of Hatch_open \<Rightarrow> Open | Hatch_closed \<Rightarrow> Closed | _ \<Rightarrow> Undefined),
        \<lparr>adapted_entity = s, world = w\<rparr>)"
    using assms(2,3)
    by (simp add: hatch_cover_state_def on_world_def co_bind_def co_return_def on_fs_def device_at_def inventory_get_def)
  then have "sync_state (hatch_of V i d) \<lparr>adapted_entity = s, world = w\<rparr> =
      co_bind (on_entity (cover_set_state (services_ops V)
        (case st of Hatch_open \<Rightarrow> Open | Hatch_closed \<Rightarrow> Closed | _ \<Rightarrow> Undefined) adapter_pubopts)) (\<lambda>e. co_return ())
        \<lparr>adapted_entity = s, world = w\<rparr>"
    by (simp add: sync_state_def hatch_of_def hatch_impl_def co_bind_Inr)
  moreover have "cover_set_state (services_ops V) Undefined opts s = Some (Inr no_error, s)"
    "cover_set_state (services_ops V) Open opts s = entity_publish (services_ops V) (entity_topic s ''state'') ''open'' opts s"
    "cover_set_state (services_ops V) Closed opts s = entity_publish (services_ops V) (entity_topic s ''state'') ''closed'' opts s"
    for opts
    using cover by (simp_all add: cover_set_state_def cover_topic_at cover_state_payload co_return_def)
  ultimately show ?thesis by (cases st) (simp_all add: co_bind_def on_entity_def co_return_def)
qed

section \<open>Properties\<close>

text \<open>C28: A hatch that was created has, through every round of its run, an offline will on the very topic
  its document announces for its availability, with the payload that means unavailable there.\<close>

theorem hatch_will_is_announced:
  assumes "hatch_create V i w = Some (Inr (Some (d, s)), w')"
    and "rounds (hatch_of V i d) k \<lparr>adapted_entity = s, world = w'\<rparr> b"
    and "cover_document (adapted_entity b) cfg = Inr doc"
  shows "services_identity V i = Inr d
    \<and> map_of doc ''availability_topic'' = Some (J_string (''cover_'' @ get_unique_id i d @ ''/availability_topic''))
    \<and> will (entity_client (adapted_entity b)) = Some \<lparr>
        will_topic = ''cover_'' @ get_unique_id i d @ ''/availability_topic'', will_message = ''offline'',
        will_pubopts = \<lparr>qos_of = At_most_once, retain = True\<rparr>\<rparr>"
proof -
  let ?s = "create_cover (sv_broker V) (sv_env V) (get_unique_id i d)"
  from assms(1) have d: "services_identity V i = Inr d"
    and create: "create_adapter (hatch_of V i d) ?s w = Some (Inr (Some s), w')"
    unfolding hatch_create_def co_result_eq_Some by (auto simp: co_bind_eq_Some co_return_def)
  have t: "im_availability_topic (hatch_of V i d) x = entity_topic x ''availability_topic''" for x
    by (simp add: hatch_of_def hatch_impl_def)
  have "entity_topic ?s ''availability_topic'' = ''cover_'' @ get_unique_id i d @ ''/availability_topic''"
    by (simp add: create_cover_def new_cover_def with_topics_def new_entity_def entity.defs entity_topic_def)
  with create_adapter_Some [OF create] hatch_entity.will_is_kept [OF _ _ assms(2)] t d
    cover_document_availability [OF assms(3)]
  show ?thesis by (fastforce simp: availability_topic_def)
qed

text \<open>C29: No two entities of the devices of one board share an identifier, and with it a client
  identifier and topics: those of devices, of indicators and of restart buttons differ, and each
  determines its device and its indicator.\<close>

theorem unique_ids_differ:
  "(get_unique_id i d = get_unique_id j d \<longleftrightarrow> i = j)
    \<and> (indicator_unique_id i t d = indicator_unique_id j u d \<longleftrightarrow> i = j \<and> t = u)
    \<and> (button_unique_id i d = button_unique_id j d \<longleftrightarrow> i = j)
    \<and> get_unique_id i d \<noteq> indicator_unique_id j u d
    \<and> get_unique_id i d \<noteq> button_unique_id j d
    \<and> indicator_unique_id i t d \<noteq> button_unique_id j d"
proof -
  have num: "int_to_string (indicator_number t) = int_to_string (indicator_number u) \<longleftrightarrow> t = u" for t u
    using int_to_string_inject by (cases t; cases u) (fastforce simp: indicator_number_def)+
  have split: "int_to_string (sint i) @ s = int_to_string (sint j) @ s' \<longleftrightarrow> i = j \<and> s = s'"
    if "s = [] \<or> hd s = CHR ''_''" "s' = [] \<or> hd s' = CHR ''_''" for i j :: device_id and s s'
    using number_then_suffix [OF _ that, of "sint i" "sint j"] signed_word_eqI [of i j] by auto
  note unf = get_unique_id_def indicator_unique_id_def button_unique_id_def
  show ?thesis
    using split [of "[]" "[]"] split [of "''_i_'' @ int_to_string (indicator_number t)" "''_i_'' @ int_to_string (indicator_number u)"]
      split [of "''_restart_btn''" "''_restart_btn''"] split [of "[]" "''_i_'' @ int_to_string (indicator_number u)"]
      split [of "[]" "''_restart_btn''"] split [of "''_i_'' @ int_to_string (indicator_number t)" "''_restart_btn''"] num
    by (simp add: unf)
qed

definition scripted_net :: "in_packet list net" where
  "scripted_net = \<lparr>net_resolve = (\<lambda>h p e. ((Sys 0, [h]), e)), net_connect = (\<lambda>eps e. (Sys 0, e)),
     net_send = (\<lambda>q e. (Sys 0, e)),
     net_recv = (\<lambda>e. case e of [] \<Rightarrow> (Recv_unknown, []) | p # ps \<Rightarrow> (Recv_packet p, ps)),
     net_acquire = (\<lambda>e. (Some 7, e)), net_wait = (\<lambda>d e. (Sys 0, e)),
     code_what = (\<lambda>c. ''?''), category_slot = 5, ndebug = True\<rparr>"

text \<open>A board with a hatch as device 1, whose broker accepts, acknowledges and then is silent.\<close>

definition example_services :: "in_packet list \<Rightarrow> (in_packet list, unit, unit) services" where
  "example_services script = \<lparr>sv_net = scripted_net, sv_fuel = 9, sv_json = numbering_json, sv_release = True,
     sv_wait = (\<lambda>d. co_return ()),
     sv_floats = \<lparr>stof = (\<lambda>s. Inr ()), milli = (\<lambda>f. f), float_zero = (), one_decimal = (\<lambda>f. ''0.0'')\<rparr>,
     sv_broker = \<lparr>broker_username = '''', broker_password = '''', broker_host = ''broker'', broker_port = ''1883'',
       broker_keep_alive = 30, broker_max_attempts = 5, broker_reconnect_delay = 5\<rparr>,
     sv_env = script,
     sv_store = [1 \<mapsto> \<lparr>hwid_manufacturer = ''BHome'', hwid_model = ''m'', hwid_revision = ''R1'',
       hwid_serial_number = ''s''\<rparr>],
     sv_tree = \<lparr>nodes = []\<rparr>\<rparr>"

definition example_world :: ha_world where
  "example_world = \<lparr>world_hatches = [1 \<mapsto> \<lparr>hatch_dir = ''h''\<rparr>], world_boards = (\<lambda>_. None),
     world_sensors = (\<lambda>_. None),
     world_fs = \<lparr>files = [''h/status'' \<mapsto> regular_file ''open''], directories = {''h''},
       may_create = (\<lambda>p. True)\<rparr>, restarts = 0\<rparr>"

definition accepting_broker :: "in_packet list" where
  "accepting_broker = [Connack False 0, Puback 7, Suback \<lparr>suback_id = 7, suback_entries = [Granted At_least_once]\<rparr>]"

lemma example_hatch_created:
  "case hatch_create (example_services accepting_broker) 1 example_world of
     Some (Inr (Some (d, s)), w') \<Rightarrow> serial_number d = ''s'' \<and> \<not> isl (cover_document s (hatch_config d))
   | _ \<Rightarrow> False"
  by code_simp

theorem hatch_will_is_announced_witness:
  "\<exists>d s w'. hatch_create (example_services accepting_broker) 1 example_world = Some (Inr (Some (d, s)), w')
    \<and> (\<exists>w. will (entity_client s) = Some w \<and> will_message w = ''offline'')"
proof -
  from example_hatch_created obtain d s w' where
    run: "hatch_create (example_services accepting_broker) 1 example_world = Some (Inr (Some (d, s)), w')"
    and "\<not> isl (cover_document s (hatch_config d))"
    by (auto split: option.splits prod.splits sum.splits)
  from this(2) obtain doc where doc: "cover_document s (hatch_config d) = Inr doc"
    by (cases "cover_document s (hatch_config d)") auto
  from hatch_will_is_announced [OF run rounds_none, of "hatch_config d" doc] doc run show ?thesis by auto
qed

lemma example_hatch_status:
  "hatch_status \<lparr>hatch_dir = ''h''\<rparr> (world_fs example_world) = Some (Inr Hatch_open, world_fs example_world)"
proof -
  have "healthy (world_fs example_world) (path_join (hatch_dir \<lparr>hatch_dir = ''h''\<rparr>) ''status'') ''open''"
    by (simp add: healthy_def example_world_def path_join_def regular_file_def)
  from healthy_read [OF this] show ?thesis
    by (simp add: hatch_status_def co_bind_def fs_result_def last_word_single is_space_def
        static_map_at_value_def status_mapping_def)
qed

end
