(* ===== verification/Pollers.thy ===== *)
theory Pollers
  imports Ha_Devices Id_Generators
begin

text \<open>
  The pollers and the polling service (\<^verbatim>\<open>poller/*.hpp\<close>, \<^verbatim>\<open>poller/polling_service.cpp\<close>). A poller
  reads its device and publishes an event when what it read is not what it read the last time. The
  hash functions of the standard and boost libraries and the comparison of floats are parameters;
  what is published is a list, its delivery is the matter of the bus.
\<close>

section \<open>Events of devices\<close>

datatype device_kind = Board_kind | Hatch_kind | Temp_sensor_kind

datatype device_event =
    Device_created device_kind device_id
  | Device_removed device_kind device_id
  | Device_state_changed device_kind device_id

section \<open>Pollers\<close>

record 'h polled =
  last_seen :: 'h
  polled_world :: ha_world
  published :: "device_event list"

definition on_polled :: "(ha_world, 'a) co \<Rightarrow> ('h polled, 'a) co" where
  "on_polled m = (\<lambda>p. map_option (\<lambda>(r, w). (r, p\<lparr>polled_world := w\<rparr>)) (m (polled_world p)))"

definition publish_event :: "device_event \<Rightarrow> ('h polled, unit) co" where
  "publish_event e = (\<lambda>p. co_return () (p\<lparr>published := published p @ [e]\<rparr>))"

definition poller_update :: "device_event \<Rightarrow> 'h \<Rightarrow> ('h polled, unit) co" where
  "poller_update e v = (\<lambda>p. publish_event e (p\<lparr>last_seen := v\<rparr>))"

text \<open>The call operator the three pollers share, over what they read and how they compare it.\<close>

definition poll_once :: "('h \<Rightarrow> 'h \<Rightarrow> bool) \<Rightarrow> (ha_world, 'h) co \<Rightarrow> device_event \<Rightarrow> ('h polled, unit) co" where
  "poll_once differs current e =
     co_bind (on_polled current) (\<lambda>v p.
       if differs v (last_seen p) then poller_update e v p else co_return () p)"

definition hatch_current_hash :: "(hatch_state \<Rightarrow> size_t) \<Rightarrow> device_id \<Rightarrow> (ha_world, size_t) co" where
  "hatch_current_hash hash i =
     co_bind (device_at world_hatches i) (\<lambda>h.
     co_bind (on_fs (hatch_status h)) (\<lambda>st. co_return (hash st)))"

definition poll_hatch :: "(hatch_state \<Rightarrow> size_t) \<Rightarrow> device_id \<Rightarrow> (size_t polled, unit) co" where
  "poll_hatch hash i = poll_once (\<noteq>) (hatch_current_hash hash i) (Device_state_changed Hatch_kind i)"

definition board_current_hash ::
    "(size_t \<Rightarrow> indicator_state \<Rightarrow> size_t) \<Rightarrow> device_id \<Rightarrow> (ha_world, size_t) co" where
  "board_current_hash hash_combine i =
     co_bind (device_at world_boards i) (\<lambda>b.
     co_bind (on_fs (board_indicator_state b Fault)) (\<lambda>f.
     co_bind (on_fs (board_indicator_state b Maintenance)) (\<lambda>m.
     co_bind (on_fs (board_indicator_state b Warning)) (\<lambda>w.
     co_bind (on_fs (board_indicator_state b Status)) (\<lambda>s.
       co_return (hash_combine (hash_combine (hash_combine (hash_combine 0 f) m) w) s))))))"

definition poll_board ::
    "(size_t \<Rightarrow> indicator_state \<Rightarrow> size_t) \<Rightarrow> device_id \<Rightarrow> (size_t polled, unit) co" where
  "poll_board hash_combine i =
     poll_once (\<noteq>) (board_current_hash hash_combine i) (Device_state_changed Board_kind i)"

definition current_temp :: "'f floats \<Rightarrow> device_id \<Rightarrow> (ha_world, 'f) co" where
  "current_temp F i =
     co_bind (device_at world_sensors i) (\<lambda>t. on_fs (temp_sensor_value F t))"

definition poll_temp :: "'f floats \<Rightarrow> ('f \<Rightarrow> 'f \<Rightarrow> bool) \<Rightarrow> device_id \<Rightarrow> ('f polled, unit) co" where
  "poll_temp F float_neq i =
     poll_once float_neq (current_temp F i) (Device_state_changed Temp_sensor_kind i)"

text \<open>Successive polls, each in the world as it then is, until one throws or does not return.\<close>

fun poll_all :: "('h polled, unit) co \<Rightarrow> ha_world list \<Rightarrow> ('h polled, unit) co" where
  "poll_all poll [] = co_return ()"
| "poll_all poll (w # ws) = (\<lambda>p. co_bind poll (\<lambda>_. poll_all poll ws) (p\<lparr>polled_world := w\<rparr>))"

section \<open>The polling service\<close>

record poller_entry =
  poller_device :: device_id
  poller_interval :: int
  poller_kind :: device_kind

text \<open>\<open>started\<close> are the devices whose polling coroutine has been spawned, in the order of spawning.\<close>

record polling_service =
  pollers :: "poller_entry list"
  started :: "device_id list"

definition new_polling_service :: polling_service where
  "new_polling_service = \<lparr>pollers = [], started = []\<rparr>"

definition start_poller :: "poller_entry \<Rightarrow> polling_service \<Rightarrow> polling_service" where
  "start_poller e s = s\<lparr>started := started s @ [poller_device e]\<rparr>"

definition add_poller :: "poller_entry \<Rightarrow> (polling_service, unit) eff" where
  "add_poller e = (\<lambda>s.
     if length (filter (\<lambda>p. poller_device p = poller_device e) (pollers s)) \<noteq> 0
     then eff_throw (Runtime_error ''Poller for requested device id, already exists'') s
     else eff_return () (start_poller e (s\<lparr>pollers := pollers s @ [e]\<rparr>)))"

text \<open>
  The coroutine of a poller: arming its timer may report an error, which ends it, waiting may
  throw; each round takes one unit of fuel.
\<close>

primrec poller_loop ::
    "(int \<Rightarrow> ('s, error_code) co) \<Rightarrow> ('s, unit) co \<Rightarrow> ('s, unit) co \<Rightarrow> int \<Rightarrow> nat \<Rightarrow> ('s, unit) co" where
  "poller_loop arm wait poll interval 0 = (\<lambda>s. None)"
| "poller_loop arm wait poll interval (Suc n) =
     co_bind (arm interval) (\<lambda>ec.
     co_bind wait (\<lambda>_.
       if is_error (ec, '''') then co_return ()
       else co_bind poll (\<lambda>_. poller_loop arm wait poll interval n)))"

section \<open>Lemmas\<close>

lemma on_polled_Inr: "m (polled_world p) = Some (Inr v, w) \<Longrightarrow> on_polled m p = Some (Inr v, p\<lparr>polled_world := w\<rparr>)"
  by (simp add: on_polled_def)

lemma poll_once_value:
  assumes "current (polled_world p) = Some (Inr v, w)"
  shows "poll_once differs current e p = Some (Inr (), if differs v (last_seen p)
      then p\<lparr>polled_world := w, last_seen := v, published := published p @ [e]\<rparr>
      else p\<lparr>polled_world := w\<rparr>)"
  using assms
  by (simp add: poll_once_def co_bind_Inr [OF on_polled_Inr] poller_update_def publish_event_def co_return_def)

text \<open>
  What a sequence of readings makes a poller publish: one event for each reading that differs from
  the one before, the first compared with the initial value.
\<close>

lemma poll_all_values:
  assumes "list_all2 (\<lambda>w v. \<exists>w'. current w = Some (Inr v, w')) ws vs"
  shows "\<exists>p'. poll_all (poll_once (\<noteq>) current e) ws p = Some (Inr (), p')
    \<and> last_seen p' = last (last_seen p # vs)
    \<and> published p' = published p @ replicate (length (remdups_adj (last_seen p # vs)) - 1) e"
  using assms
proof (induction ws vs arbitrary: p rule: list_all2_induct)
  case Nil
  then show ?case by (simp add: co_return_def)
next
  case (Cons w ws v vs)
  from Cons.hyps(1) obtain w' where w': "current w = Some (Inr v, w')" by blast
  define q where "q = (if v \<noteq> last_seen p
      then p\<lparr>polled_world := w', last_seen := v, published := published p @ [e]\<rparr> else p\<lparr>polled_world := w'\<rparr>)"
  have "poll_once (\<noteq>) current e (p\<lparr>polled_world := w\<rparr>) = Some (Inr (), q)"
    using poll_once_value [of current "p\<lparr>polled_world := w\<rparr>" v w' "(\<noteq>)" e] w' by (simp add: q_def)
  then have run: "poll_all (poll_once (\<noteq>) current e) (w # ws) p = poll_all (poll_once (\<noteq>) current e) ws q"
    by (simp add: co_bind_Inr)
  from Cons.IH [of q] obtain p' where "poll_all (poll_once (\<noteq>) current e) ws q = Some (Inr (), p')"
    "last_seen p' = last (last_seen q # vs)"
    "published p' = published q @ replicate (length (remdups_adj (last_seen q # vs)) - 1) e" by blast
  moreover have "last_seen q = v" by (simp add: q_def)
  moreover obtain k where "length (remdups_adj (v # vs)) = Suc k"
    by (cases "length (remdups_adj (v # vs))") simp_all
  ultimately show ?case
    unfolding run by (cases "v = last_seen p") (auto simp: q_def)
qed

lemma remdups_adj_map:
  assumes "inj_on f (set xs)"
  shows "length (remdups_adj (map f xs)) = length (remdups_adj xs)"
  using assms
  by (induction xs rule: remdups_adj.induct) (auto simp: inj_on_def)

lemma poll_once_throws:
  "current (polled_world p) = Some (Inl x, w) \<Longrightarrow>
    poll_once differs current e p = Some (Inl x, p\<lparr>polled_world := w\<rparr>)"
  by (simp add: poll_once_def co_bind_def on_polled_def)

lemma hatch_hash_reads:
  "world_hatches w i = Some h \<Longrightarrow> hatch_status h (world_fs w) = Some (Inr st, f) \<Longrightarrow>
    hatch_current_hash hash i w = Some (Inr (hash st), w\<lparr>world_fs := f\<rparr>)"
  by (simp add: hatch_current_hash_def co_bind_def device_at_def inventory_get_def on_fs_def co_return_def)

section \<open>Properties\<close>

text \<open>C31: Polling a hatch publishes exactly its changes: over readings without an exception, and with a
  hash that tells the states apart and is zero for the undefined one, there is one event for each
  reading that differs from the one before it, the first being compared with undefined.\<close>

theorem hatch_changes_are_published:
  assumes "list_all2 (\<lambda>w st. \<exists>h f. world_hatches w i = Some h \<and> hatch_status h (world_fs w) = Some (Inr st, f)) ws sts"
    and "inj hash" and "hash Hatch_undefined = 0" and "last_seen p = 0"
  shows "\<exists>p'. poll_all (poll_hatch hash i) ws p = Some (Inr (), p')
    \<and> last_seen p' = hash (last (Hatch_undefined # sts))
    \<and> published p' = published p @
        replicate (length (remdups_adj (Hatch_undefined # sts)) - 1) (Device_state_changed Hatch_kind i)"
proof -
  have reads: "list_all2 (\<lambda>w v. \<exists>w'. hatch_current_hash hash i w = Some (Inr v, w')) ws (map hash sts)"
    using assms(1) by (auto simp: list_all2_map2 dest: hatch_hash_reads elim!: list_all2_mono)
  have seen: "last_seen p # map hash sts = map hash (Hatch_undefined # sts)" using assms(3,4) by simp
  from poll_all_values [OF reads, of "Device_state_changed Hatch_kind i" p] show ?thesis
    unfolding seen poll_hatch_def remdups_adj_map [OF inj_on_subset [OF assms(2) subset_UNIV]]
    by (simp only: last_map list.distinct not_False_eq_True simp_thms list.map_disc_iff)
qed

theorem hatch_changes_are_published_witness:
  "\<exists>p'. poll_all (poll_hatch (\<lambda>st. case st of Hatch_undefined \<Rightarrow> 0 | Hatch_open \<Rightarrow> 1 | Hatch_closed \<Rightarrow> 2
       | Hatch_changing_position \<Rightarrow> 3 | Hatch_faulty \<Rightarrow> 4) 1) [example_world, example_world]
      \<lparr>last_seen = 0, polled_world = example_world, published = []\<rparr> = Some (Inr (), p')
    \<and> published p' = [Device_state_changed Hatch_kind 1]"
proof -
  let ?hash = "\<lambda>st. case st of Hatch_undefined \<Rightarrow> 0 | Hatch_open \<Rightarrow> (1 :: size_t) | Hatch_closed \<Rightarrow> 2
       | Hatch_changing_position \<Rightarrow> 3 | Hatch_faulty \<Rightarrow> 4"
  have "hatch_status \<lparr>hatch_dir = ''h''\<rparr> (world_fs example_world) = Some (Inr Hatch_open, world_fs example_world)"
    by (rule example_hatch_status)
  then have reads: "list_all2 (\<lambda>w st. \<exists>h f. world_hatches w 1 = Some h
      \<and> hatch_status h (world_fs w) = Some (Inr st, f)) [example_world, example_world] [Hatch_open, Hatch_open]"
    by (simp add: example_world_def)
  have "inj ?hash" by (rule injI) (simp split: hatch_state.splits)
  from hatch_changes_are_published [OF reads this, of "\<lparr>last_seen = 0, polled_world = example_world, published = []\<rparr>"]
  show ?thesis by auto
qed

text \<open>A poller whose timer works polls for ever as long as its readings succeed; a reading that
  throws ends its coroutine with that exception, which the spawn rethrows out of the event loop, and
  nothing is published for it.\<close>

theorem poller_runs_until_a_reading_throws:
  assumes "\<forall>s. arm interval s = Some (Inr (Sys 0), s)" and "\<forall>s. wait s = Some (Inr (), s)"
    and "world_hatches (polled_world p) i = Some h"
    and "hatch_status h (world_fs (polled_world p)) = Some (r, world_fs (polled_world p))"
  shows "case r of
      Inr st \<Rightarrow> poller_loop arm wait (poll_hatch hash i) interval n p = None
    | Inl x \<Rightarrow> poller_loop arm wait (poll_hatch hash i) interval (Suc n) p = Some (Inl x, p)"
proof (cases r)
  case (Inl x)
  have "hatch_current_hash hash i (polled_world p) = Some (Inl x, polled_world p)"
    using assms(3,4) Inl by (simp add: hatch_current_hash_def co_bind_def device_at_def inventory_get_def on_fs_def)
  then have "poll_hatch hash i p = Some (Inl x, p)" by (simp add: poll_hatch_def poll_once_throws)
  with assms(1,2) Inl show ?thesis by (simp add: co_bind_def is_error_simps)
next
  case (Inr st)
  have "poller_loop arm wait (poll_hatch hash i) interval n q = None" if "polled_world q = polled_world p" for q
    using that
  proof (induction n arbitrary: q)
    case 0
    then show ?case by simp
  next
    case (Suc n)
    have "hatch_current_hash hash i (polled_world q) = Some (Inr (hash st), polled_world p)"
      using hatch_hash_reads [of "polled_world q" i h st "world_fs (polled_world p)" hash] assms(3,4) Inr Suc.prems by simp
    from poll_once_value [where current = "hatch_current_hash hash i" and p = q, OF this] obtain q' where
      "poll_hatch hash i q = Some (Inr (), q')" "polled_world q' = polled_world p"
      by (simp add: poll_hatch_def)
    with Suc.IH [of q'] assms(1,2) show ?case by (simp add: co_bind_def is_error_simps)
  qed
  with Inr show ?thesis by simp
qed

theorem poller_runs_until_a_reading_throws_witness:
  "poller_loop (\<lambda>d. co_return (Sys 0)) (co_return ()) (poll_hatch (\<lambda>st. 0) 1) 2000 100
     \<lparr>last_seen = 0, polled_world = example_world, published = []\<rparr> = None"
  using poller_runs_until_a_reading_throws [where arm = "\<lambda>d. co_return (Sys 0)" and wait = "co_return ()" and i = 1
      and interval = 2000 and n = 100 and p = "\<lparr>last_seen = 0, polled_world = example_world, published = []\<rparr>"
      and hash = "\<lambda>st. 0" and h = "\<lparr>hatch_dir = ''h''\<rparr>" and r = "Inr Hatch_open"] example_hatch_status
  by (simp add: co_return_def example_world_def)

end
