(* ===== verification/Platform.thy ===== *)
theory Platform
  imports Pollers
begin

text \<open>
  Discovery of the platform (\<^verbatim>\<open>main_board/pdtree.cpp\<close>, \<^verbatim>\<open>main_board/platform/*.hpp\<close>) and the start of
  the board (\<^verbatim>\<open>app/main_board_init.hpp\<close>): the platform device tree is a JSON file, each entry of
  which names the provider that adds indicators or loaders to a builder.
\<close>

section \<open>The platform device tree\<close>

text \<open>\<open>value.as_string().c_str()\<close> as a \<open>std::string\<close> ends at the first null.\<close>

definition pdtree_to_string :: "json \<Rightarrow> string result" where
  "pdtree_to_string v = result_map (takeWhile (\<lambda>c. c \<noteq> char_of (0::nat))) (value_to_string v)"

text \<open>The extraction of a \<open>std::string\<close>: its first word, if it has one.\<close>

definition first_word :: "string \<Rightarrow> string option" where
  "first_word s = (case dropWhile is_space s of
      [] \<Rightarrow> None | t \<Rightarrow> Some (takeWhile (\<lambda>c. \<not> is_space c) t))"

definition quoted :: "string \<Rightarrow> string" where
  "quoted s = [CHR 0x27] @ s @ [CHR 0x27]"

definition pdtree_get :: "json_object \<Rightarrow> string \<Rightarrow> string result" where
  "pdtree_get obj key =
     (if \<not> object_contains obj key
      then Inl (Runtime_error (''Property '' @ quoted key @ '' does not exist in pdtree''))
      else result_bind (object_at obj key) (\<lambda>v. result_bind (pdtree_to_string v) (\<lambda>s.
        case first_word s of
          None \<Rightarrow> Inl (Runtime_error (''Cannot read property '' @ quoted key @ '' from pdtree''))
        | Some w \<Rightarrow> Inr w)))"

text \<open>
  A stream that did not open has \<open>failbit\<close>, not \<open>badbit\<close>, and its end is never seen: the loop
  that reads it does not end, and neither does that of a file whose reads fail.
\<close>

definition pdtree_load :: "json_lib \<Rightarrow> string \<Rightarrow> json fs_op" where
  "pdtree_load L path = (\<lambda>w.
     case open_in path w of
       None \<Rightarrow> None
     | Some st \<Rightarrow>
         if broken st then None
         else (case json_parse L (rest st) of Inl x \<Rightarrow> Some (Inr J_null, w) | Inr j \<Rightarrow> Some (Inr j, w)))"

section \<open>Builder and providers\<close>

datatype loader = Hatch_loader string | Ds18b20_loader string | Cpu_temp_loader string

record builder =
  built_indicators :: "indicator list"
  built_loaders :: "loader list"

definition new_builder :: builder where
  "new_builder = \<lparr>built_indicators = [], built_loaders = []\<rparr>"

definition add_device :: "indicator \<Rightarrow> builder \<Rightarrow> builder" where
  "add_device i b = b\<lparr>built_indicators := built_indicators b @ [i]\<rparr>"

definition add_loader :: "loader \<Rightarrow> builder \<Rightarrow> builder" where
  "add_loader l b = b\<lparr>built_loaders := built_loaders b @ [l]\<rparr>"

datatype provider = Rgb_indicator_provider | Hatch_provider | Ds18b20_provider | Cpu_temp_provider

fun compatible :: "provider \<Rightarrow> string" where
  "compatible Rgb_indicator_provider = ''sysfs_rgbled_indicator''"
| "compatible Hatch_provider = ''sysfs_hatch2sr''"
| "compatible Ds18b20_provider = ''sysfs_ds18b20''"
| "compatible Cpu_temp_provider = ''sysfs_cpu_temp_sensor''"

text \<open>The first descriptor of the color; every descriptor before it must be an object.\<close>

fun find_led :: "string \<Rightarrow> json list \<Rightarrow> json_object option result" where
  "find_led label [] = Inr None"
| "find_led label (j # js) =
     result_bind (as_object j) (\<lambda>obj.
       if object_contains obj ''color''
       then result_bind (result_bind (object_at obj ''color'') pdtree_to_string) (\<lambda>c.
         if c = label then Inr (Some obj) else find_led label js)
       else find_led label js)"

definition load_led :: "json list \<Rightarrow> string \<Rightarrow> sysfs_led option fs_op" where
  "load_led leds label =
     co_bind (fs_result (find_led label leds)) (\<lambda>found.
       case found of
         None \<Rightarrow> co_return None
       | Some obj \<Rightarrow>
           if \<not> object_contains obj ''sysfs_path'' then co_return None
           else co_bind (fs_result (result_bind (object_at obj ''sysfs_path'') pdtree_to_string)) (\<lambda>p.
             co_bind (new_sysfs_led p) (\<lambda>l. co_return (Some l))))"

text \<open>
  When an LED is missing, the debug message goes to \<open>spdlog::get("hw")\<close>. No logger of that name is
  ever registered, so this dereferences a null pointer; \<open>hw_logger\<close> says whether there is one.
\<close>

definition load_rgb :: "bool \<Rightarrow> json_object \<Rightarrow> builder \<Rightarrow> builder fs_op" where
  "load_rgb hw_logger obj b =
     co_bind (fs_result (result_bind (object_at obj ''leds'') as_array)) (\<lambda>leds.
     co_bind (load_led leds ''red'') (\<lambda>r.
     co_bind (load_led leds ''green'') (\<lambda>g.
     co_bind (load_led leds ''blue'') (\<lambda>bl.
       case (r, g, bl) of
         (Some r, Some g, Some bl) \<Rightarrow>
           let led = \<lparr>red_led = r, green_led = g, blue_led = bl\<rparr> in
           co_return (fold (\<lambda>t. add_device (Rgb_indicator t led)) [Fault, Maintenance, Status, Warning] b)
       | _ \<Rightarrow> if hw_logger then co_return b else co_throw (Undefined_behaviour ''null logger'')))))"

text \<open>The three providers of loaders differ in the loader only.\<close>

definition load_generic :: "(string \<Rightarrow> loader) \<Rightarrow> json_object \<Rightarrow> builder \<Rightarrow> builder result" where
  "load_generic mk obj b =
     result_bind (result_bind (object_at obj ''model'') pdtree_to_string) (\<lambda>_.
       if \<not> object_contains obj ''sysfs_path'' then Inr b
       else result_map (\<lambda>p. add_loader (mk p) b) (pdtree_get obj ''sysfs_path''))"

fun provider_load :: "bool \<Rightarrow> provider \<Rightarrow> json_object \<Rightarrow> builder \<Rightarrow> builder fs_op" where
  "provider_load hw Rgb_indicator_provider obj b = load_rgb hw obj b"
| "provider_load hw Hatch_provider obj b = fs_result (load_generic Hatch_loader obj b)"
| "provider_load hw Ds18b20_provider obj b = fs_result (load_generic Ds18b20_loader obj b)"
| "provider_load hw Cpu_temp_provider obj b = fs_result (load_generic Cpu_temp_loader obj b)"

section \<open>Discovery\<close>

definition all_providers :: "provider list" where
  "all_providers = [Rgb_indicator_provider, Hatch_provider, Ds18b20_provider, Cpu_temp_provider]"

definition new_discovery :: "string \<Rightarrow> unit fs_op" where
  "new_discovery path = (\<lambda>w.
     if fs_exists w path then co_return () w
     else co_throw (Runtime_error ''Platform device tree file does not exist'') w)"

definition setup_entry :: "bool \<Rightarrow> json \<Rightarrow> builder \<Rightarrow> builder fs_op" where
  "setup_entry hw entry b =
     co_bind (fs_result (as_object entry)) (\<lambda>obj.
     co_bind (fs_result (result_bind (object_at obj ''compatible'') pdtree_to_string)) (\<lambda>c.
       case List.find (\<lambda>p. compatible p = c) all_providers of
         None \<Rightarrow> co_throw (Runtime_error (''Cannot find loader for device with compatible: '' @ c))
       | Some p \<Rightarrow> provider_load hw p obj b))"

fun setup_entries :: "bool \<Rightarrow> json list \<Rightarrow> builder \<Rightarrow> builder fs_op" where
  "setup_entries hw [] b = co_return b"
| "setup_entries hw (e # es) b = co_bind (setup_entry hw e b) (setup_entries hw es)"

definition discovery_setup :: "json_lib \<Rightarrow> bool \<Rightarrow> string \<Rightarrow> builder \<Rightarrow> builder fs_op" where
  "discovery_setup L hw path b =
     co_bind (pdtree_load L path) (\<lambda>content.
     co_bind (fs_result (as_array content)) (\<lambda>entries. setup_entries hw entries b))"

section \<open>Lemmas\<close>

text \<open>
  What an entry contributes to a discovery that succeeds, as a reference: a loader of the kind its
  \<open>compatible\<close> names, when it has a \<open>sysfs_path\<close>.
\<close>

definition loader_of :: "string \<Rightarrow> (string \<Rightarrow> loader) option" where
  "loader_of c =
     (if c = ''sysfs_hatch2sr'' then Some Hatch_loader
      else if c = ''sysfs_ds18b20'' then Some Ds18b20_loader
      else if c = ''sysfs_cpu_temp_sensor'' then Some Cpu_temp_loader else None)"

definition c_string :: "json option \<Rightarrow> string option" where
  "c_string j = (case j of Some (J_string s) \<Rightarrow> Some (takeWhile (\<lambda>c. c \<noteq> char_of (0::nat)) s) | _ \<Rightarrow> None)"

fun entry_loaders :: "json \<Rightarrow> loader list" where
  "entry_loaders (J_object obj) =
     (case Option.bind (c_string (map_of obj ''compatible'')) loader_of of
        None \<Rightarrow> []
      | Some mk \<Rightarrow> (case Option.bind (c_string (map_of obj ''sysfs_path'')) first_word of
          None \<Rightarrow> [] | Some p \<Rightarrow> [mk p]))"
| "entry_loaders _ = []"

text \<open>The four indicators of an RGB LED, in the order they are added.\<close>

definition indicators_of :: "sysfs_rgbled \<Rightarrow> indicator list" where
  "indicators_of l = map (\<lambda>t. Rgb_indicator t l) [Fault, Maintenance, Status, Warning]"

lemma string_at_Inr: "result_bind (object_at obj k) pdtree_to_string = Inr s \<longleftrightarrow> c_string (map_of obj k) = Some s"
  by (auto simp: object_at_def pdtree_to_string_def c_string_def split: option.splits json.split)

lemma pdtree_get_Inr: "pdtree_get obj k = Inr s \<longleftrightarrow> Option.bind (c_string (map_of obj k)) first_word = Some s"
  by (auto simp: pdtree_get_def object_contains_def object_at_def pdtree_to_string_def c_string_def
      result_bind_eq_Inr split: option.splits json.split)

lemma load_generic_Inr:
  assumes "load_generic mk obj b = Inr b'"
  shows "b' = b\<lparr>built_loaders := built_loaders b @
    (case Option.bind (c_string (map_of obj ''sysfs_path'')) first_word of None \<Rightarrow> [] | Some p \<Rightarrow> [mk p])\<rparr>"
  using assms pdtree_get_Inr [of obj "''sysfs_path''"]
  by (auto simp: load_generic_def result_bind_eq_Inr result_map_eq_Inr object_contains_def c_string_def
      add_loader_def split: if_splits)

lemma fs_result_Some: "fs_result r w = Some (x, w') \<longleftrightarrow> r = x \<and> w' = w"
  by (auto simp: fs_result_def)

lemma new_sysfs_led_same: "new_sysfs_led p w = Some (r, w') \<Longrightarrow> w' = w"
  by (auto simp: new_sysfs_led_def co_bind_eq_Some co_run_def get_path_def co_return_def split: if_splits)

lemma load_led_same: "load_led leds label w = Some (r, w') \<Longrightarrow> w' = w"
  by (auto simp: load_led_def co_bind_eq_Some fs_result_Some co_return_def
      dest: new_sysfs_led_same split: option.splits if_splits)

lemma load_rgb_Inr:
  assumes "load_rgb hw obj b w = Some (Inr b', w')"
  shows "w' = w \<and> (\<exists>ls. b' = b\<lparr>built_indicators := built_indicators b @ concat (map indicators_of ls)\<rparr>)"
proof -
  from assms obtain leds r g bl w1 w2 w3 where
    "load_led leds ''red'' w = Some (Inr r, w1)" "load_led leds ''green'' w1 = Some (Inr g, w2)"
    "load_led leds ''blue'' w2 = Some (Inr bl, w3)"
    and last: "(case (r, g, bl) of
         (Some r, Some g, Some bl) \<Rightarrow>
           let led = \<lparr>red_led = r, green_led = g, blue_led = bl\<rparr> in
           co_return (fold (\<lambda>t. add_device (Rgb_indicator t led)) [Fault, Maintenance, Status, Warning] b)
       | _ \<Rightarrow> if hw then co_return b else co_throw (Undefined_behaviour ''null logger'')) w3 = Some (Inr b', w')"
    by (auto simp: load_rgb_def co_bind_eq_Some fs_result_Some)
  then have w: "w3 = w" using load_led_same by metis
  show ?thesis
  proof (cases "r \<noteq> None \<and> g \<noteq> None \<and> bl \<noteq> None")
    case True
    then obtain r' g' bl' where "r = Some r'" "g = Some g'" "bl = Some bl'" by auto
    with last w show ?thesis
      by (auto simp: Let_def co_return_def add_device_def indicators_of_def
          intro!: exI [of _ "[\<lparr>red_led = r', green_led = g', blue_led = bl'\<rparr>]"])
  next
    case False
    with last w show ?thesis
      by (auto simp: co_return_def co_throw_def intro!: exI [of _ "[]"] split: option.splits if_splits)
  qed
qed

lemma loader_of_compatible:
  "loader_of (compatible p) = (case p of Rgb_indicator_provider \<Rightarrow> None | Hatch_provider \<Rightarrow> Some Hatch_loader
     | Ds18b20_provider \<Rightarrow> Some Ds18b20_loader | Cpu_temp_provider \<Rightarrow> Some Cpu_temp_loader)"
  by (cases p) (simp_all add: loader_of_def)

lemma provider_load_Inr:
  assumes "provider_load hw p obj b w = Some (Inr b', w')"
    and "c_string (map_of obj ''compatible'') = Some (compatible p)"
  shows "w' = w \<and> built_loaders b' = built_loaders b @ entry_loaders (J_object obj)
    \<and> (\<exists>ls. built_indicators b' = built_indicators b @ concat (map indicators_of ls))"
proof (cases "p = Rgb_indicator_provider")
  case True
  with assms have run: "load_rgb hw obj b w = Some (Inr b', w')" by simp
  have "entry_loaders (J_object obj) = []" using True assms(2) by (simp add: loader_of_compatible del: compatible.simps)
  with load_rgb_Inr [OF run] show ?thesis by auto
next
  case False
  then obtain mk where mk: "loader_of (compatible p) = Some mk"
    "provider_load hw p obj b = fs_result (load_generic mk obj b)"
    by (cases p) (simp_all add: loader_of_compatible del: compatible.simps)
  then have run: "load_generic mk obj b = Inr b'" "w' = w" using assms(1) by (simp_all add: fs_result_Some)
  from load_generic_Inr [OF run(1)] assms(2) mk(1) run(2) show ?thesis
    by (auto simp del: compatible.simps intro!: exI [of _ "[]"])
qed

lemma setup_entry_Inr:
  assumes "setup_entry hw e b w = Some (Inr b', w')"
  shows "w' = w \<and> built_loaders b' = built_loaders b @ entry_loaders e
    \<and> (\<exists>ls. built_indicators b' = built_indicators b @ concat (map indicators_of ls))"
proof -
  from assms obtain obj c p where e: "e = J_object obj" and c: "c_string (map_of obj ''compatible'') = Some c"
    and p: "List.find (\<lambda>p. compatible p = c) all_providers = Some p"
    and load: "provider_load hw p obj b w = Some (Inr b', w')"
    by (cases e) (auto simp: setup_entry_def co_bind_eq_Some fs_result_Some string_at_Inr co_throw_def split: option.splits)
  from p have "compatible p = c" by (auto simp: find_Some_iff)
  with provider_load_Inr [OF load] c e show ?thesis by simp
qed

lemma setup_entries_append:
  "setup_entries hw (es @ fs) b = co_bind (setup_entries hw es b) (setup_entries hw fs)"
  by (induction es arbitrary: b) (auto simp: fun_eq_iff co_bind_def co_return_def split: option.split prod.split sum.split)

lemma setup_entries_Inr:
  assumes "setup_entries hw es b w = Some (Inr b', w')"
  shows "w' = w \<and> built_loaders b' = built_loaders b @ concat (map entry_loaders es)
    \<and> (\<exists>ls. built_indicators b' = built_indicators b @ concat (map indicators_of ls))"
  using assms
proof (induction es arbitrary: b w)
  case Nil
  then show ?case by (auto simp: co_return_def intro!: exI [of _ "[]"])
next
  case (Cons e es)
  then obtain b1 w1 where one: "setup_entry hw e b w = Some (Inr b1, w1)"
    and more: "setup_entries hw es b1 w1 = Some (Inr b', w')"
    by (auto simp: co_bind_eq_Some)
  from setup_entry_Inr [OF one] Cons.IH [OF more] obtain ls ls' where
    "w' = w" "built_loaders b' = built_loaders b @ entry_loaders e @ concat (map entry_loaders es)"
    "built_indicators b' = built_indicators b @ concat (map indicators_of (ls @ ls'))" by auto
  then show ?case by (intro conjI exI [of _ "ls @ ls'"]) simp_all
qed

text \<open>Discovery reads the file system and leaves it as it is, also when it throws.\<close>

lemma load_led_keeps: "co_keeps ((=) w) (load_led leds label)"
  by (rule co_keepsI) (auto dest: load_led_same)

lemma fs_result_keeps: "co_keeps P (fs_result r)"
  by (simp add: co_keeps_def fs_result_def)

lemma load_rgb_keeps: "co_keeps ((=) w) (load_rgb hw obj b)"
  unfolding load_rgb_def Let_def
  by (intro co_keeps_bind fs_result_keeps load_led_keeps)
    (auto intro: co_keeps_return co_keeps_throw split: option.split)

lemma provider_load_same: "provider_load hw p obj b w = Some (r, w') \<Longrightarrow> w' = w"
  by (cases p) (auto simp: fs_result_Some dest: co_keepsD [OF load_rgb_keeps refl, THEN sym])

lemma setup_entry_same: "setup_entry hw e b w = Some (r, w') \<Longrightarrow> w' = w"
  by (auto simp: setup_entry_def co_bind_eq_Some fs_result_Some co_throw_def
      dest: provider_load_same split: option.splits)

lemma setup_entries_same: "setup_entries hw es b w = Some (r, w') \<Longrightarrow> w' = w"
  by (induction es arbitrary: b w) (auto simp: co_return_def co_bind_eq_Some dest: setup_entry_same)

lemma unknown_compatible_throws:
  assumes "c_string (map_of obj ''compatible'') = Some c"
    and "c \<notin> {''sysfs_rgbled_indicator'', ''sysfs_hatch2sr'', ''sysfs_ds18b20'', ''sysfs_cpu_temp_sensor''}"
  shows "setup_entry hw (J_object obj) b w =
    Some (Inl (Runtime_error (''Cannot find loader for device with compatible: '' @ c)), w)"
proof -
  have at: "result_bind (object_at obj ''compatible'') pdtree_to_string = Inr c"
    using assms(1) by (simp add: string_at_Inr)
  have "List.find (\<lambda>p. compatible p = c) all_providers = None"
    using assms(2) by (auto simp: all_providers_def)
  with at show ?thesis by (simp add: setup_entry_def co_bind_def fs_result_def co_throw_def)
qed

section \<open>Properties\<close>

text \<open>C32: A discovery that succeeds reads the file to an array, changes no file, and builds exactly what
  the entries say: in their order, the loader that each entry with a \<open>sysfs_path\<close> asks for, and RGB
  indicators only, the four kinds of each LED.\<close>

theorem discovery_builds_what_is_described:
  assumes "discovery_setup L hw path new_builder w = Some (Inr b, w')"
  shows "w' = w \<and> (\<exists>st es ls. open_in path w = Some st \<and> json_parse L (rest st) = Inr (J_array es)
    \<and> built_loaders b = concat (map entry_loaders es)
    \<and> built_indicators b = concat (map (\<lambda>l. map (\<lambda>t. Rgb_indicator t l) [Fault, Maintenance, Status, Warning]) ls))"
proof -
  from assms obtain content w1 es where load: "pdtree_load L path w = Some (Inr content, w1)"
    and es: "as_array content = Inr es" and setup': "setup_entries hw es new_builder w1 = Some (Inr b, w')"
    by (auto simp: discovery_setup_def co_bind_eq_Some fs_result_Some)
  from es have c: "content = J_array es" by (cases content) auto
  from load c obtain st where st: "open_in path w = Some st" "json_parse L (rest st) = Inr (J_array es)" "w1 = w"
    by (auto simp: pdtree_load_def split: option.splits if_splits sum.splits)
  from setup_entries_Inr [OF setup'] st show ?thesis
    by (auto simp: new_builder_def indicators_of_def [abs_def])
qed

text \<open>A board with an RGB LED, a hatch and the sensor of the processor; the library knows one text.\<close>

definition example_pdtree :: json where
  "example_pdtree =
     (let led = (\<lambda>c. J_object [(''color'', J_string c), (''sysfs_path'', J_string (''/sys/'' @ c))])
      in J_array
       [J_object [(''compatible'', J_string ''sysfs_rgbled_indicator''),
          (''leds'', J_array [led ''red'', led ''green'', led ''blue''])],
        J_object [(''compatible'', J_string ''sysfs_hatch2sr''), (''model'', J_string ''h2''),
          (''sysfs_path'', J_string ''/sys/hatch'')],
        J_object [(''compatible'', J_string ''sysfs_cpu_temp_sensor''), (''model'', J_string ''cpu''),
          (''sysfs_path'', J_string ''/sys/cpu'')]])"

definition example_pdtree_json :: json_lib where
  "example_pdtree_json = \<lparr>json_parse = (\<lambda>s. if s = ''tree'' then Inr example_pdtree else Inl (Json_error ''syntax'')),
     json_serialize = (\<lambda>j. ''tree''), json_incomplete = (\<lambda>s. False)\<rparr>"

definition example_board_files :: fs where
  "example_board_files = \<lparr>files = [''/pdtree.json'' \<mapsto> regular_file ''tree''],
     directories = {''/sys/red'', ''/sys/green'', ''/sys/blue'', ''/sys/hatch'', ''/sys/cpu''},
     may_create = (\<lambda>p. True)\<rparr>"

lemma example_discovered:
  "case discovery_setup example_pdtree_json False ''/pdtree.json'' new_builder example_board_files of
     Some (Inr b, w) \<Rightarrow> built_loaders b = [Hatch_loader ''/sys/hatch'', Cpu_temp_loader ''/sys/cpu'']
       \<and> length (built_indicators b) = 4
   | _ \<Rightarrow> False"
  by code_simp

theorem discovery_builds_what_is_described_witness:
  "\<exists>b w ls. discovery_setup example_pdtree_json False ''/pdtree.json'' new_builder example_board_files = Some (Inr b, w)
    \<and> w = example_board_files \<and> length (built_indicators b) = 4
    \<and> built_indicators b = concat (map (\<lambda>l. map (\<lambda>t. Rgb_indicator t l) [Fault, Maintenance, Status, Warning]) ls)"
proof -
  from example_discovered obtain b w where
    run: "discovery_setup example_pdtree_json False ''/pdtree.json'' new_builder example_board_files = Some (Inr b, w)"
    and len: "length (built_indicators b) = 4"
    by (auto split: option.splits prod.splits sum.splits)
  from discovery_builds_what_is_described [OF run] run len show ?thesis by blast
qed

end
