(* ===== verification/Board_Start.thy ===== *)
theory Board_Start
  imports Platform
begin

text \<open>
  The start of the board (\<^verbatim>\<open>app/main_board_init.hpp\<close>, \<^verbatim>\<open>platform/generic_device_loading_strategy.hpp\<close>,
  and the loaders the providers hand to the builder): the board and the devices found under it are
  registered, given a poller, entered into the tree and announced on the bus.
\<close>

section \<open>State\<close>

text \<open>
  What the start works on: the counter of identifiers, the inventories and the files, the device
  tree, the store of identities, the polling service and the events published on the bus.
\<close>

record platform =
  pf_ids :: device_id
  pf_world :: ha_world
  pf_tree :: "unit device_tree"
  pf_store :: hardware_identity_store
  pf_polling :: polling_service
  pf_events :: "device_event list"

definition new_platform :: "fs \<Rightarrow> platform" where
  "new_platform w = \<lparr>pf_ids = next_id (new_registry :: unit registry),
     pf_world = \<lparr>world_hatches = empty_inventory, world_boards = empty_inventory,
       world_sensors = empty_inventory, world_fs = w, restarts = 0\<rparr>,
     pf_tree = empty_tree, pf_store = Map.empty, pf_polling = new_polling_service, pf_events = []\<rparr>"

definition on_files :: "'a fs_op \<Rightarrow> (platform, 'a) co" where
  "on_files m = (\<lambda>p. map_option (\<lambda>(r, w). (r, p\<lparr>pf_world := w\<rparr>)) (on_fs m (pf_world p)))"

definition on_polling :: "(polling_service, 'a) eff \<Rightarrow> (platform, 'a) co" where
  "on_polling m = (\<lambda>p. case m (pf_polling p) of (r, s) \<Rightarrow> Some (r, p\<lparr>pf_polling := s\<rparr>))"

definition publish_created :: "device_event \<Rightarrow> (platform, unit) co" where
  "publish_created e = (\<lambda>p. Some (Inr (), p\<lparr>pf_events := pf_events p @ [e]\<rparr>))"

text \<open>A registration, in the inventory that \<open>get\<close> and \<open>put\<close> name.\<close>

definition register_in ::
    "(ha_world \<Rightarrow> 'd inventory) \<Rightarrow> ('d inventory \<Rightarrow> ha_world \<Rightarrow> ha_world) \<Rightarrow> ('d registry, 'a) eff
      \<Rightarrow> (platform, 'a) co" where
  "register_in get put m = (\<lambda>p.
     case m \<lparr>next_id = pf_ids p, inventory = get (pf_world p)\<rparr> of
       (r, g) \<Rightarrow> Some (r, p\<lparr>pf_ids := next_id g, pf_world := put (inventory g) (pf_world p)\<rparr>))"

definition register_hatch :: "sysfs_hatch result \<Rightarrow> (platform, device_id) co" where
  "register_hatch h = register_in world_hatches (\<lambda>m w. w\<lparr>world_hatches := m\<rparr>) (register_device_args h)"

definition register_sensor :: "temp_sensor \<Rightarrow> (platform, device_id) co" where
  "register_sensor t = register_in world_sensors (\<lambda>m w. w\<lparr>world_sensors := m\<rparr>) (register_device_args (Inr t))"

definition register_board :: "main_board \<Rightarrow> (platform, device_id) co" where
  "register_board b = register_in world_boards (\<lambda>m w. w\<lparr>world_boards := m\<rparr>) (register_device b)"

section \<open>Loaders\<close>

text \<open>The intervals are in milliseconds.\<close>

definition with_poller :: "device_kind \<Rightarrow> int \<Rightarrow> device_id \<Rightarrow> (platform, device_id) co" where
  "with_poller k interval i =
     co_bind (on_polling (add_poller \<lparr>poller_device = i, poller_interval = interval, poller_kind = k\<rparr>))
       (\<lambda>_. co_return i)"

text \<open>
  The hatch is constructed by the register, after its identifier was taken; its constructor only
  looks at the file system. The sensors are constructed first.
\<close>

definition load_hatch :: "string \<Rightarrow> (platform, device_id) co" where
  "load_hatch dir = (\<lambda>p.
     case new_sysfs_hatch dir (world_fs (pf_world p)) of
       None \<Rightarrow> None
     | Some (h, w) \<Rightarrow> co_bind (register_hatch h) (with_poller Hatch_kind 2000) p)"

definition load_ds18b20 :: "string \<Rightarrow> (platform, device_id) co" where
  "load_ds18b20 dir =
     co_bind (on_files (new_ds18b20 dir)) (\<lambda>t. co_bind (register_sensor t) (with_poller Temp_sensor_kind 10000))"

definition load_cpu_temp :: "string \<Rightarrow> (platform, device_id) co" where
  "load_cpu_temp dir =
     co_bind (on_files (new_cpu_temp_sensor dir)) (\<lambda>t. co_bind (register_sensor t) (with_poller Temp_sensor_kind 2000))"

fun run_loader :: "loader \<Rightarrow> (platform, device_id) co" where
  "run_loader (Hatch_loader dir) = load_hatch dir"
| "run_loader (Ds18b20_loader dir) = load_ds18b20 dir"
| "run_loader (Cpu_temp_loader dir) = load_cpu_temp dir"

fun loader_kind :: "loader \<Rightarrow> device_kind" where
  "loader_kind (Hatch_loader dir) = Hatch_kind"
| "loader_kind (Ds18b20_loader dir) = Temp_sensor_kind"
| "loader_kind (Cpu_temp_loader dir) = Temp_sensor_kind"

text \<open>\<open>DefaultGenericDeviceLoadingStrategy::handle<D>\<close>, over the load operation of the loader.\<close>

definition handle_device :: "device_id \<Rightarrow> device_kind \<Rightarrow> (platform, device_id) co \<Rightarrow> (platform, unit) co" where
  "handle_device board k load =
     co_bind load (\<lambda>i p.
       publish_created (Device_created k i) (p\<lparr>pf_tree := snd (add_child board i None (pf_tree p))\<rparr>))"

definition handle_loader :: "device_id \<Rightarrow> loader \<Rightarrow> (platform, unit) co" where
  "handle_loader board l = handle_device board (loader_kind l) (run_loader l)"

fun handle_loaders :: "device_id \<Rightarrow> loader list \<Rightarrow> (platform, unit) co" where
  "handle_loaders board [] = co_return ()"
| "handle_loaders board (l # ls) = co_bind (handle_loader board l) (\<lambda>_. handle_loaders board ls)"

section \<open>The start\<close>

text \<open>\<open>emplace\<close> of a map leaves an entry that is there alone.\<close>

definition store_identity :: "device_id \<Rightarrow> hardware_identity \<Rightarrow> (platform, unit) co" where
  "store_identity i h = (\<lambda>p. Some (Inr (),
     case pf_store p i of None \<Rightarrow> p\<lparr>pf_store := (pf_store p)(i \<mapsto> h)\<rparr> | Some h' \<Rightarrow> p))"

definition start_board :: "main_board \<Rightarrow> (platform, device_id) co" where
  "start_board b =
     co_bind (register_board b) (\<lambda>i.
     co_bind (on_files board_hardware_identity) (\<lambda>h.
     co_bind (store_identity i h) (\<lambda>_.
     co_bind (with_poller Board_kind 5000 i) (\<lambda>_.
     co_bind (publish_created (Device_created Board_kind i)) (\<lambda>_. co_return i)))))"

definition main_board_init :: "json_lib \<Rightarrow> bool \<Rightarrow> string \<Rightarrow> (platform, unit) co" where
  "main_board_init L hw path =
     co_bind (on_files (new_discovery path)) (\<lambda>_.
     co_bind (on_files (discovery_setup L hw path new_builder)) (\<lambda>b.
     co_bind (on_files (new_main_board (built_indicators b))) (\<lambda>board.
     co_bind (start_board board) (\<lambda>i. handle_loaders i (built_loaders b)))))"

section \<open>Lemmas\<close>

definition known :: "device_kind \<Rightarrow> device_id \<Rightarrow> ha_world \<Rightarrow> bool" where
  "known k i w = (case k of
     Board_kind \<Rightarrow> inventory_exists i (world_boards w)
   | Hatch_kind \<Rightarrow> inventory_exists i (world_hatches w)
   | Temp_sensor_kind \<Rightarrow> inventory_exists i (world_sensors w))"

text \<open>What loading a device changes: it takes one identifier, one poller and one place in the inventory.\<close>

definition device_loaded :: "device_kind \<Rightarrow> platform \<Rightarrow> platform \<Rightarrow> bool" where
  "device_loaded k p p' \<longleftrightarrow>
     pf_ids p' = pf_ids p + 1 \<and> pf_tree p' = pf_tree p \<and> pf_store p' = pf_store p \<and> pf_events p' = pf_events p
     \<and> pf_ids p \<notin> poller_device ` set (pollers (pf_polling p))
     \<and> map (\<lambda>e. (poller_kind e, poller_device e)) (pollers (pf_polling p')) =
         map (\<lambda>e. (poller_kind e, poller_device e)) (pollers (pf_polling p)) @ [(k, pf_ids p)]
     \<and> started (pf_polling p') = started (pf_polling p) @ [pf_ids p]
     \<and> known k (pf_ids p) (pf_world p')
     \<and> (\<forall>k j. known k j (pf_world p) \<longrightarrow> known k j (pf_world p'))"

lemma add_poller_Inr:
  "add_poller e s = (Inr (), s') \<longleftrightarrow>
     poller_device e \<notin> poller_device ` set (pollers s) \<and>
     s' = \<lparr>pollers = pollers s @ [e], started = started s @ [poller_device e]\<rparr>"
proof -
  have "length (filter (\<lambda>p. poller_device p = poller_device e) (pollers s)) \<noteq> 0
      \<longleftrightarrow> poller_device e \<in> poller_device ` set (pollers s)"
    by (auto simp: filter_empty_conv image_iff eq_commute [of "poller_device e"])
  then show ?thesis
    by (cases s) (auto simp: add_poller_def start_poller_def eff_return_def eff_throw_def)
qed

lemma with_poller_Inr:
  "with_poller k n i p = Some (Inr j, p') \<longleftrightarrow>
     j = i \<and> i \<notin> poller_device ` set (pollers (pf_polling p)) \<and>
     p' = p\<lparr>pf_polling := \<lparr>pollers = pollers (pf_polling p) @
        [\<lparr>poller_device = i, poller_interval = n, poller_kind = k\<rparr>], started = started (pf_polling p) @ [i]\<rparr>\<rparr>"
proof -
  have "with_poller k n i p = Some (Inr j, p') \<longleftrightarrow> j = i \<and> (\<exists>s. add_poller
      \<lparr>poller_device = i, poller_interval = n, poller_kind = k\<rparr> (pf_polling p) = (Inr (), s) \<and> p' = p\<lparr>pf_polling := s\<rparr>)"
    by (auto simp: with_poller_def co_bind_eq_Some on_polling_def co_return_def split: prod.split prod.split_asm)
  then show ?thesis by (auto simp: add_poller_Inr)
qed

lemma register_args_Inr:
  "register_device_args a r = (Inr i, r') \<longleftrightarrow>
     (\<exists>d. a = Inr d \<and> inventory r (next_id r) = None \<and> i = next_id r
        \<and> r' = \<lparr>next_id = next_id r + 1, inventory = (inventory r)(next_id r \<mapsto> d)\<rparr>)"
  by (auto simp: register_device_args_eq register_device_eq split: sum.splits)

lemma register_Inr:
  "register_device d r = (Inr i, r') \<longleftrightarrow>
     (inventory r (next_id r) = None \<and> i = next_id r
        \<and> r' = \<lparr>next_id = next_id r + 1, inventory = (inventory r)(next_id r \<mapsto> d)\<rparr>)"
  by (auto simp: register_device_eq)

lemma register_in_Inr:
  "register_in get put m p = Some (Inr i, p') \<longleftrightarrow>
     (\<exists>g. m \<lparr>next_id = pf_ids p, inventory = get (pf_world p)\<rparr> = (Inr i, g)
        \<and> p' = p\<lparr>pf_ids := next_id g, pf_world := put (inventory g) (pf_world p)\<rparr>)"
  by (auto simp: register_in_def split: prod.split prod.split_asm)

lemma on_files_Inr:
  "on_files m p = Some (r, p') \<longleftrightarrow>
     (\<exists>w. m (world_fs (pf_world p)) = Some (r, w) \<and> p' = p\<lparr>pf_world := (pf_world p)\<lparr>world_fs := w\<rparr>\<rparr>)"
  by (auto simp: on_files_def on_fs_def)

lemma known_files [simp]: "known k i (w\<lparr>world_fs := f\<rparr>) = known k i w"
  by (simp add: known_def split: device_kind.split)

text \<open>
  The platform after the devices \<open>ds\<close> were started, the board first: identifiers count up from one,
  each device is announced, polled and known, and all but the board are children of the board, whose
  identity is the only one stored.
\<close>

definition all_announced :: "(device_kind \<times> device_id) list \<Rightarrow> hardware_identity \<Rightarrow> platform \<Rightarrow> bool" where
  "all_announced ds h p \<longleftrightarrow>
     pf_ids p = of_nat (Suc (length ds)) \<and> map snd ds = map of_nat [1..<Suc (length ds)]
     \<and> distinct (map snd ds)
     \<and> pf_events p = map (\<lambda>(k, i). Device_created k i) ds
     \<and> map (\<lambda>e. (poller_kind e, poller_device e)) (pollers (pf_polling p)) = ds
     \<and> started (pf_polling p) = map snd ds
     \<and> nodes (pf_tree p) = map (\<lambda>d. \<lparr>parent_device_id = 1, node_device_id = snd d, func = None\<rparr>) (tl ds)
     \<and> pf_store p = [1 \<mapsto> h]
     \<and> (\<forall>d \<in> set ds. known (fst d) (snd d) (pf_world p))"

lemma polled_ids:
  "map (\<lambda>e. (poller_kind e, poller_device e)) ps = ds \<Longrightarrow> poller_device ` set ps = snd ` set ds"
  by (force simp: image_iff)

text \<open>
  The contract of a loader, for the strategy that handles it: a load that returns has registered one
  device of the kind the loader was added for and given it a poller.
\<close>

locale device_loader =
  fixes load :: "(platform, device_id) co" and kind :: device_kind
  assumes loads: "load p = Some (Inr i, p') \<Longrightarrow> i = pf_ids p \<and> device_loaded kind p p'"
begin

lemma handled_is_announced:
  assumes ann: "all_announced ds h p" and ne: "ds \<noteq> []" and run: "handle_device 1 kind load p = Some (Inr (), p')"
  shows "all_announced (ds @ [(kind, pf_ids p)]) h p'"
proof -
  from run obtain q where q: "load p = Some (Inr (pf_ids p), q)"
    and p': "p' = q\<lparr>pf_tree := snd (add_child 1 (pf_ids p) None (pf_tree q)),
      pf_events := pf_events q @ [Device_created kind (pf_ids p)]\<rparr>"
    by (auto simp: handle_device_def co_bind_eq_Some publish_created_def dest: loads)
  from loads [OF q] have l: "device_loaded kind p q" by simp
  have fresh: "pf_ids p \<notin> snd ` set ds"
    using l ann polled_ids [of "pollers (pf_polling p)" ds] by (simp add: device_loaded_def all_announced_def)
  let ?pol = "\<lambda>p. map (\<lambda>e. (poller_kind e, poller_device e)) (pollers (pf_polling p))"
  from ann have a: "pf_ids p = of_nat (Suc (length ds))" "map snd ds = map of_nat [1..<Suc (length ds)]"
    "distinct (map snd ds)" "pf_events p = map (\<lambda>(k, i). Device_created k i) ds" "?pol p = ds"
    "started (pf_polling p) = map snd ds" "pf_store p = [1 \<mapsto> h]"
    "nodes (pf_tree p) = map (\<lambda>d. \<lparr>parent_device_id = 1, node_device_id = snd d, func = None\<rparr>) (tl ds)"
    "\<forall>d \<in> set ds. known (fst d) (snd d) (pf_world p)"
    unfolding all_announced_def by blast+
  from l have b: "pf_ids q = pf_ids p + 1" "pf_tree q = pf_tree p" "pf_store q = pf_store p"
    "pf_events q = pf_events p" "?pol q = ?pol p @ [(kind, pf_ids p)]"
    "started (pf_polling q) = started (pf_polling p) @ [pf_ids p]" "known (kind) (pf_ids p) (pf_world q)"
    "\<forall>k j. known k j (pf_world p) \<longrightarrow> known k j (pf_world q)"
    unfolding device_loaded_def by blast+
  have "set (tl ds) \<subseteq> set ds" using ne by (cases ds) auto
  with fresh have "pf_ids p \<notin> snd ` set (tl ds)" by blast
  then have "List.find (\<lambda>n. node_device_id n = pf_ids p) (nodes (pf_tree q)) = None"
    unfolding b(2) a(8) find_None_iff by force
  then have tree: "nodes (snd (add_child 1 (pf_ids p) None (pf_tree q))) =
      nodes (pf_tree q) @ [\<lparr>parent_device_id = 1, node_device_id = pf_ids p, func = None\<rparr>]"
    by (simp add: add_child_def)
  have tl: "tl (ds @ [x]) = tl ds @ [x]" for x using ne by (cases ds) auto
  have new: "pf_ids p' = of_nat (Suc (length (ds @ [(kind, pf_ids p)])))"
    "map snd (ds @ [(kind, pf_ids p)]) = map of_nat [1..<Suc (length (ds @ [(kind, pf_ids p)]))]"
    using a(1,2) b(1) ne by (simp_all add: p')
  have rest: "distinct (map snd (ds @ [(kind, pf_ids p)]))"
    "pf_events p' = map (\<lambda>(k, i). Device_created k i) (ds @ [(kind, pf_ids p)])"
    "?pol p' = ds @ [(kind, pf_ids p)]"
    "started (pf_polling p') = map snd (ds @ [(kind, pf_ids p)])"
    "nodes (pf_tree p') = map (\<lambda>d. \<lparr>parent_device_id = 1, node_device_id = snd d, func = None\<rparr>)
       (tl (ds @ [(kind, pf_ids p)]))"
    "pf_store p' = [1 \<mapsto> h]"
    using a(3-8) b(2-6) fresh by (simp_all add: p' tree [unfolded b(2)] tl)
  have "\<forall>d \<in> set (ds @ [(kind, pf_ids p)]). known (fst d) (snd d) (pf_world p')"
    using a(9) b(7,8) by (auto simp: p')
  with new rest show ?thesis unfolding all_announced_def by blast
qed

end

interpretation hatch_loader: device_loader "load_hatch dir" Hatch_kind
  by unfold_locales
    (auto simp: load_hatch_def co_bind_eq_Some register_hatch_def register_in_Inr register_args_Inr
        with_poller_Inr device_loaded_def known_def inventory_exists_def
        split: option.splits prod.splits device_kind.split)

interpretation ds18b20_loader: device_loader "load_ds18b20 dir" Temp_sensor_kind
  by unfold_locales
    (auto simp: load_ds18b20_def co_bind_eq_Some register_sensor_def register_in_Inr register_args_Inr
        on_files_Inr with_poller_Inr device_loaded_def known_def inventory_exists_def
        split: prod.splits device_kind.split)

interpretation cpu_temp_loader: device_loader "load_cpu_temp dir" Temp_sensor_kind
  by unfold_locales
    (auto simp: load_cpu_temp_def co_bind_eq_Some register_sensor_def register_in_Inr register_args_Inr
        on_files_Inr with_poller_Inr device_loaded_def known_def inventory_exists_def
        split: prod.splits device_kind.split)

interpretation any_loader: device_loader "run_loader l" "loader_kind l"
proof (unfold_locales, cases l)
  fix p i p' dir
  assume run: "run_loader l p = Some (Inr i, p')"
  show "i = pf_ids p \<and> device_loaded (loader_kind l) p p'" if "l = Hatch_loader dir"
    using run that hatch_loader.loads [of dir p i p'] by simp
  show "i = pf_ids p \<and> device_loaded (loader_kind l) p p'" if "l = Ds18b20_loader dir"
    using run that ds18b20_loader.loads [of dir p i p'] by simp
  show "i = pf_ids p \<and> device_loaded (loader_kind l) p p'" if "l = Cpu_temp_loader dir"
    using run that cpu_temp_loader.loads [of dir p i p'] by simp
qed

lemma handle_loaders_announce:
  assumes "all_announced ds h p" and "ds \<noteq> []" and "handle_loaders 1 ls p = Some (Inr (), p')"
  shows "\<exists>ds'. map fst ds' = map loader_kind ls \<and> all_announced (ds @ ds') h p'"
  using assms
proof (induction ls arbitrary: ds p)
  case Nil
  then show ?case by (auto simp: co_return_def)
next
  case (Cons l ls)
  then obtain q where q: "handle_loader 1 l p = Some (Inr (), q)" "handle_loaders 1 ls q = Some (Inr (), p')"
    by (auto simp: co_bind_eq_Some)
  from Cons.IH [OF any_loader.handled_is_announced [OF Cons.prems(1,2) q(1) [unfolded handle_loader_def]] _ q(2)]
  obtain ds' where "map fst ds' = map loader_kind ls"
    "all_announced (ds @ (loader_kind l, pf_ids p) # ds') h p'" by auto
  then show ?case by (intro exI [of _ "(loader_kind l, pf_ids p) # ds'"]) simp
qed

lemma start_board_announces:
  assumes "start_board b ((new_platform w)\<lparr>pf_world := (pf_world (new_platform w))\<lparr>world_fs := f\<rparr>\<rparr>) = Some (Inr i, p)"
  shows "i = 1 \<and> (\<exists>h. all_announced [(Board_kind, 1)] h p)"
  using assms
  by (auto simp: start_board_def co_bind_eq_Some register_board_def register_in_Inr register_Inr on_files_Inr
      store_identity_def with_poller_Inr publish_created_def co_return_def new_platform_def new_registry_def
      new_polling_service_def empty_tree_def all_announced_def known_def inventory_exists_def)

lemma announced_identity:
  assumes ann: "all_announced ds h p" and ds: "ds = (Board_kind, 1) # es" and i: "i \<in> set (map snd ds)"
  shows "get_hardware_identity (pf_store p) (pf_tree p) i = Inr h"
proof (cases "i = 1")
  case True
  with ann show ?thesis by (simp add: all_announced_def get_hardware_identity_def)
next
  case False
  from ann ds have store: "pf_store p = [1 \<mapsto> h]"
    and nodes: "nodes (pf_tree p) = map (\<lambda>d. \<lparr>parent_device_id = 1, node_device_id = snd d, func = None\<rparr>) es"
    by (simp_all add: all_announced_def)
  from False i ds have "i \<in> snd ` set es" by auto
  then obtain n where n: "List.find (\<lambda>n. node_device_id n = i) (nodes (pf_tree p)) = Some n"
    unfolding nodes by (cases "List.find (\<lambda>n. node_device_id n = i)
      (map (\<lambda>d. \<lparr>parent_device_id = 1, node_device_id = snd d, func = None\<rparr>) es)") (force simp: find_None_iff)+
  then have "n \<in> set (nodes (pf_tree p))" by (simp add: find_Some_iff) (metis nth_mem)
  then have "parent_device_id n = 1" unfolding nodes by auto
  with n False show ?thesis
    by (simp add: get_hardware_identity_def parent_of_def store)
qed

lemma main_board_init_announces:
  assumes "main_board_init L hw path (new_platform w) = Some (Inr (), p)"
  shows "\<exists>b f ds h. discovery_setup L hw path new_builder w = Some (Inr b, f)
    \<and> map fst ds = map loader_kind (built_loaders b) \<and> all_announced ((Board_kind, 1) # ds) h p"
proof -
  have "new_discovery path (world_fs (pf_world (new_platform w))) = Some (Inr (), f) \<Longrightarrow> f = w" for f
    by (auto simp: new_discovery_def new_platform_def co_return_def co_throw_def split: if_splits)
  with assms obtain b f f' i q where
    disc: "discovery_setup L hw path new_builder w = Some (Inr b, f)"
    and start: "start_board \<lparr>indicators = built_indicators b\<rparr>
      ((new_platform w)\<lparr>pf_world := (pf_world (new_platform w))\<lparr>world_fs := f'\<rparr>\<rparr>) = Some (Inr i, q)"
    and load: "handle_loaders i (built_loaders b) q = Some (Inr (), p)"
    by (fastforce simp: main_board_init_def co_bind_eq_Some on_files_Inr new_main_board_def Let_def co_return_def)
  from start_board_announces [OF start] obtain h where i: "i = 1" and ann: "all_announced [(Board_kind, 1)] h q" by blast
  from handle_loaders_announce [OF ann _ load [unfolded i]] disc show ?thesis by auto
qed

text \<open>What every device of a started platform has.\<close>

lemma announced_devices:
  assumes all: "all_announced ((Board_kind, 1) # ds) h p"
  shows "list_all (\<lambda>(k, i). known k i (pf_world p)
    \<and> get_hardware_identity (pf_store p) (pf_tree p) i = Inr h) ((Board_kind, 1) # ds)"
proof -
  from all have kn: "\<forall>d \<in> set ((Board_kind, 1) # ds). known (fst d) (snd d) (pf_world p)"
    unfolding all_announced_def by blast
  have "case d of (k, i) \<Rightarrow> known k i (pf_world p) \<and> get_hardware_identity (pf_store p) (pf_tree p) i = Inr h"
    if d: "d \<in> set ((Board_kind, 1) # ds)" for d
  proof -
    from d have "snd d \<in> set (map snd ((Board_kind, 1) # ds))" unfolding set_map by (rule imageI)
    from announced_identity [OF all refl this] bspec [OF kn d] show ?thesis by (cases d) simp
  qed
  then show ?thesis unfolding list_all_iff by blast
qed

section \<open>Properties\<close>

text \<open>C8: A start of the board that succeeds leaves everything in step: the board is device one and the
  devices found under it count up from two, without a repetition; each of them is announced on the
  bus, polled, in the inventory of its kind, a child of the board, and has the hardware identity of
  the board.\<close>

theorem board_start_is_consistent:
  assumes "main_board_init L hw path (new_platform w) = Some (Inr (), p)"
  shows "\<exists>b f ds h. discovery_setup L hw path new_builder w = Some (Inr b, f)
    \<and> map fst ds = Board_kind # map loader_kind (built_loaders b)
    \<and> map snd ds = map of_nat [1..<Suc (length ds)] \<and> distinct (map snd ds)
    \<and> pf_events p = map (\<lambda>(k, i). Device_created k i) ds
    \<and> map (\<lambda>e. (poller_kind e, poller_device e)) (pollers (pf_polling p)) = ds
    \<and> started (pf_polling p) = map snd ds
    \<and> all_children 1 (pf_tree p) = map snd (tl ds)
    \<and> list_all (\<lambda>(k, i). known k i (pf_world p)
        \<and> get_hardware_identity (pf_store p) (pf_tree p) i = Inr h) ds"
proof -
  from main_board_init_announces [OF assms] obtain b f ds h where
    disc: "discovery_setup L hw path new_builder w = Some (Inr b, f)"
    and kinds: "map fst ds = map loader_kind (built_loaders b)" and all: "all_announced ((Board_kind, 1) # ds) h p" by blast
  have tree: "all_children 1 (pf_tree p) = map snd (tl ((Board_kind, 1) # ds))"
    using all by (simp add: all_announced_def all_children_def comp_def)
  have "map fst ((Board_kind, 1) # ds) = Board_kind # map loader_kind (built_loaders b)"
    using kinds by simp
  with disc tree announced_devices [OF all] all show ?thesis
    unfolding all_announced_def
    by - (intro exI [of _ b] exI [of _ f] exI [of _ "(Board_kind, 1) # ds"] exI [of _ h] conjI; elim conjE; assumption)
qed

lemma example_board_started:
  "case main_board_init example_pdtree_json False ''/pdtree.json'' (new_platform example_board_files) of
     Some (Inr u, p) \<Rightarrow> True | _ \<Rightarrow> False"
  by code_simp

theorem board_start_is_consistent_witness:
  "\<exists>p h. main_board_init example_pdtree_json False ''/pdtree.json'' (new_platform example_board_files) = Some (Inr (), p)
    \<and> pf_events p = [Device_created Board_kind 1, Device_created Hatch_kind 2, Device_created Temp_sensor_kind 3]
    \<and> all_children 1 (pf_tree p) = [2, 3]
    \<and> get_hardware_identity (pf_store p) (pf_tree p) 3 = Inr h"
proof -
  from example_board_started obtain p where
    run: "main_board_init example_pdtree_json False ''/pdtree.json'' (new_platform example_board_files) = Some (Inr (), p)"
    by (auto split: option.splits prod.splits sum.splits)
  from board_start_is_consistent [OF run] obtain b f ds h where
    b: "discovery_setup example_pdtree_json False ''/pdtree.json'' new_builder example_board_files = Some (Inr b, f)"
    and ds: "map fst ds = Board_kind # map loader_kind (built_loaders b)" "map snd ds = map of_nat [1..<Suc (length ds)]"
      "pf_events p = map (\<lambda>(k, i). Device_created k i) ds" "all_children 1 (pf_tree p) = map snd (tl ds)"
      "list_all (\<lambda>(k, i). known k i (pf_world p)
        \<and> get_hardware_identity (pf_store p) (pf_tree p) i = Inr h) ds"
    by (elim exE conjE) (rule that)
  from example_discovered b have "map fst ds = [Board_kind, Hatch_kind, Temp_sensor_kind]"
    using ds(1) by simp
  then have "ds = [(Board_kind, 1), (Hatch_kind, 2), (Temp_sensor_kind, 3)]"
    using ds(2) by (auto simp: map_eq_Cons_conv upt_rec)
  with run ds(3-) show ?thesis by auto
qed

text \<open>A start that fails before the board is built has done nothing: when the file of the platform
  is missing, is no array, or has an entry no provider takes, the exception leaves every part as it
  was, with nothing registered, announced or polled. A file that cannot be opened or read is never
  finished.\<close>

theorem failed_discovery_starts_nothing:
  "main_board_init L hw path (new_platform w) =
    (if \<not> fs_exists w path
     then Some (Inl (Runtime_error ''Platform device tree file does not exist''), new_platform w)
     else case open_in path w of
       None \<Rightarrow> None
     | Some st \<Rightarrow> if broken st then None else
        (case json_parse L (rest st) of
           Inr (J_array es) \<Rightarrow>
             (case setup_entries hw es new_builder w of
                None \<Rightarrow> None
              | Some (Inl x, w') \<Rightarrow> Some (Inl x, new_platform w)
              | Some (Inr b, w') \<Rightarrow>
                  co_bind (on_files (new_main_board (built_indicators b))) (\<lambda>board.
                  co_bind (start_board board) (\<lambda>i. handle_loaders i (built_loaders b))) (new_platform w))
         | _ \<Rightarrow> Some (Inl (Json_error ''not an array''), new_platform w)))"
proof -
  have files: "on_files m (new_platform w) = (case m w of None \<Rightarrow> None | Some (r, w') \<Rightarrow> Some (r, new_platform w'))" for m :: "'a fs_op"
    by (cases "m w") (auto simp: on_files_def on_fs_def new_platform_def)
  have same: "setup_entries hw es new_builder w = Some (r, w') \<Longrightarrow> w' = w" for es r w'
    by (rule setup_entries_same)
  show ?thesis
  proof (cases "\<not> fs_exists w path \<or> open_in path w = None \<or> broken (the (open_in path w))")
    case True
    then show ?thesis
      by (cases "open_in path w") (auto simp: main_board_init_def co_bind_def files new_discovery_def discovery_setup_def pdtree_load_def
          co_return_def co_throw_def)
  next
    case False
    then obtain st where st: "fs_exists w path" "open_in path w = Some st" "\<not> broken st" by auto
    define content where "content = (case json_parse L (rest st) of Inl x \<Rightarrow> J_null | Inr j \<Rightarrow> j)"
    have load: "pdtree_load L path w = Some (Inr content, w)"
      using st by (simp add: pdtree_load_def content_def split: sum.split)
    have disc: "discovery_setup L hw path new_builder w =
        (case as_array content of Inl x \<Rightarrow> Some (Inl x, w) | Inr es \<Rightarrow> setup_entries hw es new_builder w)"
      by (simp add: discovery_setup_def co_bind_def fs_result_def load split: sum.split)
    have "main_board_init L hw path (new_platform w) =
      (case as_array content of Inl x \<Rightarrow> Some (Inl x, new_platform w)
       | Inr es \<Rightarrow> (case setup_entries hw es new_builder w of
                None \<Rightarrow> None
              | Some (Inl x, w') \<Rightarrow> Some (Inl x, new_platform w)
              | Some (Inr b, w') \<Rightarrow>
                  co_bind (on_files (new_main_board (built_indicators b))) (\<lambda>board.
                  co_bind (start_board board) (\<lambda>i. handle_loaders i (built_loaders b))) (new_platform w)))"
    proof (cases "as_array content")
      case (Inl x)
      then show ?thesis
        using st(1) by (simp add: main_board_init_def co_bind_def files new_discovery_def disc co_return_def)
    next
      case (Inr es)
      have run: "main_board_init L hw path (new_platform w) = co_bind (on_files (setup_entries hw es new_builder)) (\<lambda>b.
          co_bind (on_files (new_main_board (built_indicators b))) (\<lambda>board.
          co_bind (start_board board) (\<lambda>i. handle_loaders i (built_loaders b)))) (new_platform w)"
        using st(1) Inr by (simp add: main_board_init_def co_bind_def [where m = "on_files m" for m] files
            new_discovery_def disc co_return_def)
      show ?thesis
        unfolding run using Inr same [of es]
        by (cases "setup_entries hw es new_builder w")
          (auto simp: co_bind_def [where m = "on_files (setup_entries hw es new_builder)"] files split: sum.split)
    qed
    then show ?thesis
      using st by (simp add: content_def split: sum.split json.split)
  qed
qed

end
