(* ===== verification/App_Config.thy ===== *)
theory App_Config
  imports Json Sysfs Ha_Devices
begin

text \<open>
  The configuration of the application (\<^verbatim>\<open>app/app_config.hpp\<close>, \<^verbatim>\<open>app/app_config.cpp\<close>,
  \<^verbatim>\<open>home_assistant/client_config.hpp\<close>), its way to the MQTT clients (\<^verbatim>\<open>app/home_assistant.cpp\<close>), and
  its printed forms.
\<close>

section \<open>The configuration\<close>

record entity_client_config =
  ecc_username :: string
  ecc_password :: string
  ecc_server_address :: string
  ecc_server_port :: int
  ecc_keep_alive_interval :: "16 word"
  ecc_max_reconnect_attempts :: int
  ecc_reconnect_delay :: int

record app_config =
  log_dir :: string
  dtree_file :: string
  entity_config :: entity_client_config

text \<open>The members are converted in the order of the braces; the first that fails throws.\<close>

definition json_member :: "json_object \<Rightarrow> string \<Rightarrow> (json \<Rightarrow> 'a result) \<Rightarrow> 'a result" where
  "json_member obj k conv = result_bind (object_at obj k) conv"

definition entity_client_config_of :: "json \<Rightarrow> entity_client_config result" where
  "entity_client_config_of j =
     result_bind (as_object j) (\<lambda>obj.
     result_bind (json_member obj ''username'' value_to_string) (\<lambda>u.
     result_bind (json_member obj ''password'' value_to_string) (\<lambda>pw.
     result_bind (json_member obj ''server_address'' value_to_string) (\<lambda>a.
     result_bind (json_member obj ''server_port'' value_to_int) (\<lambda>p.
     result_bind (json_member obj ''keep_alive_interval'' value_to_uint16) (\<lambda>k.
     result_bind (json_member obj ''max_reconnect_attempts'' value_to_int) (\<lambda>n.
     result_bind (json_member obj ''reconnect_delay_seconds'' value_to_int) (\<lambda>d.
       Inr \<lparr>ecc_username = u, ecc_password = pw, ecc_server_address = a, ecc_server_port = p,
         ecc_keep_alive_interval = k, ecc_max_reconnect_attempts = n, ecc_reconnect_delay = d\<rparr>))))))))"

definition app_config_of :: "json \<Rightarrow> app_config result" where
  "app_config_of j =
     result_bind (as_object j) (\<lambda>obj.
     result_bind (json_member obj ''log_dir'' value_to_string) (\<lambda>l.
     result_bind (json_member obj ''dtree_file'' value_to_string) (\<lambda>t.
     result_bind (json_member obj ''entity_client_config'' entity_client_config_of) (\<lambda>e.
       Inr \<lparr>log_dir = l, dtree_file = t, entity_config = e\<rparr>))))"

text \<open>
  \<open>load_config\<close>: the parser is fed block by block until the end of the file, which a file whose
  reads fail does not reach. A syntax error shows while writing, a text that ends too early shows
  when the parser is finished.
\<close>

definition load_config :: "json_lib \<Rightarrow> string \<Rightarrow> app_config fs_op" where
  "load_config L path = (\<lambda>w.
     case open_in path w of
       None \<Rightarrow> Some (Inl (Runtime_error ''Error while reading file.''), w)
     | Some st \<Rightarrow>
         if broken st then None
         else (case json_parse L (rest st) of
                 Inl x \<Rightarrow>
                   if json_incomplete L (rest st)
                   then Some (Inl (Runtime_error ''Error while parsing file. File may be malformed.''), w)
                   else Some (Inl (Runtime_error ''Error while reading file.''), w)
               | Inr j \<Rightarrow> Some (app_config_of j, w)))"

section \<open>The broker\<close>

definition broker_of :: "app_config \<Rightarrow> broker_config" where
  "broker_of c = (let e = entity_config c in
     \<lparr>broker_username = ecc_username e, broker_password = ecc_password e, broker_host = ecc_server_address e,
      broker_port = int_to_string (ecc_server_port e), broker_keep_alive = ecc_keep_alive_interval e,
      broker_max_attempts = ecc_max_reconnect_attempts e, broker_reconnect_delay = ecc_reconnect_delay e\<rparr>)"

section \<open>Printing\<close>

definition nl :: string where
  "nl = [char_of (10::nat)]"

definition tab :: string where
  "tab = [char_of (9::nat)]"

definition entity_client_config_to_string :: "entity_client_config \<Rightarrow> string" where
  "entity_client_config_to_string e =
     ''server_address: '' @ ecc_server_address e @ nl
     @ ''server_port: '' @ int_to_string (ecc_server_port e) @ nl
     @ ''keep_alive_interval: '' @ int_to_string (uint (ecc_keep_alive_interval e)) @ nl
     @ ''max_reconnect_attempts: '' @ int_to_string (ecc_max_reconnect_attempts e) @ nl
     @ ''reconnect_delay(seconds): '' @ int_to_string (ecc_reconnect_delay e) @ nl"

text \<open>
  In \<open>to_string\<close> of the configuration a comma ends the format string after its first line; the text
  of the other lines is the argument of that line, and the arguments that follow are not used.
\<close>

definition app_config_to_string :: "app_config \<Rightarrow> string" where
  "app_config_to_string c = ''log_dir: '' @ (''dtree_file: {}'' @ nl @ ''entity_client_config: {}'' @ nl) @ nl"

definition pretty_format_config :: "app_config \<Rightarrow> string" where
  "pretty_format_config c = (let e = entity_config c in
     nl @ ''General: '' @ nl
     @ tab @ ''log_dir: '' @ log_dir c @ nl
     @ tab @ ''dtree_file: '' @ dtree_file c @ nl
     @ ''Entity client config:'' @ nl
     @ tab @ ''server_address: '' @ ecc_server_address e @ nl
     @ tab @ ''server_port: '' @ int_to_string (ecc_server_port e) @ nl
     @ tab @ ''keep_alive_interval: '' @ int_to_string (uint (ecc_keep_alive_interval e)) @ nl
     @ tab @ ''max_reconnect_attempts: '' @ int_to_string (ecc_max_reconnect_attempts e) @ nl
     @ tab @ ''reconnect_delay(seconds): '' @ int_to_string (ecc_reconnect_delay e))"

section \<open>Lemmas\<close>

text \<open>The document of a configuration, with the numbers as they are written in it.\<close>

definition config_document ::
    "string \<Rightarrow> string \<Rightarrow> string \<Rightarrow> string \<Rightarrow> string \<Rightarrow> int \<Rightarrow> int \<Rightarrow> int \<Rightarrow> int \<Rightarrow> json" where
  "config_document ld tree u pw a p k n d =
     J_object [(''log_dir'', J_string ld), (''dtree_file'', J_string tree),
       (''entity_client_config'', J_object
         [(''username'', J_string u), (''password'', J_string pw), (''server_address'', J_string a),
          (''server_port'', J_int p), (''keep_alive_interval'', J_int k),
          (''max_reconnect_attempts'', J_int n), (''reconnect_delay_seconds'', J_int d)])]"

definition is_int32 :: "int \<Rightarrow> bool" where
  "is_int32 i \<longleftrightarrow> - (2 ^ 31) \<le> i \<and> i < 2 ^ 31"

lemma value_to_int_range: "value_to_int (J_int i) = (if is_int32 i then Inr i else Inl (Json_error ''not exact''))"
  by (simp add: is_int32_def)

lemma json_member_cons:
  "json_member ((k', j) # kvs) k conv = (if k' = k then conv j else json_member kvs k conv)"
  by (simp add: json_member_def object_at_def)

text \<open>The document survives printing when its strings are UTF-8 and its numbers have 64 bits.\<close>

lemma config_document_portable:
  "json_portable (config_document ld tree u pw a p k n d) \<longleftrightarrow>
    list_all json_text [ld, tree, u, pw, a] \<and> list_all (\<lambda>i. - (2 ^ 63) \<le> i \<and> i < 2 ^ 64) [p, k, n, d]"
proof -
  have keys: "list_all json_text [''log_dir'', ''dtree_file'', ''entity_client_config'', ''username'', ''password'',
      ''server_address'', ''server_port'', ''keep_alive_interval'', ''max_reconnect_attempts'', ''reconnect_delay_seconds'']"
    by (simp add: json_text_def utf8_ascii json_limit_def)
  have inner: "json_fits 31 (J_object kvs) \<longleftrightarrow> length kvs \<le> json_limit \<and> distinct (map fst kvs)
      \<and> list_all (\<lambda>(k, j). json_text k \<and> json_fits 30 j) kvs" for kvs
    using json_fits.simps(8) [of 30 kvs] by simp
  from keys show ?thesis
    by (auto simp: config_document_def json_portable_object inner json_limit_def)
qed

section \<open>Properties\<close>

text \<open>C35: A configuration of UTF-8 strings and 64-bit numbers, written as JSON and loaded again,
  reaches the clients unchanged, provided its numbers fit: the port, the attempts and the delay an
  \<open>int\<close>, the keep-alive interval sixteen bits; a number that does not fit is refused, never cut off.\<close>

theorem config_reaches_the_clients:
  assumes "json_round_trip L" and "list_all json_text [ld, tree, u, pw, a]"
    and "list_all (\<lambda>i. - (2 ^ 63) \<le> i \<and> i < 2 ^ 64) [p, k, n, d]"
    and "healthy w path (json_serialize L (config_document ld tree u pw a p k n d))"
  shows "map_option (\<lambda>(r, w'). (result_map (\<lambda>c. (log_dir c, dtree_file c, config (create_client (broker_of c) e uid))) r, w'))
      (load_config L path w) =
    Some (if is_int32 p \<and> 0 \<le> k \<and> k < 2 ^ 16 \<and> is_int32 n \<and> is_int32 d
      then Inr (ld, tree,
        \<lparr>unique_id = uid, username = u, password = pw, host = a, port = int_to_string p, clean_session = True,
         keep_alive = word_of_int k, config_max_attempts = n, config_reconnect_delay = d\<rparr>)
      else Inl (Json_error ''not exact''), w)"
proof -
  let ?j = "config_document ld tree u pw a p k n d"
  have "json_portable ?j" using assms(2,3) unfolding config_document_portable by blast
  then have "json_parse L (json_serialize L ?j) = Inr ?j" by (rule json_round_tripD [OF assms(1)])
  then have load: "load_config L path w = Some (app_config_of ?j, w)"
    by (simp add: load_config_def healthy_open [OF assms(4)])
  have "app_config_of ?j =
      (if is_int32 p \<and> 0 \<le> k \<and> k < 2 ^ 16 \<and> is_int32 n \<and> is_int32 d
       then Inr \<lparr>log_dir = ld, dtree_file = tree, entity_config =
         \<lparr>ecc_username = u, ecc_password = pw, ecc_server_address = a, ecc_server_port = p,
          ecc_keep_alive_interval = word_of_int k, ecc_max_reconnect_attempts = n, ecc_reconnect_delay = d\<rparr>\<rparr>
       else Inl (Json_error ''not exact''))"
    by (simp add: app_config_of_def entity_client_config_of_def config_document_def json_member_cons
        value_to_int_range del: value_to_int.simps)
  then show ?thesis
    unfolding load by (simp add: broker_of_def create_client_def new_client_def)
qed

theorem config_reaches_the_clients_witness:
  "map_option (\<lambda>(r, w'). (result_map (\<lambda>c. (log_dir c, dtree_file c, config (create_client (broker_of c) () ''c''))) r))
      (load_config numbering_json ''/config.json''
        \<lparr>files = [''/config.json'' \<mapsto> regular_file (json_serialize numbering_json
           (config_document '''' ''/pdtree.json'' ''u'' ''p'' ''broker'' 1883 30 5 5))],
         directories = {}, may_create = (\<lambda>p. False)\<rparr>) =
    Some (Inr ('''', ''/pdtree.json'', \<lparr>unique_id = ''c'', username = ''u'', password = ''p'', host = ''broker'',
      port = int_to_string 1883, clean_session = True, keep_alive = 30, config_max_attempts = 5,
      config_reconnect_delay = 5\<rparr>))"
proof -
  let ?w = "\<lparr>files = [''/config.json'' \<mapsto> regular_file (json_serialize numbering_json
           (config_document '''' ''/pdtree.json'' ''u'' ''p'' ''broker'' 1883 30 5 5))],
         directories = {}, may_create = (\<lambda>p. False)\<rparr>"
  have "healthy ?w ''/config.json'' (json_serialize numbering_json
      (config_document '''' ''/pdtree.json'' ''u'' ''p'' ''broker'' 1883 30 5 5))"
    by (simp add: healthy_def regular_file_def)
  moreover have "list_all json_text ['''', ''/pdtree.json'', ''u'', ''p'', ''broker'']"
    by (simp add: json_text_def utf8_ascii json_limit_def)
  ultimately show ?thesis
    using config_reaches_the_clients [OF numbering_json_round_trip, of "''''" "''/pdtree.json''" "''u''" "''p''"
      "''broker''" 1883 30 5 5 ?w "''/config.json''" "()" "''c''"]
    by (auto simp: is_int32_def)
qed

end
