(* ===== verification/Event_Bus.thy ===== *)
theory Event_Bus
  imports Id_Generators
begin

text \<open>
  The event bus (\<^verbatim>\<open>event/base_event.hpp\<close>, \<^verbatim>\<open>event/event_bus.hpp\<close>, \<^verbatim>\<open>utils/capture_fwd.hpp\<close>). A
  handler is a value of a type parameter; \<open>moved\<close> says what is left of one that was moved out of.
  Publishing returns the coroutines it spawns, each with the handler and the copy of the event it
  was given, in the order of spawning; what a handler does when it runs is outside the model.
\<close>

section \<open>Events\<close>

record 'p event =
  event_type :: cpp_type
  event_id :: size_t
  event_payload :: 'p

text \<open>\<open>GenericEvent()\<close>: the identifier of the derived type is stored in the base.\<close>

definition make_event :: "cpp_type \<Rightarrow> 'p \<Rightarrow> id_state \<Rightarrow> 'p event \<times> id_state" where
  "make_event t p g =
     (case event_id_get t g of (i, g') \<Rightarrow>
        (\<lparr>event_type = t, event_id = i, event_payload = p\<rparr>, g'))"

section \<open>Captured handlers\<close>

text \<open>
  \<open>capture_fwd\<close> keeps the value category of its argument: an lvalue handler is captured by
  reference, an rvalue handler by value.
\<close>

datatype 'h captured = By_ref 'h | By_val 'h

definition capture_fwd :: "ref_qualifier \<Rightarrow> 'h \<Rightarrow> 'h captured" where
  "capture_fwd q h = (if q = Lvalue_ref then By_ref h else By_val h)"

text \<open>
  \<open>handler_as_tuple = std::move(handler_as_tuple)\<close>: moving a tuple of a reference copies the
  reference, moving a tuple of a value moves the value.
\<close>

definition move_tuple :: "('h \<Rightarrow> 'h) \<Rightarrow> 'h captured \<Rightarrow> 'h \<times> 'h captured" where
  "move_tuple moved c = (case c of By_ref h \<Rightarrow> (h, By_ref h) | By_val h \<Rightarrow> (h, By_val (moved h)))"

section \<open>The bus\<close>

record 'h slot =
  expected_id :: size_t
  slot_handler :: "'h captured"

record 'h event_bus =
  bus_ids :: id_state
  handlers :: "size_t \<Rightarrow> 'h slot list option"

definition new_bus :: "id_state \<Rightarrow> 'h event_bus" where
  "new_bus g = \<lparr>bus_ids = g, handlers = (\<lambda>_. None)\<rparr>"

text \<open>\<open>handlers_[event_id]\<close> inserts an empty signal when there is none.\<close>

definition signal_at :: "size_t \<Rightarrow> 'h event_bus \<Rightarrow> 'h slot list" where
  "signal_at i b = (case handlers b i of None \<Rightarrow> [] | Some ss \<Rightarrow> ss)"

definition subscribe :: "cpp_type \<Rightarrow> ref_qualifier \<Rightarrow> 'h \<Rightarrow> 'h event_bus \<Rightarrow> 'h event_bus" where
  "subscribe t q h b =
     (case event_id_get (decay t) (bus_ids b) of (i, g) \<Rightarrow>
        b\<lparr>bus_ids := g,
          handlers := (handlers b)
            (i \<mapsto> signal_at i b @ [\<lparr>expected_id = i, slot_handler = capture_fwd q h\<rparr>])\<rparr>)"

record ('h, 'p) spawned =
  spawned_handler :: 'h
  spawned_event :: "'p event"

text \<open>The call of one slot: the guard, then one coroutine with a copy of the event.\<close>

definition call_slot ::
    "('h \<Rightarrow> 'h) \<Rightarrow> 'p event \<Rightarrow> 'h slot \<Rightarrow> ('h, 'p) spawned result \<times> 'h slot" where
  "call_slot moved e s =
     (if expected_id s \<noteq> event_id e
      then (Inl (Runtime_error ''Event cannot be handled''), s)
      else (case move_tuple moved (slot_handler s) of (h, c) \<Rightarrow>
              (Inr \<lparr>spawned_handler = h, spawned_event = e\<rparr>, s\<lparr>slot_handler := c\<rparr>)))"

text \<open>The signal calls its slots in the order of connection; an exception leaves the loop.\<close>

fun call_slots ::
    "('h \<Rightarrow> 'h) \<Rightarrow> 'p event \<Rightarrow> 'h slot list
      \<Rightarrow> unit result \<times> ('h, 'p) spawned list \<times> 'h slot list" where
  "call_slots moved e [] = (Inr (), [], [])"
| "call_slots moved e (s # ss) =
     (case call_slot moved e s of
        (Inl x, s') \<Rightarrow> (Inl x, [], s' # ss)
      | (Inr c, s') \<Rightarrow>
          (case call_slots moved e ss of (r, cs, ss') \<Rightarrow> (r, c # cs, s' # ss')))"

definition publish ::
    "('h \<Rightarrow> 'h) \<Rightarrow> 'p event \<Rightarrow> 'h event_bus
      \<Rightarrow> unit result \<times> ('h, 'p) spawned list \<times> 'h event_bus" where
  "publish moved e b =
     (case call_slots moved e (signal_at (event_id e) b) of
        (r, cs, ss) \<Rightarrow> (r, cs, b\<lparr>handlers := (handlers b)(event_id e \<mapsto> ss)\<rparr>))"

text \<open>Building an event and publishing it, as every caller does.\<close>

definition publish_new ::
    "('h \<Rightarrow> 'h) \<Rightarrow> cpp_type \<Rightarrow> 'p \<Rightarrow> 'h event_bus
      \<Rightarrow> unit result \<times> ('h, 'p) spawned list \<times> 'h event_bus" where
  "publish_new moved t p b =
     (case make_event t p (bus_ids b) of (e, g) \<Rightarrow> publish moved e (b\<lparr>bus_ids := g\<rparr>))"

section \<open>Lemmas\<close>

text \<open>What the handlers captured by a bus for a type are, in the order of subscription.\<close>

definition subscribers :: "'h event_bus \<Rightarrow> cpp_type \<Rightarrow> 'h captured list" where
  "subscribers b t =
     (case typed_lookup (bus_ids b) (handlers b) t of
        None \<Rightarrow> [] | Some ss \<Rightarrow> map slot_handler ss)"

definition bus_inv :: "nat \<Rightarrow> 'h event_bus \<Rightarrow> bool" where
  "bus_inv n b \<longleftrightarrow> typed_table 1 n (bus_ids b) (handlers b)
     \<and> (\<forall>i ss. handlers b i = Some ss \<longrightarrow> (\<forall>s \<in> set ss. expected_id s = i))"

definition captured_value :: "'h captured \<Rightarrow> 'h" where
  "captured_value c = (case c of By_ref h \<Rightarrow> h | By_val h \<Rightarrow> h)"

definition after_move :: "('h \<Rightarrow> 'h) \<Rightarrow> 'h captured \<Rightarrow> 'h captured" where
  "after_move moved c = (case c of By_ref h \<Rightarrow> By_ref h | By_val h \<Rightarrow> By_val (moved h))"

lemma move_tuple_eq: "move_tuple moved c = (captured_value c, after_move moved c)"
  by (cases c) (simp_all add: move_tuple_def captured_value_def after_move_def)

lemma call_slots_expected:
  assumes "\<forall>s \<in> set ss. expected_id s = event_id e"
  shows "call_slots moved e ss =
    (Inr (), map (\<lambda>s. \<lparr>spawned_handler = captured_value (slot_handler s), spawned_event = e\<rparr>) ss,
     map (\<lambda>s. s\<lparr>slot_handler := after_move moved (slot_handler s)\<rparr>) ss)"
  using assms by (induction ss) (simp_all add: call_slot_def move_tuple_eq)

lemma bus_inv_new: "bus_inv 0 (new_bus event_id_init)"
  using ids_inv_init(3) by (auto simp: bus_inv_def typed_table_def new_bus_def)

lemma signal_at_expected: "bus_inv n b \<Longrightarrow> \<forall>s \<in> set (signal_at i b). expected_id s = i"
  by (cases "handlers b i") (auto simp: bus_inv_def signal_at_def)

lemma subscribe_spec:
  assumes inv: "bus_inv n b" and n: "n + 1 \<le> 2 ^ 64"
  shows "subscribers (subscribe t q h b) =
      (\<lambda>u. if decay u = decay t then subscribers b u @ [capture_fwd q h] else subscribers b u)"
    and "bus_inv (n + 1) (subscribe t q h b)"
proof -
  obtain i g where get: "static_id (decay t) (bus_ids b) = (i, g)" by fastforce
  from inv have tab: "typed_table 1 n (bus_ids b) (handlers b)" by (simp add: bus_inv_def)
  note tab' = typed_table_get [OF tab get]
  note rec = static_id_records [OF get]
  note look = typed_lookup_get [OF tab n get]
  let ?new = "signal_at i b @ [\<lparr>expected_id = i, slot_handler = capture_fwd q h\<rparr>]"
  have eq: "subscribe t q h b = b\<lparr>bus_ids := g, handlers := (handlers b)(i \<mapsto> ?new)\<rparr>"
    by (simp add: subscribe_def event_id_get_def get)
  have "subscribers (subscribe t q h b) u =
      (if decay u = decay t then subscribers b u @ [capture_fwd q h] else subscribers b u)" for u
  proof (cases "decay u = decay t")
    case True
    then have "typed_lookup (bus_ids b) (handlers b) u = handlers b i"
      using look(2) by (simp add: typed_lookup_def)
    with True show ?thesis
      by (simp add: eq subscribers_def typed_lookup_update [OF tab' n rec] signal_at_def
          split: option.splits)
  next
    case False
    then show ?thesis
      by (simp add: eq subscribers_def typed_lookup_update [OF tab' n rec] look(1))
  qed
  then show "subscribers (subscribe t q h b) =
      (\<lambda>u. if decay u = decay t then subscribers b u @ [capture_fwd q h] else subscribers b u)"
    by (rule ext)
  show "bus_inv (n + 1) (subscribe t q h b)"
    using inv signal_at_expected [OF inv, of i] typed_table_update [OF tab' rec]
    by (auto simp: eq bus_inv_def)
qed

lemma publish_new_spec:
  assumes inv: "bus_inv n b" and n: "n + 1 \<le> 2 ^ 64" and run: "publish_new moved t p b = (r, cs, b')"
  shows "r = Inr ()
    \<and> map spawned_handler cs = map captured_value (subscribers b t)
    \<and> (\<forall>c \<in> set cs. event_type (spawned_event c) = t \<and> event_payload (spawned_event c) = p)"
    and "subscribers b' =
      (\<lambda>u. if decay u = decay t then map (after_move moved) (subscribers b u) else subscribers b u)"
    and "bus_inv (n + 1) b'"
proof -
  obtain i g where get: "static_id (decay t) (bus_ids b) = (i, g)" by fastforce
  from inv have tab: "typed_table 1 n (bus_ids b) (handlers b)" by (simp add: bus_inv_def)
  note tab' = typed_table_get [OF tab get]
  note rec = static_id_records [OF get]
  note look = typed_lookup_get [OF tab n get]
  let ?e = "\<lparr>event_type = t, event_id = i, event_payload = p\<rparr>"
  let ?ss = "signal_at i b"
  let ?new = "map (\<lambda>s. s\<lparr>slot_handler := after_move moved (slot_handler s)\<rparr>) ?ss"
  have sig: "signal_at i (b\<lparr>bus_ids := g\<rparr>) = ?ss" by (simp add: signal_at_def)
  have subs: "map slot_handler ?ss = subscribers b t"
    using look(2) by (simp add: subscribers_def signal_at_def split: option.splits)
  have calls: "call_slots moved ?e ?ss =
    (Inr (), map (\<lambda>s. \<lparr>spawned_handler = captured_value (slot_handler s), spawned_event = ?e\<rparr>) ?ss, ?new)"
    by (rule call_slots_expected) (simp add: signal_at_expected [OF inv])
  from run have r: "r = Inr ()"
    and cs: "cs = map (\<lambda>s. \<lparr>spawned_handler = captured_value (slot_handler s), spawned_event = ?e\<rparr>) ?ss"
    and b': "b' = b\<lparr>bus_ids := g, handlers := (handlers b)(i \<mapsto> ?new)\<rparr>"
    by (simp_all add: publish_new_def make_event_def event_id_get_def get publish_def sig calls)
  from cs subs [symmetric] show "r = Inr ()
    \<and> map spawned_handler cs = map captured_value (subscribers b t)
    \<and> (\<forall>c \<in> set cs. event_type (spawned_event c) = t \<and> event_payload (spawned_event c) = p)"
    by (auto simp: r)
  have "subscribers b' u =
      (if decay u = decay t then map (after_move moved) (subscribers b u) else subscribers b u)" for u
  proof (cases "decay u = decay t")
    case True
    then have "subscribers b u = subscribers b t" by (simp add: subscribers_def typed_lookup_def)
    with True show ?thesis
      by (simp add: b' subscribers_def [of "b\<lparr>bus_ids := _, handlers := _\<rparr>"]
          typed_lookup_update [OF tab' n rec] subs [symmetric])
  next
    case False
    then show ?thesis
      by (simp add: b' subscribers_def typed_lookup_update [OF tab' n rec] look(1))
  qed
  then show "subscribers b' =
      (\<lambda>u. if decay u = decay t then map (after_move moved) (subscribers b u) else subscribers b u)"
    by (rule ext)
  show "bus_inv (n + 1) b'"
    using inv signal_at_expected [OF inv, of i] typed_table_update [OF tab' rec]
    by (auto simp: b' bus_inv_def)
qed

text \<open>
  A type that has subscribers, all of them by reference, has its identifier already, and publishing
  it leaves the bus as it is.
\<close>

lemma publish_new_by_ref:
  assumes inv: "bus_inv n b" and subs: "subscribers b t = map By_ref hs" and ne: "hs \<noteq> []"
  shows "\<exists>i. publish_new moved t p b = (Inr (), map (\<lambda>h. \<lparr>spawned_handler = h,
      spawned_event = \<lparr>event_type = t, event_id = i, event_payload = p\<rparr>\<rparr>) hs, b)"
proof -
  from subs ne obtain i ss where i: "static_ids (bus_ids b) (decay t) = Some i" and ss: "handlers b i = Some ss"
    and hs: "map slot_handler ss = map By_ref hs"
    by (auto simp: subscribers_def typed_lookup_def split: option.splits)
  let ?e = "\<lparr>event_type = t, event_id = i, event_payload = p\<rparr>"
  have ids: "event_id_get t (bus_ids b) = (i, bus_ids b)" by (simp add: event_id_get_def static_id_def i)
  have exp: "\<forall>s \<in> set ss. expected_id s = event_id ?e" using inv ss by (simp add: bus_inv_def)
  have vals: "map (\<lambda>s. captured_value (slot_handler s)) ss = hs"
  proof -
    have "map captured_value (map slot_handler ss) = map captured_value (map By_ref hs)" by (simp only: hs)
    then show ?thesis by (simp add: comp_def captured_value_def)
  qed
  have same: "map (\<lambda>s. s\<lparr>slot_handler := after_move moved (slot_handler s)\<rparr>) ss = ss"
  proof (rule map_idI)
    fix s assume "s \<in> set ss"
    then have "slot_handler s \<in> By_ref ` set hs" using hs by (metis imageI list.set_map)
    then show "s\<lparr>slot_handler := after_move moved (slot_handler s)\<rparr> = s" by (auto simp: after_move_def)
  qed
  have "(handlers b)(i \<mapsto> ss) = handlers b" using ss by (simp add: fun_upd_idem)
  moreover have "map (\<lambda>s. \<lparr>spawned_handler = captured_value (slot_handler s), spawned_event = ?e\<rparr>) ss
      = map (\<lambda>h. \<lparr>spawned_handler = h, spawned_event = ?e\<rparr>) (map (\<lambda>s. captured_value (slot_handler s)) ss)"
    by simp
  ultimately have "publish_new moved t p b = (Inr (), map (\<lambda>h. \<lparr>spawned_handler = h, spawned_event = ?e\<rparr>) hs, b)"
    by (simp add: publish_new_def make_event_def ids publish_def signal_at_def ss call_slots_expected [OF exp] same vals)
  then show ?thesis by blast
qed

text \<open>A bus on which the given subscriptions were made, in order.\<close>

type_synonym 'h subscription = "cpp_type \<times> ref_qualifier \<times> 'h"

definition bus_with :: "'h subscription list \<Rightarrow> 'h event_bus" where
  "bus_with subs = foldl (\<lambda>b (t, q, h). subscribe t q h b) (new_bus event_id_init) subs"

definition subscriptions_to :: "cpp_type \<Rightarrow> 'h subscription list \<Rightarrow> 'h subscription list" where
  "subscriptions_to t subs = filter (\<lambda>(u, _, _). decay u = decay t) subs"

lemma bus_with_spec:
  "length subs \<le> 2 ^ 64 \<Longrightarrow> bus_inv (length subs) (bus_with subs)
    \<and> subscribers (bus_with subs) t = map (\<lambda>(_, q, h). capture_fwd q h) (subscriptions_to t subs)"
proof (induction subs rule: rev_induct)
  case Nil
  then show ?case
    using bus_inv_new
    by (auto simp: bus_with_def subscribers_def typed_lookup_def new_bus_def subscriptions_to_def
        split: option.splits)
next
  case (snoc sub subs)
  obtain u q h where sub: "sub = (u, q, h)" by (cases sub)
  from snoc have IH: "bus_inv (length subs) (bus_with subs)"
    "subscribers (bus_with subs) t = map (\<lambda>(_, q, h). capture_fwd q h) (subscriptions_to t subs)"
    by simp_all
  from snoc.prems have n: "length subs + 1 \<le> 2 ^ 64" by simp
  show ?case
    using subscribe_spec [OF IH(1) n, of u q h] IH(2)
    by (auto simp: bus_with_def sub subscriptions_to_def)
qed

section \<open>Histories of a bus\<close>

text \<open>
  What a program does with a bus is a sequence of subscriptions and publications.
\<close>

datatype ('h, 'p) bus_op = Do_subscribe cpp_type ref_qualifier 'h | Do_publish cpp_type 'p

fun bus_run :: "('h \<Rightarrow> 'h) \<Rightarrow> ('h, 'p) bus_op list \<Rightarrow> 'h event_bus \<Rightarrow> 'h event_bus" where
  "bus_run moved [] b = b"
| "bus_run moved (Do_subscribe t q h # ops) b = bus_run moved ops (subscribe t q h b)"
| "bus_run moved (Do_publish t p # ops) b = bus_run moved ops (snd (snd (publish_new moved t p b)))"

fun publications :: "cpp_type \<Rightarrow> ('h, 'p) bus_op list \<Rightarrow> nat" where
  "publications t [] = 0"
| "publications t (Do_subscribe u q h # ops) = publications t ops"
| "publications t (Do_publish u p # ops) = (if decay u = decay t then Suc else id) (publications t ops)"

text \<open>
  The handlers a history leaves subscribed for a type, in the order of subscription: one taken as an
  lvalue as it is, any other as it is left by one move per later publication of the type.
\<close>

fun deliveries :: "('h \<Rightarrow> 'h) \<Rightarrow> cpp_type \<Rightarrow> ('h, 'p) bus_op list \<Rightarrow> 'h list" where
  "deliveries moved t [] = []"
| "deliveries moved t (Do_subscribe u q h # ops) =
     (if decay u = decay t
      then [if q = Lvalue_ref then h else (moved ^^ publications t ops) h] else [])
     @ deliveries moved t ops"
| "deliveries moved t (Do_publish u p # ops) = deliveries moved t ops"

lemma captured_after_moves:
  "captured_value ((after_move moved ^^ k) c) = (case c of By_ref h \<Rightarrow> h | By_val h \<Rightarrow> (moved ^^ k) h)"
proof -
  have "(after_move moved ^^ k) c = (case c of By_ref h \<Rightarrow> By_ref h | By_val h \<Rightarrow> By_val ((moved ^^ k) h))"
    by (induction k) (auto simp: after_move_def split: captured.splits)
  then show ?thesis by (simp add: captured_value_def split: captured.splits)
qed

lemma captured_fwd_after_moves:
  "captured_value ((after_move moved ^^ k) (capture_fwd q h)) = (if q = Lvalue_ref then h else (moved ^^ k) h)"
  by (simp add: captured_after_moves capture_fwd_def)

text \<open>Both kinds of operation keep the invariant, and what they do to the subscribers of a type.\<close>

lemma bus_run_spec:
  "bus_inv n b \<Longrightarrow> n + length ops \<le> 2 ^ 64
    \<Longrightarrow> bus_inv (n + length ops) (bus_run moved ops b)
      \<and> map captured_value (subscribers (bus_run moved ops b) t)
        = map (\<lambda>c. captured_value ((after_move moved ^^ publications t ops) c)) (subscribers b t)
          @ deliveries moved t ops"
proof (induction ops arbitrary: b n)
  case Nil
  then show ?case by simp
next
  case (Cons x ops)
  from Cons.prems have n: "n + 1 \<le> 2 ^ 64" and rest: "(n + 1) + length ops \<le> 2 ^ 64" by simp_all
  show ?case
  proof (cases x)
    case (Do_subscribe u q h)
    note sub = subscribe_spec [OF Cons.prems(1) n, of u q h]
    have "subscribers (subscribe u q h b) t
        = (if decay u = decay t then subscribers b t @ [capture_fwd q h] else subscribers b t)"
      by (auto simp: sub(1))
    then show ?thesis
      using Cons.IH [OF sub(2) rest] by (simp add: Do_subscribe captured_fwd_after_moves)
  next
    case (Do_publish u p)
    obtain r cs b' where pub: "publish_new moved u p b = (r, cs, b')" by (rule prod_cases3)
    note post = publish_new_spec [OF Cons.prems(1) n pub]
    have "subscribers b' t = (if decay u = decay t then map (after_move moved) (subscribers b t) else subscribers b t)"
      by (auto simp: post(2))
    then show ?thesis
      using Cons.IH [OF post(3) rest]
      by (simp add: Do_publish pub comp_def funpow_Suc_right del: funpow.simps(2))
  qed
qed

section \<open>Properties\<close>

text \<open>C11: After any history of subscriptions and publications on a bus, publishing an event never
  throws, and spawns one coroutine with a copy of the event for every subscription made for the type
  of the event and for no other, in the order of subscription. A handler that was subscribed as an
  lvalue runs as it is. One that was subscribed as a temporary is moved out of its slot by each
  publication of its type, so it runs as subscribed on the first publication after its
  subscription, and moved-from on every later one.\<close>

theorem event_bus_delivers:
  assumes "length ops < 2 ^ 64"
    and "publish_new moved t p (bus_run moved ops (new_bus event_id_init)) = (r, cs, b)"
  shows "r = Inr ()
    \<and> map spawned_handler cs = deliveries moved t ops
    \<and> list_all (\<lambda>c. event_type (spawned_event c) = t \<and> event_payload (spawned_event c) = p) cs"
proof -
  let ?b = "bus_run moved ops (new_bus event_id_init)"
  have none: "subscribers (new_bus event_id_init) t = []"
    by (simp add: subscribers_def typed_lookup_def new_bus_def split: option.splits)
  from assms(1) have "bus_inv (length ops) ?b"
    and subs: "map captured_value (subscribers ?b t) = deliveries moved t ops"
    using bus_run_spec [OF bus_inv_new, of ops moved t] by (simp_all add: none)
  moreover from assms(1) have "length ops + 1 \<le> 2 ^ 64" by simp
  ultimately show ?thesis
    using publish_new_spec(1) [OF _ _ assms(2)] by (simp add: list_all_iff)
qed

theorem event_bus_delivers_witness:
  "map spawned_handler (fst (snd (publish_new (\<lambda>_. 0) (Named ''Removed'') ()
      (bus_run (\<lambda>_. 0) [Do_subscribe (Named ''Created'') No_ref 1,
        Do_subscribe (Named ''Removed'') Lvalue_ref (2::nat), Do_subscribe (Named ''Removed'') No_ref 3,
        Do_publish (Named ''Removed'') (), Do_subscribe (Named ''Removed'') No_ref 4]
        (new_bus event_id_init)))))
   = [2, 0, 4]"
  using event_bus_delivers [of "[Do_subscribe (Named ''Created'') No_ref 1,
        Do_subscribe (Named ''Removed'') Lvalue_ref (2::nat), Do_subscribe (Named ''Removed'') No_ref 3,
        Do_publish (Named ''Removed'') (), Do_subscribe (Named ''Removed'') No_ref 4]"
      "\<lambda>_. 0" "Named ''Removed''" "()"]
  by (cases "publish_new (\<lambda>_. 0) (Named ''Removed'') ()
      (bus_run (\<lambda>_. 0) [Do_subscribe (Named ''Created'') No_ref 1,
        Do_subscribe (Named ''Removed'') Lvalue_ref (2::nat), Do_subscribe (Named ''Removed'') No_ref 3,
        Do_publish (Named ''Removed'') (), Do_subscribe (Named ''Removed'') No_ref 4]
        (new_bus event_id_init))") (simp add: decay_def)

end
