(* ===== verification/Ha_Event_Handlers.thy ===== *)
theory Ha_Event_Handlers
  imports Ha_Devices
begin

text \<open>
  The handlers of the device events (\<^verbatim>\<open>home_assistant_adapter/event/*.cpp\<close>). A handler keeps the
  devices it created in a \<open>std::list\<close>, whose elements have addresses that never change, and spawns
  the run of each with its address; \<open>running\<close> are the addresses of the runs that were spawned.
  Nothing in the code ever stops a run.
\<close>

section \<open>Hatches and temperature sensors\<close>

record 's element =
  el_address :: nat
  el_device :: device_id
  el_identity :: device_identity
  el_entity :: 's

record 's device_handler =
  elements :: "'s element list"
  next_address :: nat
  running :: "nat list"
  handler_world :: ha_world

definition new_device_handler :: "ha_world \<Rightarrow> 's device_handler" where
  "new_device_handler w = \<lparr>elements = [], next_address = 0, running = [], handler_world = w\<rparr>"

definition push_back :: "device_id \<Rightarrow> device_identity \<Rightarrow> 's \<Rightarrow> 's device_handler \<Rightarrow> 's device_handler" where
  "push_back i d s h = h\<lparr>elements := elements h @ [\<lparr>el_address = next_address h, el_device = i, el_identity = d, el_entity = s\<rparr>],
     next_address := next_address h + 1\<rparr>"

definition spawn_back :: "'s device_handler \<Rightarrow> 's device_handler" where
  "spawn_back h = h\<lparr>running := running h @ [el_address (last (elements h))]\<rparr>"

text \<open>The end of a creation: the device is moved into the list and its run is spawned.\<close>

definition device_added :: "device_id \<Rightarrow> device_identity \<Rightarrow> 's \<Rightarrow> ('s device_handler, unit) co" where
  "device_added i d s = (\<lambda>h. co_return () (spawn_back (push_back i d s h)))"

definition device_created ::
    "(device_id \<Rightarrow> (ha_world, (device_identity \<times> 's) option) co) \<Rightarrow> device_id \<Rightarrow> ('s device_handler, unit) co" where
  "device_created create i = (\<lambda>h.
     case create i (handler_world h) of
       None \<Rightarrow> None
     | Some (Inl x, w) \<Rightarrow> Some (Inl x, h\<lparr>handler_world := w\<rparr>)
     | Some (Inr None, w) \<Rightarrow> Some (Inr (), h\<lparr>handler_world := w\<rparr>)
     | Some (Inr (Some (d, s)), w) \<Rightarrow> device_added i d s (h\<lparr>handler_world := w\<rparr>))"

text \<open>\<open>std::erase_if\<close>, with the number of elements erased.\<close>

definition erase_device :: "device_id \<Rightarrow> 's device_handler \<Rightarrow> nat \<times> 's device_handler" where
  "erase_device i h =
     (let kept = filter (\<lambda>e. i \<noteq> el_device e) (elements h)
      in (length (elements h) - length kept, h\<lparr>elements := kept\<rparr>))"

fun sync_first ::
    "(device_id \<Rightarrow> device_identity \<Rightarrow> ('s, ha_world, 'v, 'st) adapter_impl) \<Rightarrow> device_id
      \<Rightarrow> 's element list \<Rightarrow> ha_world \<Rightarrow> (unit result \<times> 's element list \<times> ha_world) option" where
  "sync_first I i [] w = Some (Inr (), [], w)"
| "sync_first I i (e # es) w =
     (if i = el_device e
      then map_option (\<lambda>(r, a). (r, e\<lparr>el_entity := adapted_entity a\<rparr> # es, world a))
             (sync_state (I i (el_identity e)) \<lparr>adapted_entity = el_entity e, world = w\<rparr>)
      else map_option (\<lambda>(r, es', w'). (r, e # es', w')) (sync_first I i es w))"

definition device_state_changed ::
    "(device_id \<Rightarrow> device_identity \<Rightarrow> ('s, ha_world, 'v, 'st) adapter_impl) \<Rightarrow> device_id
      \<Rightarrow> ('s device_handler, unit) co" where
  "device_state_changed I i = (\<lambda>h.
     map_option (\<lambda>(r, es, w). (r, h\<lparr>elements := es, handler_world := w\<rparr>))
       (sync_first I i (elements h) (handler_world h)))"

definition hatch_created where
  "hatch_created V = device_created (hatch_create V)"

definition hatch_removed :: "device_id \<Rightarrow> ('s device_handler, unit) co" where
  "hatch_removed i = (\<lambda>h.
     case erase_device i h of (erased, h') \<Rightarrow>
       if erased = 0
       then co_throw (Runtime_error (''Hatch device with id: '' @ int_to_string (sint i) @ '' was not found'')) h'
       else co_return () h')"

definition hatch_state_changed where
  "hatch_state_changed V = device_state_changed (hatch_of V)"

definition temp_created where
  "temp_created V = device_created (temp_create V)"

text \<open>A sensor that is not found is logged only.\<close>

definition temp_removed :: "device_id \<Rightarrow> ('s device_handler, unit) co" where
  "temp_removed i = (\<lambda>h. co_return () (snd (erase_device i h)))"

definition temp_state_changed where
  "temp_state_changed V = device_state_changed (temp_of V)"

section \<open>The main board\<close>

text \<open>One board at most; its runs are those of its indicators and of its button.\<close>

record 's board_handler =
  handled_board :: "(device_id \<times> device_identity \<times> 's ha_board) option"
  board_running :: bool
  board_world :: ha_world

definition board_added :: "device_id \<Rightarrow> device_identity \<Rightarrow> 's ha_board \<Rightarrow> ('s board_handler, unit) co" where
  "board_added i d b = (\<lambda>h. co_return () (h\<lparr>handled_board := Some (i, d, b), board_running := True\<rparr>))"

definition board_created ::
    "('e, 'f, 'cb) services \<Rightarrow> device_id \<Rightarrow> ('e client topic_entity board_handler, unit) co" where
  "board_created V i = (\<lambda>h.
     if handled_board h \<noteq> None
     then co_throw (Runtime_error ''Unexpected value in std::optional<MainBoardHandler>'') h
     else case board_create V i (board_world h) of
       None \<Rightarrow> None
     | Some (Inl x, w) \<Rightarrow> Some (Inl x, h\<lparr>board_world := w\<rparr>)
     | Some (Inr None, w) \<Rightarrow> co_throw (Runtime_error ''Cannot create MainBoard device'') (h\<lparr>board_world := w\<rparr>)
     | Some (Inr (Some b), w) \<Rightarrow>
         (case services_identity V i of
            Inl x \<Rightarrow> Some (Inl x, h\<lparr>board_world := w\<rparr>)
          | Inr d \<Rightarrow> board_added i d b (h\<lparr>board_world := w\<rparr>)))"

definition board_removed :: "device_id \<Rightarrow> ('s board_handler, unit) co" where
  "board_removed i = co_return ()"

text \<open>The event names a device, which is not looked at; \<open>order\<close> is that of the hash map.\<close>

definition board_state_changed ::
    "('e, 'f, 'cb) services \<Rightarrow> indicator_type list \<Rightarrow> device_id \<Rightarrow> ('e client topic_entity board_handler, unit) co" where
  "board_state_changed V order i = (\<lambda>h.
     case handled_board h of
       None \<Rightarrow> co_return () h
     | Some (j, d, b) \<Rightarrow>
         map_option (\<lambda>(r, a). (r, h\<lparr>handled_board := Some (j, d, adapted_entity a), board_world := world a\<rparr>))
           (board_sync_state V j d order \<lparr>adapted_entity = b, world = board_world h\<rparr>))"

section \<open>Lemmas\<close>

text \<open>
  Addresses are handed out in order and never again, every device has its run, and every run ever
  spawned is still there.
\<close>

definition handler_inv :: "'s device_handler \<Rightarrow> bool" where
  "handler_inv h \<longleftrightarrow>
     sorted_wrt (<) (map el_address (elements h))
     \<and> (\<forall>e \<in> set (elements h). el_address e < next_address h)
     \<and> running h = [0..<next_address h]"

lemma handler_inv_new: "handler_inv (new_device_handler w)"
  by (simp add: handler_inv_def new_device_handler_def)

lemma handler_inv_world [simp]: "handler_inv (h\<lparr>handler_world := w\<rparr>) = handler_inv h"
  by (simp add: handler_inv_def)

lemma push_spawn_inv: "handler_inv h \<Longrightarrow> handler_inv (spawn_back (push_back i d s h))"
  by (auto simp: handler_inv_def spawn_back_def push_back_def sorted_wrt_append less_SucI)

lemma device_created_inv:
  "handler_inv h \<Longrightarrow> device_created create i h = Some (r, h') \<Longrightarrow> handler_inv h'"
  by (auto simp: device_created_def device_added_def co_return_def push_spawn_inv split: option.splits sum.splits prod.splits)

lemma sorted_map_filter: "sorted_wrt (<) (map f xs) \<Longrightarrow> sorted_wrt (<) (map f (filter P xs))"
  by (induction xs) auto

lemma erase_device_inv: "handler_inv h \<Longrightarrow> handler_inv (snd (erase_device i h))"
  by (simp add: handler_inv_def erase_device_def Let_def sorted_map_filter)

lemma sync_first_addresses:
  "sync_first I i es w = Some (r, es', w') \<Longrightarrow>
    map el_address es' = map el_address es \<and> map el_device es' = map el_device es"
  by (induction I i es w arbitrary: r es' w' rule: sync_first.induct) (auto split: if_splits)

lemma device_state_changed_inv:
  assumes "handler_inv h" and "device_state_changed I i h = Some (r, h')"
  shows "handler_inv h'"
proof -
  from assms(2) obtain es w where run: "sync_first I i (elements h) (handler_world h) = Some (r, es, w)"
    and h': "h' = h\<lparr>elements := es, handler_world := w\<rparr>"
    by (auto simp: device_state_changed_def)
  have eq: "map el_address es = map el_address (elements h)" using sync_first_addresses [OF run] by simp
  have ball: "(\<forall>e \<in> set xs. el_address e < n) \<longleftrightarrow> (\<forall>a \<in> set (map el_address xs). a < n)" for xs :: "'a element list" and n
    by simp
  from assms(1) eq h' show ?thesis unfolding handler_inv_def ball by simp
qed

text \<open>A handler after the events it was given, whether its operations returned or threw.\<close>

datatype handler_event = Created device_id | Removed device_id | State_changed device_id

fun hatch_event ::
    "('e, 'f, 'cb) services \<Rightarrow> handler_event \<Rightarrow> ('e client topic_entity device_handler, unit) co" where
  "hatch_event V (Created i) = hatch_created V i"
| "hatch_event V (Removed i) = hatch_removed i"
| "hatch_event V (State_changed i) = hatch_state_changed V i"

inductive hatch_handler_reachable ::
    "('e, 'f, 'cb) services \<Rightarrow> ha_world \<Rightarrow> 'e client topic_entity device_handler \<Rightarrow> bool" for V w where
  handler_start: "hatch_handler_reachable V w (new_device_handler w)"
| handler_event: "hatch_handler_reachable V w h \<Longrightarrow> hatch_event V e h = Some (r, h') \<Longrightarrow>
    hatch_handler_reachable V w h'"
| handler_other: "hatch_handler_reachable V w h \<Longrightarrow> hatch_handler_reachable V w (h\<lparr>handler_world := u\<rparr>)"

lemma erase_device_eq:
  "erase_device i h = (length (filter (\<lambda>e. el_device e = i) (elements h)),
     h\<lparr>elements := filter (\<lambda>e. el_device e \<noteq> i) (elements h)\<rparr>)"
proof -
  have "length xs = length (filter P xs) + length (filter (\<lambda>x. \<not> P x) xs)" for P and xs :: "'a element list"
    by (rule sum_length_filter_compl [symmetric])
  from this [of "elements h" "\<lambda>e. el_device e = i"] show ?thesis
    by (simp add: erase_device_def Let_def eq_commute [of i])
qed

lemma hatch_event_inv: "handler_inv h \<Longrightarrow> hatch_event V e h = Some (r, h') \<Longrightarrow> handler_inv h'"
proof (cases e)
  case (Removed i)
  assume "handler_inv h" and "hatch_event V e h = Some (r, h')"
  with Removed have "h' = snd (erase_device i h)"
    by (auto simp: hatch_removed_def co_throw_def co_return_def split: prod.splits if_splits)
  with erase_device_inv [OF \<open>handler_inv h\<close>] show ?thesis by simp
qed (auto simp: hatch_created_def hatch_state_changed_def dest: device_created_inv device_state_changed_inv)

lemma reachable_handler_inv: "hatch_handler_reachable V w h \<Longrightarrow> handler_inv h"
  by (induction rule: hatch_handler_reachable.induct) (auto simp: handler_inv_new intro: hatch_event_inv)

text \<open>
  What an adapter leaves of the world: waiting, reading the state and handling a command are all that
  touch it.
\<close>

definition device_keeps :: "('w \<Rightarrow> bool) \<Rightarrow> ('s, 'w, 'v, 'st) adapter_impl \<Rightarrow> bool" where
  "device_keeps P I \<longleftrightarrow> (\<forall>d. co_keeps P (im_wait I d)) \<and> (\<forall>st. im_state I = Some st \<longrightarrow> co_keeps P st)"

lemma on_entity_keeps_world: "co_keeps (\<lambda>a. P (world a)) (on_entity m)"
  by (rule co_keepsI) (auto simp: on_entity_Some)

lemma on_world_keeps_world: "co_keeps P m \<Longrightarrow> co_keeps (\<lambda>a. P (world a)) (on_world m)"
  by (rule co_keepsI) (auto simp: on_world_Some dest: co_keepsD)

lemma sync_keeps_world:
  "device_keeps P I \<Longrightarrow> co_keeps (\<lambda>a. P (world a)) (sync_state I)"
  unfolding sync_state_def device_keeps_def
  by (auto split: option.split intro!: co_keeps_bind co_keeps_return on_world_keeps_world on_entity_keeps_world)

lemma configure_keeps_world:
  "device_keeps P I \<Longrightarrow> co_keeps (\<lambda>a. P (world a)) (adapter_configure I)"
  using sync_keeps_world [of P I] unfolding adapter_configure_def device_keeps_def
  by (auto intro!: co_keeps_bind co_keeps_return on_world_keeps_world on_entity_keeps_world)

lemma init_keeps_world:
  assumes "device_keeps P I"
  shows "co_keeps (\<lambda>a. P (world a)) (async_init I)"
proof -
  have connect: "co_keeps (\<lambda>a. P (world a)) (init_connect I n e)" for n e
    using assms unfolding device_keeps_def
    by (induction n arbitrary: e)
      (auto intro!: co_keeps_bind co_keeps_return on_world_keeps_world on_entity_keeps_world)
  show ?thesis
    unfolding async_init_def
    by (rule co_keeps_bind [OF connect]) (simp add: co_keeps_return configure_keeps_world assms)
qed

lemma run_round_keeps_world:
  assumes "device_keeps P I" and "\<And>v. co_keeps P (im_handle I v)"
  shows "co_keeps (\<lambda>a. P (world a)) (run_round I)"
proof -
  have "co_keeps (\<lambda>a. P (world a)) (recover I e)" for e
    using configure_keeps_world [OF assms(1)]
    by (auto simp: recover_def handle_disconnected_def handle_reconnected_def
        intro!: co_keeps_bind co_keeps_return on_entity_keeps_world)
  then have "co_keeps (\<lambda>a. P (world a)) (handle_error I e)" for e
    unfolding handle_error_def by (intro co_keeps_bind co_keeps_return)
  then show ?thesis
    unfolding run_round_def
    by (auto intro!: co_keeps_bind on_entity_keeps_world on_world_keeps_world assms(2) split: sum.split)
qed

lemma create_keeps_world:
  assumes "co_keeps (\<lambda>a. P (world a)) (async_init I)"
  shows "co_keeps P (create_adapter I s)"
proof (rule co_keepsI)
  fix w r w'
  assume "P w" and "create_adapter I s w = Some (r, w')"
  then consider "P w'" | s0 q a where "async_init I \<lparr>adapted_entity = s0, world = w\<rparr> = Some (q, a)" "w' = world a"
    by (auto simp: create_adapter_def split: sum.splits)
  then show "P w'"
  proof cases
    case 2
    with co_keepsD [OF assms _ 2(1)] \<open>P w\<close> show ?thesis by simp
  qed
qed

lemma device_at_keeps: "co_keeps P (device_at devs i)"
  by (rule co_keepsI) (simp add: device_at_def)

lemma on_fs_keeps_boards: "co_keeps (\<lambda>w. world_boards w = B) (on_fs m)"
  by (rule co_keepsI) (auto simp: on_fs_def)

lemma indicator_create_keeps_boards:
  assumes "\<And>d. co_keeps (\<lambda>w. world_boards w = B) (sv_wait V d)"
  shows "co_keeps (\<lambda>w. world_boards w = B) (indicator_create V i t d)"
  unfolding indicator_create_def
proof (intro co_keeps_bind device_at_keeps on_fs_keeps_boards)
  fix b st
  show "co_keeps (\<lambda>w. world_boards w = B) (if st = Not_available then co_return None
      else create_adapter (indicator_of V i t d)
        (create_binary_sensor (sv_broker V) (sv_env V) (indicator_unique_id i t d)))"
    using assms
    by (auto intro!: co_keeps_return create_keeps_world init_keeps_world co_keeps_bind device_at_keeps
        on_fs_keeps_boards simp: device_keeps_def indicator_of_def indicator_impl_def indicator_sensor_state_def)
qed

lemma led_indicator_not_created:
  assumes "world_boards w i = Some bd" and "board_indicator bd t = Some (Led_indicator u l)"
    and "indicator_create V i t d w = Some (Inr x, w')"
  shows "x = None"
  using assms
  by (auto simp: indicator_create_def co_bind_def device_at_def inventory_get_def on_fs_def
      board_indicator_state_def led_indicator_state_def co_return_def)

lemma led_board_not_created:
  assumes wait: "\<And>d. co_keeps (\<lambda>w. world_boards w = B) (sv_wait V d)" and "B i = Some bd"
    and led: "board_indicator bd t = Some (Led_indicator u l)" and "world_boards w = B"
    and run: "board_create V i w = Some (Inr x, w')"
  shows "x = None"
proof (rule ccontr)
  assume "x \<noteq> None"
  note keeps = co_keepsD [OF indicator_create_keeps_boards [OF wait]]
  from run \<open>x \<noteq> None\<close> obtain d f s wn m w1 w2 w3 w4 where
    runs: "indicator_create V i Fault d w = Some (Inr f, w1)" "indicator_create V i Status d w1 = Some (Inr s, w2)"
      "indicator_create V i Warning d w2 = Some (Inr wn, w3)" "indicator_create V i Maintenance d w3 = Some (Inr m, w4)"
    and some: "f \<noteq> None" "s \<noteq> None" "wn \<noteq> None" "m \<noteq> None"
    unfolding board_create_def co_result_eq_Some by (auto simp: co_bind_eq_Some co_return_def split: if_splits)
  have b: "world_boards w1 = B" using keeps [OF assms(4) runs(1)] .
  then have c: "world_boards w2 = B" using keeps runs(2) by blast
  then have d: "world_boards w3 = B" using keeps runs(3) by blast
  have dev: "world_boards w i = Some bd" "world_boards w1 i = Some bd" "world_boards w2 i = Some bd"
    "world_boards w3 i = Some bd" using assms(2,4) b c d by simp_all
  show False
  proof (cases t)
    case Status
    from led_indicator_not_created [OF dev(2) led [unfolded Status] runs(2)] some show ?thesis by simp
  next
    case Warning
    from led_indicator_not_created [OF dev(3) led [unfolded Warning] runs(3)] some show ?thesis by simp
  next
    case Fault
    from led_indicator_not_created [OF dev(1) led [unfolded Fault] runs(1)] some show ?thesis by simp
  next
    case Maintenance
    from led_indicator_not_created [OF dev(4) led [unfolded Maintenance] runs(4)] some show ?thesis by simp
  qed
qed

section \<open>Properties\<close>

text \<open>C30: The handler of hatches, after any events: every hatch it holds has its own address and a run at
  that address. Removing a device takes out all its hatches and no other, and is refused when there
  is none, as the sensor handler does not; but the runs of the removed hatches go on, at addresses
  where there is nothing any more.\<close>

theorem removed_hatch_leaves_its_run:
  assumes "hatch_handler_reachable V w h"
  shows "distinct (map el_address (elements h)) \<and> el_address ` set (elements h) \<subseteq> set (running h)
    \<and> (case filter (\<lambda>e. el_device e = i) (elements h) of
         [] \<Rightarrow> hatch_removed i h = Some (Inl (Runtime_error
             (''Hatch device with id: '' @ int_to_string (sint i) @ '' was not found'')), h)
           \<and> temp_removed i h = Some (Inr (), h)
       | e # es \<Rightarrow> \<exists>h'. hatch_removed i h = Some (Inr (), h') \<and> temp_removed i h = Some (Inr (), h')
           \<and> elements h' = filter (\<lambda>e. el_device e \<noteq> i) (elements h) \<and> running h' = running h
           \<and> el_address e \<in> set (running h') \<and> el_address e \<notin> el_address ` set (elements h'))"
proof -
  have inv: "handler_inv h" by (rule reachable_handler_inv [OF assms])
  have dist: "distinct (map el_address (elements h))"
    using inv strict_sorted_iff by (auto simp: handler_inv_def)
  have sub: "el_address ` set (elements h) \<subseteq> set (running h)" using inv by (auto simp: handler_inv_def)
  have same: "h\<lparr>elements := elements h\<rparr> = h" by (cases h) simp
  show ?thesis
  proof (cases "filter (\<lambda>e. el_device e = i) (elements h)")
    case Nil
    then have "filter (\<lambda>e. el_device e \<noteq> i) (elements h) = elements h" by (simp add: filter_id_conv filter_empty_conv)
    with Nil dist sub same show ?thesis
      by (simp add: hatch_removed_def temp_removed_def erase_device_eq co_throw_def co_return_def)
  next
    case (Cons e es)
    then have e: "e \<in> set (elements h)" "el_device e = i"
      using list.set_intros(1) [of e es] by (metis (mono_tags, lifting) mem_Collect_eq set_filter)+
    then have "el_address e \<notin> el_address ` set (filter (\<lambda>e. el_device e \<noteq> i) (elements h))"
      using dist by (auto simp: distinct_map dest: inj_onD)
    with Cons e dist sub show ?thesis
      by (auto simp: hatch_removed_def temp_removed_def erase_device_eq co_return_def)
  qed
qed

theorem removed_hatch_leaves_its_run_witness:
  "\<exists>h h'. hatch_handler_reachable (example_services accepting_broker) example_world h
    \<and> hatch_removed 1 h = Some (Inr (), h') \<and> elements h' = [] \<and> running h' = [0]"
proof -
  let ?V = "example_services accepting_broker"
  from example_hatch_created obtain d s w' where
    run: "hatch_create ?V 1 example_world = Some (Inr (Some (d, s)), w')"
    by (auto split: option.splits prod.splits sum.splits)
  define h where "h = spawn_back (push_back 1 d s ((new_device_handler example_world)\<lparr>handler_world := w'\<rparr>))"
  have "hatch_event ?V (Created 1) (new_device_handler example_world) = Some (Inr (), h)"
    using run by (simp add: hatch_created_def device_created_def device_added_def co_return_def new_device_handler_def h_def)
  with handler_start have h: "hatch_handler_reachable ?V example_world h" by (rule handler_event)
  from removed_hatch_leaves_its_run [OF h, of 1] h show ?thesis
    by (auto simp: h_def spawn_back_def push_back_def new_device_handler_def)
qed

text \<open>A board with an LED indicator is never shown in Home Assistant: the event of its creation ends
  in an exception, since such an indicator says it is not available and all four are needed.\<close>

theorem led_board_is_never_created:
  assumes "\<And>d. co_keeps (\<lambda>w. world_boards w = B) (sv_wait V d)" and "B i = Some bd"
    and "board_indicator bd t = Some (Led_indicator u l)"
    and "world_boards (board_world h) = B" and "handled_board h = None"
    and "board_created V i h = Some (r, h')"
  shows "handled_board h' = None \<and> (\<exists>x. r = Inl x)"
  using led_board_not_created [OF assms(1-4)] assms(5,6)
  by (auto simp: board_created_def board_added_def co_throw_def split: option.splits prod.splits sum.splits)

theorem led_board_is_never_created_witness:
  "\<exists>x h'. board_created (example_services []) 1 \<lparr>handled_board = None, board_running = False,
      board_world = example_world\<lparr>world_boards := [1 \<mapsto> \<lparr>indicators = [Led_indicator Fault \<lparr>led_dir = ''l''\<rparr>]\<rparr>]\<rparr>\<rparr>
      = Some (Inl x, h') \<and> handled_board h' = None"
proof -
  let ?h = "\<lparr>handled_board = None, board_running = False, board_world = example_world\<lparr>world_boards :=
      [1 \<mapsto> \<lparr>indicators = [Led_indicator Fault \<lparr>led_dir = ''l''\<rparr>]\<rparr>]\<rparr>\<rparr>"
  have none: "indicator_create (example_services []) 1 t d (board_world ?h) = Some (Inr None, board_world ?h)" for t d
    by (cases t) (simp_all add: indicator_create_def co_bind_def device_at_def inventory_get_def on_fs_def
        board_indicator_state_def board_indicator_def led_indicator_state_def co_return_def example_world_def)
  obtain d where d: "services_identity (example_services []) 1 = Inr d"
    by (simp add: services_identity_def identity_of_def get_hardware_identity_def example_services_def)
  have "board_create (example_services []) 1 (board_world ?h) = Some (Inr None, board_world ?h)"
    unfolding board_create_def d co_result_Inr using none by (simp add: co_bind_def co_return_def)
  then obtain r h' where run: "board_created (example_services []) 1 ?h = Some (r, h')"
    by (simp add: board_created_def co_throw_def)
  have "handled_board h' = None \<and> (\<exists>x. r = Inl x)"
    by (rule led_board_is_never_created [OF _ _ _ _ _ run, of "world_boards (board_world ?h)" "\<lparr>indicators = [Led_indicator Fault \<lparr>led_dir = ''l''\<rparr>]\<rparr>" Fault Fault "\<lparr>led_dir = ''l''\<rparr>"])
      (simp_all add: example_services_def co_keeps_return board_indicator_def)
  with run show ?thesis by auto
qed

end
