(* ===== verification/Application.thy ===== *)
theory Application
  imports Board_Start App_Config Event_Bus Ha_Event_Handlers
begin

text \<open>
  The program (\<^verbatim>\<open>app/main.cpp\<close>, \<^verbatim>\<open>app/logger.cpp\<close>, \<^verbatim>\<open>app/home_assistant.cpp\<close>): the loggers, the handlers
  of device events and their subscriptions, and the start up to the first round of events. The
  coroutines that the bus spawns run after it.
\<close>

section \<open>Loggers\<close>

definition register_logger :: "string \<Rightarrow> (string list, unit) eff" where
  "register_logger name = (\<lambda>regs.
     if name \<in> set regs then (Inl (Runtime_error (''logger with name '' @ quoted name @ '' already exists'')), regs)
     else (Inr (), regs @ [name]))"

definition logger_names :: "string list" where
  "logger_names = [''mgmt'', ''mgmt:app'', ''mgmt:home_assistant_adapter'', ''mgmt:poller'', ''mgmt:device'',
     ''async_mqtt_client'', ''entity'']"

text \<open>
  With a directory, a file sink is made first; \<open>sink dir\<close> is the exception when the logging library
  cannot make it.
\<close>

definition setup_logger :: "(string \<Rightarrow> exn option) \<Rightarrow> string \<Rightarrow> string \<Rightarrow> (string list, unit) eff" where
  "setup_logger sink dir name =
     (case (if dir \<noteq> [] then sink dir else None) of Some x \<Rightarrow> eff_throw x | None \<Rightarrow> register_logger name)"

fun setup_loggers :: "(string \<Rightarrow> exn option) \<Rightarrow> string \<Rightarrow> string list \<Rightarrow> (string list, unit) eff" where
  "setup_loggers sink dir [] = eff_return ()"
| "setup_loggers sink dir (n # ns) = eff_bind (setup_logger sink dir n) (\<lambda>_. setup_loggers sink dir ns)"

definition logger_init :: "(string \<Rightarrow> exn option) \<Rightarrow> string \<Rightarrow> (string list, unit) eff" where
  "logger_init sink dir = setup_loggers sink dir logger_names"

text \<open>\<open>common::logger::get\<close> falls back to a logger that drops every message.\<close>

definition logger_get :: "string \<Rightarrow> string list \<Rightarrow> string \<times> string list" where
  "logger_get name regs =
     (if name \<in> set regs then (name, regs)
      else if ''null_logger'' \<in> set regs then (''null_logger'', regs)
      else (''null_logger'', regs @ [''null_logger'']))"

section \<open>Subscriptions\<close>

datatype ha_handler = Board_event_handler | Hatch_event_handler | Temp_sensor_event_handler

fun kind_type_name :: "device_kind \<Rightarrow> string" where
  "kind_type_name Board_kind = ''MainBoard''"
| "kind_type_name Hatch_kind = ''SysfsHatch''"
| "kind_type_name Temp_sensor_kind = ''TempSensor_t''"

fun event_cpp_type :: "device_event \<Rightarrow> cpp_type" where
  "event_cpp_type (Device_created k i) = Named (''DeviceCreated<'' @ kind_type_name k @ ''>'')"
| "event_cpp_type (Device_removed k i) = Named (''DeviceRemoved<'' @ kind_type_name k @ ''>'')"
| "event_cpp_type (Device_state_changed k i) = Named (''DeviceStateChanged<'' @ kind_type_name k @ ''>'')"

fun event_kind :: "device_event \<Rightarrow> device_kind" where
  "event_kind (Device_created k i) = k"
| "event_kind (Device_removed k i) = k"
| "event_kind (Device_state_changed k i) = k"

fun event_device :: "device_event \<Rightarrow> device_id" where
  "event_device (Device_created k i) = i"
| "event_device (Device_removed k i) = i"
| "event_device (Device_state_changed k i) = i"

text \<open>The handlers are statics, passed as lvalues.\<close>

definition handler_subscriptions :: "device_kind \<Rightarrow> ha_handler \<Rightarrow> ha_handler subscription list" where
  "handler_subscriptions k h =
     [(event_cpp_type (Device_created k 0), Lvalue_ref, h), (event_cpp_type (Device_removed k 0), Lvalue_ref, h),
      (event_cpp_type (Device_state_changed k 0), Lvalue_ref, h)]"

definition home_assistant_subscriptions :: "ha_handler subscription list" where
  "home_assistant_subscriptions = handler_subscriptions Board_kind Board_event_handler
     @ handler_subscriptions Hatch_kind Hatch_event_handler
     @ handler_subscriptions Temp_sensor_kind Temp_sensor_event_handler"

definition home_assistant_init :: "ha_handler event_bus \<Rightarrow> ha_handler event_bus" where
  "home_assistant_init b = foldl (\<lambda>b (t, q, h). subscribe t q h b) b home_assistant_subscriptions"

section \<open>The start of the program\<close>

text \<open>
  The events published one after the other. The start of the board publishes while it runs; since a
  publication only spawns coroutines and throws nothing, its events can be delivered afterwards.
\<close>

fun publish_all ::
    "('h \<Rightarrow> 'h) \<Rightarrow> device_event list \<Rightarrow> 'h event_bus
      \<Rightarrow> unit result \<times> ('h, device_event) spawned list \<times> 'h event_bus" where
  "publish_all moved [] b = (Inr (), [], b)"
| "publish_all moved (e # es) b =
     (case publish_new moved (event_cpp_type e) e b of
        (Inl x, cs, b') \<Rightarrow> (Inl x, cs, b')
      | (Inr u, cs, b') \<Rightarrow> (case publish_all moved es b' of (r, cs', b'') \<Rightarrow> (r, cs @ cs', b'')))"

text \<open>
  How the program is when the event loop has run the start of the board: it has left with a usage
  message, an exception has ended it, whose message went to the logger named, it has crashed, or it
  is running with the coroutines of the handlers spawned.
\<close>

datatype program_state =
    Exited_with_usage
  | Aborted string exn
  | Crashed
  | Started app_config platform "(ha_handler, device_event) spawned list"

definition caught :: "string list \<Rightarrow> exn \<Rightarrow> program_state" where
  "caught regs x = (case x of
     Undefined_behaviour m \<Rightarrow> Crashed | Assertion_failed \<Rightarrow> Crashed
   | _ \<Rightarrow> Aborted (fst (logger_get ''mgmt:app'' regs)) x)"

definition mgmt_main ::
    "json_lib \<Rightarrow> (string \<Rightarrow> exn option) \<Rightarrow> (ha_handler \<Rightarrow> ha_handler) \<Rightarrow> string list \<Rightarrow> fs \<Rightarrow> program_state option" where
  "mgmt_main L sink moved argv w =
     (if length argv \<noteq> 2 then Some Exited_with_usage
      else case load_config L (argv ! 1) w of
        None \<Rightarrow> None
      | Some (Inl x, w) \<Rightarrow> Some (caught [] x)
      | Some (Inr c, w) \<Rightarrow>
          (case logger_init sink (log_dir c) [] of
             (Inl x, regs) \<Rightarrow> Some (caught regs x)
           | (Inr u, regs) \<Rightarrow>
               (let bus = home_assistant_init (new_bus event_id_init) in
                case main_board_init L (''hw'' \<in> set regs) (dtree_file c) (new_platform w) of
                  None \<Rightarrow> None
                | Some (Inl x, p) \<Rightarrow> Some (caught regs x)
                | Some (Inr u, p) \<Rightarrow>
                    (case publish_all moved (pf_events p) bus of
                       (Inl x, cs, b) \<Rightarrow> Some (caught regs x)
                     | (Inr u, cs, b) \<Rightarrow> Some (Started c p cs)))))"

section \<open>Lemmas\<close>

fun kind_handler :: "device_kind \<Rightarrow> ha_handler" where
  "kind_handler Board_kind = Board_event_handler"
| "kind_handler Hatch_kind = Hatch_event_handler"
| "kind_handler Temp_sensor_kind = Temp_sensor_event_handler"

lemma home_assistant_bus: "home_assistant_init (new_bus event_id_init) = bus_with home_assistant_subscriptions"
  by (simp add: home_assistant_init_def bus_with_def)

lemma subscriptions_to_event:
  "subscriptions_to (event_cpp_type e) home_assistant_subscriptions =
    [(event_cpp_type e, Lvalue_ref, kind_handler (event_kind e))]"
  by (cases e; cases "event_kind e")
    (simp_all add: subscriptions_to_def home_assistant_subscriptions_def handler_subscriptions_def decay_def)

lemma length_home_assistant_subscriptions: "length home_assistant_subscriptions = 9"
  by (simp add: home_assistant_subscriptions_def handler_subscriptions_def)

text \<open>Handlers captured by reference stay, so every event of a sequence is delivered like the first.\<close>

lemma publish_all_by_ref:
  assumes inv: "bus_inv n b"
    and subs: "\<And>e. subscribers b (event_cpp_type e) = [By_ref (handler (event_kind e))]"
  shows "\<exists>cs. publish_all moved es b = (Inr (), cs, b)
    \<and> map (\<lambda>c. (spawned_handler c, event_payload (spawned_event c))) cs = map (\<lambda>e. (handler (event_kind e), e)) es"
proof (induction es)
  case Nil
  then show ?case by simp
next
  case (Cons e es)
  from publish_new_by_ref [OF inv, of "event_cpp_type e" "[handler (event_kind e)]" moved e] subs
  obtain i where "publish_new moved (event_cpp_type e) e b = (Inr (), [\<lparr>spawned_handler = handler (event_kind e),
      spawned_event = \<lparr>event_type = event_cpp_type e, event_id = i, event_payload = e\<rparr>\<rparr>], b)" by auto
  with Cons.IH show ?case by auto
qed

definition ha_bus :: "ha_handler event_bus" where
  "ha_bus = home_assistant_init (new_bus event_id_init)"

lemma home_assistant_delivers:
  "\<exists>cs. publish_all moved es ha_bus = (Inr (), cs, ha_bus)
    \<and> map (\<lambda>c. (spawned_handler c, event_payload (spawned_event c))) cs
      = map (\<lambda>e. (kind_handler (event_kind e), e)) es"
proof -
  have "length home_assistant_subscriptions \<le> 2 ^ 64" by (simp add: length_home_assistant_subscriptions)
  note bus = bus_with_spec [OF this]
  show ?thesis
  proof (rule publish_all_by_ref)
    show "bus_inv 9 ha_bus"
      using bus by (simp add: ha_bus_def home_assistant_bus length_home_assistant_subscriptions)
    show "subscribers ha_bus (event_cpp_type e) = [By_ref (kind_handler (event_kind e))]" for e
      using bus by (simp add: ha_bus_def home_assistant_bus subscriptions_to_event capture_fwd_def)
  qed
qed

lemma publish_all_ha_bus:
  assumes "publish_all moved es ha_bus = (r, cs, b)"
  shows "r = Inr () \<and> b = ha_bus
    \<and> map (\<lambda>c. (spawned_handler c, event_payload (spawned_event c))) cs = map (\<lambda>e. (kind_handler (event_kind e), e)) es"
  using home_assistant_delivers [of moved es] assms by auto

text \<open>Loading the configuration changes nothing, and no logger is ever called \<open>hw\<close>.\<close>

lemma load_config_same: "load_config L path w = Some (r, w') \<Longrightarrow> w' = w"
  by (auto simp: load_config_def split: option.splits if_splits sum.splits)

lemma logger_init_regs: "logger_init sink dir [] = (Inr u, regs) \<Longrightarrow> regs = logger_names"
  by (auto simp: logger_init_def logger_names_def eff_bind_def setup_logger_def register_logger_def
      eff_return_def eff_throw_def split: option.splits prod.splits sum.splits if_splits)

text \<open>What a start that came to the loop has announced, and to whom.\<close>

lemma started_devices:
  assumes "mgmt_main L sink moved argv w = Some (Started c p cs)"
  shows "\<exists>b f ds h. discovery_setup L False (dtree_file c) new_builder w = Some (Inr b, f)
    \<and> map fst ds = map loader_kind (built_loaders b) \<and> Board_kind \<notin> set (map fst ds)
    \<and> all_announced ((Board_kind, 1) # ds) h p
    \<and> map (\<lambda>s. (spawned_handler s, event_payload (spawned_event s))) cs
      = map (\<lambda>(k, i). (kind_handler k, Device_created k i)) ((Board_kind, 1) # ds)"
proof -
  from assms obtain w' regs u b where load: "load_config L (argv ! 1) w = Some (Inr c, w')"
    and logs: "logger_init sink (log_dir c) [] = (Inr u, regs)"
    and start: "main_board_init L (''hw'' \<in> set regs) (dtree_file c) (new_platform w') = Some (Inr (), p)"
    and pub: "publish_all moved (pf_events p) (home_assistant_init (new_bus event_id_init)) = (Inr u, cs, b)"
    by (auto simp: mgmt_main_def Let_def caught_def split: if_splits option.splits prod.splits sum.splits exn.splits)
  have "(''hw'' \<in> set regs) = False" by (simp add: logger_init_regs [OF logs] logger_names_def)
  from main_board_init_announces [OF start [unfolded this load_config_same [OF load]]] obtain b f ds h where
    disc: "discovery_setup L False (dtree_file c) new_builder w = Some (Inr b, f)"
    and kinds: "map fst ds = map loader_kind (built_loaders b)" and all: "all_announced ((Board_kind, 1) # ds) h p" by blast
  from all have ev: "pf_events p = map (\<lambda>(k, i). Device_created k i) ((Board_kind, 1) # ds)"
    unfolding all_announced_def by blast
  from publish_all_ha_bus [OF pub [folded ha_bus_def]]
  have "map (\<lambda>s. (spawned_handler s, event_payload (spawned_event s))) cs
      = map (\<lambda>(k, i). (kind_handler k, Device_created k i)) ((Board_kind, 1) # ds)"
    by (simp add: ev comp_def split_beta)
  moreover have "loader_kind l \<noteq> Board_kind" for l by (cases l) simp_all
  then have "Board_kind \<notin> set (map fst ds)" unfolding kinds by (auto simp: eq_commute [of Board_kind])
  ultimately show ?thesis using disc kinds all by blast
qed

lemma started_announces:
  assumes "mgmt_main L sink moved argv w = Some (Started c p cs)"
  shows "\<exists>ds h. all_announced ((Board_kind, 1) # ds) h p \<and> Board_kind \<notin> set (map fst ds)
    \<and> map (\<lambda>s. (spawned_handler s, event_payload (spawned_event s))) cs
      = map (\<lambda>(k, i). (kind_handler k, Device_created k i)) ((Board_kind, 1) # ds)"
  using started_devices [OF assms] by blast

section \<open>Properties\<close>

text \<open>C1: A program that has started has read the file of its platform, and has the board, device one,
  and under it one device for each loader of that file, of its kind and in the order of the file: they
  are the devices that are polled and the children of the board, each with an identifier of its own.
  The handlers of Home Assistant run once for each of them, the one of its kind, in that order, and
  find it in its inventory and with the identity of the board.\<close>

theorem started_program_handles_every_device:
  assumes "mgmt_main L sink moved argv w = Some (Started c p cs)"
  shows "\<exists>b f ds d. discovery_setup L False (dtree_file c) new_builder w = Some (Inr b, f)
    \<and> map fst ds = map loader_kind (built_loaders b)
    \<and> map (\<lambda>e. (poller_kind e, poller_device e)) (pollers (pf_polling p)) = (Board_kind, 1) # ds
    \<and> all_children 1 (pf_tree p) = map snd ds
    \<and> map (\<lambda>s. (spawned_handler s, event_payload (spawned_event s))) cs
      = map (\<lambda>(k, i). (kind_handler k, Device_created k i)) ((Board_kind, 1) # ds)
    \<and> distinct (map snd ((Board_kind, 1) # ds))
    \<and> list_all (\<lambda>(k, i). known k i (pf_world p) \<and> identity_of (pf_store p) (pf_tree p) i = Inr d)
        ((Board_kind, 1) # ds)"
proof -
  from started_devices [OF assms] obtain b f ds h where
    "discovery_setup L False (dtree_file c) new_builder w = Some (Inr b, f)"
    "map fst ds = map loader_kind (built_loaders b)"
    and all: "all_announced ((Board_kind, 1) # ds) h p" and
    "map (\<lambda>s. (spawned_handler s, event_payload (spawned_event s))) cs
      = map (\<lambda>(k, i). (kind_handler k, Device_created k i)) ((Board_kind, 1) # ds)" by blast
  moreover from all have "distinct (map snd ((Board_kind, 1) # ds))"
    and "map (\<lambda>e. (poller_kind e, poller_device e)) (pollers (pf_polling p)) = (Board_kind, 1) # ds"
    unfolding all_announced_def by blast+
  moreover have "all_children 1 (pf_tree p) = map snd ds"
    using all by (simp add: all_announced_def all_children_def comp_def)
  moreover have "list_all (\<lambda>(k, i). known k i (pf_world p) \<and> identity_of (pf_store p) (pf_tree p) i =
      Inr \<lparr>manufacturer = hwid_manufacturer h, model = hwid_model h, serial_number = hwid_serial_number h,
        hw_revision = hwid_revision h, sw_revision = ''Sw rev default''\<rparr>) ((Board_kind, 1) # ds)"
    using announced_devices [OF all] by (rule list.pred_mono_strong) (auto simp: identity_of_def)
  ultimately show ?thesis by - (intro exI conjI; assumption)
qed

text \<open>A disk with a configuration, and with the platform of the example of the discovery.\<close>

definition example_json :: json_lib where
  "example_json = \<lparr>json_parse = (\<lambda>s. if s = ''tree'' then Inr example_pdtree
       else if s = ''config'' then Inr (config_document '''' ''/pdtree.json'' ''u'' ''p'' ''broker'' 1883 30 5 5)
       else Inl (Json_error ''syntax'')),
     json_serialize = (\<lambda>j. ''tree''), json_incomplete = (\<lambda>s. False)\<rparr>"

definition example_disk_files :: fs where
  "example_disk_files = example_board_files\<lparr>files := [''/pdtree.json'' \<mapsto> regular_file ''tree'',
     ''/config.json'' \<mapsto> regular_file ''config'']\<rparr>"

lemma example_program_starts:
  "case mgmt_main example_json (\<lambda>_. None) id [''mgmt'', ''/config.json''] example_disk_files of
     Some (Started c p cs) \<Rightarrow> dtree_file c = ''/pdtree.json'' \<and> length (pf_events p) = 3 | _ \<Rightarrow> False"
  by code_simp

lemma example_disk_discovered:
  "case discovery_setup example_json False ''/pdtree.json'' new_builder example_disk_files of
     Some (Inr b, w) \<Rightarrow> map loader_kind (built_loaders b) = [Hatch_kind, Temp_sensor_kind] | _ \<Rightarrow> False"
  by code_simp

theorem started_program_handles_every_device_witness:
  "\<exists>c p cs. mgmt_main example_json (\<lambda>_. None) id [''mgmt'', ''/config.json''] example_disk_files = Some (Started c p cs)
    \<and> list_all (\<lambda>i. \<exists>d. identity_of (pf_store p) (pf_tree p) i = Inr d) [1]
    \<and> map spawned_handler cs = [Board_event_handler, Hatch_event_handler, Temp_sensor_event_handler]"
proof -
  from example_program_starts obtain c p cs where
    run: "mgmt_main example_json (\<lambda>_. None) id [''mgmt'', ''/config.json''] example_disk_files = Some (Started c p cs)"
    and tree: "dtree_file c = ''/pdtree.json''"
    by (auto split: option.splits program_state.splits)
  from started_program_handles_every_device [OF run] obtain b f ds d where
    disc: "discovery_setup example_json False (dtree_file c) new_builder example_disk_files = Some (Inr b, f)"
    and kinds: "map fst ds = map loader_kind (built_loaders b)"
    and cs: "map (\<lambda>s. (spawned_handler s, event_payload (spawned_event s))) cs
      = map (\<lambda>(k, i). (kind_handler k, Device_created k i)) ((Board_kind, 1) # ds)"
    and id: "list_all (\<lambda>(k, i). known k i (pf_world p) \<and> identity_of (pf_store p) (pf_tree p) i = Inr d)
        ((Board_kind, 1) # ds)"
    by blast
  from example_disk_discovered disc kinds have ds: "map fst ds = [Hatch_kind, Temp_sensor_kind]" by (simp add: tree)
  have "map spawned_handler cs = map (\<lambda>k. kind_handler k) (map fst ((Board_kind, 1) # ds))"
    using arg_cong [OF cs, of "map fst"] by (simp add: comp_def split_beta)
  with run id ds show ?thesis by auto
qed

lemma logger_init_names:
  "dir = [] \<or> sink dir = None \<Longrightarrow> logger_init sink dir [] = (Inr (), logger_names)"
  by (auto simp: logger_init_def logger_names_def setup_logger_def register_logger_def eff_bind_def eff_return_def)

text \<open>C34: A platform with an RGB indicator that lacks one of its LEDs, or the path of one, crashes the
  program, wherever in the file the indicator stands, unless an entry before it already ends the start:
  the message about it goes to a logger that is never registered.\<close>

theorem missing_led_crashes:
  assumes "log_dir c = [] \<or> sink (log_dir c) = None" and "length argv = 2" and "load_config L (argv ! 1) w = Some (Inr c, w)"
    and "open_in (dtree_file c) w = Some st" and "\<not> broken st"
    and "json_parse L (rest st) = Inr (J_array (pre @ J_object obj # es))"
    and "setup_entries False pre new_builder w = Some (Inr bld, w)"
    and "c_string (map_of obj ''compatible'') = Some ''sysfs_rgbled_indicator''"
    and "map_of obj ''leds'' = Some (J_array leds)"
    and "load_led leds ''red'' w = Some (Inr r, w)" and "load_led leds ''green'' w = Some (Inr g, w)"
    and "load_led leds ''blue'' w = Some (Inr b, w)" and "None \<in> {r, g, b}"
  shows "mgmt_main L sink moved argv w = Some Crashed"
proof -
  have hw: "(''hw'' \<in> set logger_names) = False" by (simp add: logger_names_def)
  have ex: "fs_exists w (dtree_file c)"
    using assms(4) by (auto simp: open_in_def fs_exists_def split: option.splits)
  have rgb: "load_rgb False obj bld w = Some (Inl (Undefined_behaviour ''null logger''), w)"
    using assms(9-) by (auto simp: load_rgb_def co_bind_def fs_result_def object_at_def co_throw_def split: option.splits)
  have "List.find (\<lambda>p. compatible p = ''sysfs_rgbled_indicator'') all_providers = Some Rgb_indicator_provider"
    by (simp add: all_providers_def)
  moreover have "result_bind (object_at obj ''compatible'') pdtree_to_string = Inr ''sysfs_rgbled_indicator''"
    using assms(8) by (simp add: string_at_Inr)
  ultimately have "setup_entries False (J_object obj # es) bld w
      = Some (Inl (Undefined_behaviour ''null logger''), w)"
    by (simp add: setup_entry_def co_bind_def fs_result_def rgb)
  then have "setup_entries False (pre @ J_object obj # es) new_builder w
      = Some (Inl (Undefined_behaviour ''null logger''), w)"
    by (simp add: setup_entries_append co_bind_def assms(7) del: setup_entries.simps)
  then have "discovery_setup L False (dtree_file c) new_builder w = Some (Inl (Undefined_behaviour ''null logger''), w)"
    using assms(4-6) by (simp add: discovery_setup_def pdtree_load_def co_bind_def fs_result_def)
  then have "\<exists>p. main_board_init L False (dtree_file c) (new_platform w)
      = Some (Inl (Undefined_behaviour ''null logger''), p)"
    using ex by (simp add: main_board_init_def co_bind_def on_files_def on_fs_def new_platform_def
        new_discovery_def co_return_def)
  then show ?thesis
    using assms(2,3) logger_init_names [where dir = "log_dir c" and sink = sink, OF assms(1)] by (auto simp: mgmt_main_def Let_def hw caught_def)
qed

definition example_hatch_entry :: json where
  "example_hatch_entry = J_object [(''compatible'', J_string ''sysfs_hatch2sr''), (''model'', J_string ''h2''),
     (''sysfs_path'', J_string ''/sys/hatch'')]"

lemma example_hatch_entry_set_up:
  "case setup_entries False [example_hatch_entry] new_builder example_disk_files of
     Some (Inr b, w) \<Rightarrow> length (built_loaders b) = 1 | _ \<Rightarrow> False"
  by code_simp

theorem missing_led_crashes_witness:
  "mgmt_main \<lparr>json_parse = (\<lambda>s. if s = ''tree''
      then Inr (J_array [example_hatch_entry,
        J_object [(''compatible'', J_string ''sysfs_rgbled_indicator''), (''leds'', J_array [])]])
      else json_parse example_json s), json_serialize = (\<lambda>j. ''tree''), json_incomplete = (\<lambda>s. False)\<rparr>
    (\<lambda>_. None) id [''mgmt'', ''/config.json''] example_disk_files = Some Crashed"
  (is "mgmt_main ?L _ _ _ _ = _")
proof -
  have "load_config ?L ([''mgmt'', ''/config.json''] ! 1) example_disk_files = Some (Inr
      \<lparr>log_dir = '''', dtree_file = ''/pdtree.json'', entity_config =
        \<lparr>ecc_username = ''u'', ecc_password = ''p'', ecc_server_address = ''broker'', ecc_server_port = 1883,
         ecc_keep_alive_interval = 30, ecc_max_reconnect_attempts = 5, ecc_reconnect_delay = 5\<rparr>\<rparr>, example_disk_files)"
    by (simp add: load_config_def open_in_def example_disk_files_def example_json_def regular_file_def
        config_document_def app_config_of_def entity_client_config_of_def json_member_cons)
  note cfg = this
  from example_hatch_entry_set_up obtain bld where
    pre: "setup_entries False [example_hatch_entry] new_builder example_disk_files = Some (Inr bld, example_disk_files)"
    by (auto simp del: setup_entries.simps dest: setup_entries_same split: option.splits prod.splits sum.splits)
  have led: "load_led [] l w = Some (Inr None, w)" for l w
    by (simp add: load_led_def co_bind_def fs_result_def co_return_def)
  have tree: "open_in ''/pdtree.json'' example_disk_files =
      Some \<lparr>rest = ''tree'', broken = False, eofbit = False, failbit = False, badbit = False\<rparr>"
    by (simp add: open_in_def example_disk_files_def regular_file_def)
  show ?thesis
    by (rule missing_led_crashes [OF _ _ cfg, where st = "\<lparr>rest = ''tree'', broken = False, eofbit = False,
          failbit = False, badbit = False\<rparr>"
          and obj = "[(''compatible'', J_string ''sysfs_rgbled_indicator''), (''leds'', J_array [])]"
          and pre = "[example_hatch_entry]" and bld = bld
          and es = "[]" and leds = "[]" and r = None and g = None and b = None])
      (use pre in \<open>simp_all add: tree led c_string_def char_of_def del: setup_entries.simps\<close>)
qed

end
