(* ===== verification/Event_Loop.thy ===== *)
theory Event_Loop
  imports Application "HOL-Library.Multiset"
begin

text \<open>
  The running program: what its coroutines do to one another once it has started. A step of the loop
  is one poll of a poller (\<^verbatim>\<open>poller/polling_service.cpp\<close>), one event handled by a coroutine the bus has
  spawned (\<^verbatim>\<open>common/event/event_bus.hpp\<close>), the end of a creation that was suspended, one round of a running entity
  (\<^verbatim>\<open>home_assistant/adapter/entity_adapter.hpp\<close>), or a change of the files by the hardware; any order
  of them is possible. The first exception that leaves a coroutine is rethrown out of the loop and
  ends the program.
\<close>

section \<open>State\<close>

text \<open>A device whose creation has come to its last suspension: what is left is to move it into its handler.\<close>

datatype 'e ready_device =
    Hatch_ready device_id device_identity "'e client topic_entity"
  | Temp_ready device_id device_identity "'e client topic_entity"
  | Board_ready device_id device_identity "'e client topic_entity ha_board"

text \<open>
  The platform holds the world that all coroutines share. The values the pollers saw last are per
  device and kind; \<open>rn_tasks\<close> are the coroutines the bus has spawned and that have not run yet, and
  \<open>rn_ready\<close> those of a creation that wait for the broker in its last publication.
\<close>

record ('e, 'f) running_program =
  rn_platform :: platform
  rn_bus :: "ha_handler event_bus"
  rn_tasks :: "(ha_handler, device_event) spawned list"
  rn_ready :: "'e ready_device list"
  rn_hatch_seen :: "device_id \<Rightarrow> size_t"
  rn_board_seen :: "device_id \<Rightarrow> size_t"
  rn_temp_seen :: "device_id \<Rightarrow> 'f"
  rn_hatches :: "'e client topic_entity device_handler"
  rn_temps :: "'e client topic_entity device_handler"
  rn_board :: "'e client topic_entity board_handler"
  rn_failure :: "exn option"

text \<open>
  What the loop is given: the services of the entities, but for the identities and the tree, which
  are those of the platform; hash functions, the comparison of floats, what moving leaves of a
  handler, and the order of the indicators in the hash map.
\<close>

record ('e, 'f) loop_env =
  le_services :: "('e, 'f, unit) services"
  le_hash :: "hatch_state \<Rightarrow> size_t"
  le_hash_combine :: "size_t \<Rightarrow> indicator_state \<Rightarrow> size_t"
  le_float_neq :: "'f \<Rightarrow> 'f \<Rightarrow> bool"
  le_moved :: "ha_handler \<Rightarrow> ha_handler"
  le_order :: "indicator_type list"

definition loop_services :: "('e, 'f) loop_env \<Rightarrow> ('e, 'f) running_program \<Rightarrow> ('e, 'f, unit) services" where
  "loop_services E r =
     (le_services E)\<lparr>sv_store := pf_store (rn_platform r), sv_tree := pf_tree (rn_platform r)\<rparr>"

definition rn_world :: "('e, 'f) running_program \<Rightarrow> ha_world" where
  "rn_world r = pf_world (rn_platform r)"

definition set_world :: "ha_world \<Rightarrow> ('e, 'f) running_program \<Rightarrow> ('e, 'f) running_program" where
  "set_world w r = r\<lparr>rn_platform := (rn_platform r)\<lparr>pf_world := w\<rparr>\<rparr>"

definition new_board_handler :: "ha_world \<Rightarrow> 's board_handler" where
  "new_board_handler w = \<lparr>handled_board = None, board_running = False, board_world = w\<rparr>"

text \<open>The program as \<open>mgmt_main\<close> leaves it.\<close>

definition running_start ::
    "('e, 'f) loop_env \<Rightarrow> platform \<Rightarrow> (ha_handler, device_event) spawned list \<Rightarrow> ('e, 'f) running_program" where
  "running_start E p cs =
     \<lparr>rn_platform = p, rn_bus = snd (snd (publish_all (le_moved E) (pf_events p) ha_bus)), rn_tasks = cs, rn_ready = [],
      rn_hatch_seen = (\<lambda>_. 0), rn_board_seen = (\<lambda>_. 0), rn_temp_seen = (\<lambda>_. float_zero (sv_floats (le_services E))),
      rn_hatches = new_device_handler (pf_world p), rn_temps = new_device_handler (pf_world p),
      rn_board = new_board_handler (pf_world p), rn_failure = None\<rparr>"

text \<open>\<open>rethrow\<close>, the completion handler of every coroutine.\<close>

definition rethrow :: "unit result \<Rightarrow> ('e, 'f) running_program \<Rightarrow> ('e, 'f) running_program" where
  "rethrow x r = (case x of Inl e \<Rightarrow> r\<lparr>rn_failure := Some e\<rparr> | Inr u \<Rightarrow> r)"

section \<open>Polls\<close>

text \<open>
  Publishing is the last thing a poll does. In the program \<open>co_spawn\<close> starts a coroutine at once, on the
  thread of the loop, and it runs up to its first suspension; here it waits in \<open>rn_tasks\<close> and its step may be
  taken next or later. So the loop has the runs in which a handler starts at once, and others: what holds of
  every run (the invariants) holds of the program, and runs that are exhibited take the step of the handler
  right after the poll.
\<close>

definition spawn_published :: "('e, 'f) loop_env \<Rightarrow> device_event list \<Rightarrow> ('e, 'f) running_program \<Rightarrow> ('e, 'f) running_program" where
  "spawn_published E es r =
     (case publish_all (le_moved E) es (rn_bus r) of
        (x, cs, b) \<Rightarrow> rethrow x (r\<lparr>rn_bus := b, rn_tasks := rn_tasks r @ cs\<rparr>))"

definition run_poll ::
    "('e, 'f) loop_env \<Rightarrow> ('h polled, unit) co \<Rightarrow> 'h
      \<Rightarrow> ('h \<Rightarrow> ('e, 'f) running_program \<Rightarrow> ('e, 'f) running_program)
      \<Rightarrow> ('e, 'f) running_program \<Rightarrow> ('e, 'f) running_program option" where
  "run_poll E poll seen put r =
     map_option (\<lambda>(x, q). rethrow x (spawn_published E (published q) (put (last_seen q) (set_world (polled_world q) r))))
       (poll \<lparr>last_seen = seen, polled_world = rn_world r, published = []\<rparr>)"

definition poll_device ::
    "('e, 'f) loop_env \<Rightarrow> poller_entry \<Rightarrow> ('e, 'f) running_program \<Rightarrow> ('e, 'f) running_program option" where
  "poll_device E e r = (let i = poller_device e in
     case poller_kind e of
       Hatch_kind \<Rightarrow> run_poll E (poll_hatch (le_hash E) i) (rn_hatch_seen r i)
         (\<lambda>v r. r\<lparr>rn_hatch_seen := (rn_hatch_seen r)(i := v)\<rparr>) r
     | Board_kind \<Rightarrow> run_poll E (poll_board (le_hash_combine E) i) (rn_board_seen r i)
         (\<lambda>v r. r\<lparr>rn_board_seen := (rn_board_seen r)(i := v)\<rparr>) r
     | Temp_sensor_kind \<Rightarrow> run_poll E (poll_temp (sv_floats (le_services E)) (le_float_neq E) i) (rn_temp_seen r i)
         (\<lambda>v r. r\<lparr>rn_temp_seen := (rn_temp_seen r)(i := v)\<rparr>) r)"

section \<open>Handlers\<close>

definition on_hatches ::
    "('e client topic_entity device_handler, unit) co \<Rightarrow> ('e, 'f) running_program \<Rightarrow> ('e, 'f) running_program option" where
  "on_hatches m r =
     map_option (\<lambda>(x, h). rethrow x (set_world (handler_world h) (r\<lparr>rn_hatches := h\<rparr>)))
       (m ((rn_hatches r)\<lparr>handler_world := rn_world r\<rparr>))"

definition on_temps ::
    "('e client topic_entity device_handler, unit) co \<Rightarrow> ('e, 'f) running_program \<Rightarrow> ('e, 'f) running_program option" where
  "on_temps m r =
     map_option (\<lambda>(x, h). rethrow x (set_world (handler_world h) (r\<lparr>rn_temps := h\<rparr>)))
       (m ((rn_temps r)\<lparr>handler_world := rn_world r\<rparr>))"

definition on_board ::
    "('e client topic_entity board_handler, unit) co \<Rightarrow> ('e, 'f) running_program \<Rightarrow> ('e, 'f) running_program option" where
  "on_board m r =
     map_option (\<lambda>(x, h). rethrow x (set_world (board_world h) (r\<lparr>rn_board := h\<rparr>)))
       (m ((rn_board r)\<lparr>board_world := rn_world r\<rparr>))"

text \<open>
  The creation of a device, up to its last suspension. A hatch or sensor that could not be created is
  logged and given up, a board is an exception.
\<close>

definition create_device ::
    "('e, 'f, unit) services \<Rightarrow> device_kind \<Rightarrow> device_id \<Rightarrow> (ha_world, 'e ready_device option) co" where
  "create_device V k i = (case k of
     Hatch_kind \<Rightarrow> co_bind (hatch_create V i) (\<lambda>x. co_return (map_option (\<lambda>(d, s). Hatch_ready i d s) x))
   | Temp_sensor_kind \<Rightarrow> co_bind (temp_create V i) (\<lambda>x. co_return (map_option (\<lambda>(d, s). Temp_ready i d s) x))
   | Board_kind \<Rightarrow> co_bind (board_create V i) (\<lambda>x.
       case x of
         None \<Rightarrow> co_throw (Runtime_error ''Cannot create MainBoard device'')
       | Some b \<Rightarrow> co_bind (co_result (services_identity V i)) (\<lambda>d. co_return (Some (Board_ready i d b)))))"

text \<open>The creation resumes: the device is moved into its handler, and its run is spawned.\<close>

fun add_ready :: "'e ready_device \<Rightarrow> ('e, 'f) running_program \<Rightarrow> ('e, 'f) running_program option" where
  "add_ready (Hatch_ready i d s) r = on_hatches (device_added i d s) r"
| "add_ready (Temp_ready i d s) r = on_temps (device_added i d s) r"
| "add_ready (Board_ready i d b) r = on_board (board_added i d b) r"

definition finish_creation :: "nat \<Rightarrow> ('e, 'f) running_program \<Rightarrow> ('e, 'f) running_program option" where
  "finish_creation m r =
     (if m < length (rn_ready r)
      then add_ready (rn_ready r ! m) (r\<lparr>rn_ready := take m (rn_ready r) @ drop (Suc m) (rn_ready r)\<rparr>)
      else None)"

text \<open>
  A creation ends with a publication and waits for it, but for a hatch that was neither open nor closed:
  there is nothing to publish after its state was read, and the creation goes on at once.
\<close>

definition ends_suspended :: "'e ready_device \<Rightarrow> ha_world \<Rightarrow> bool" where
  "ends_suspended c w = (case c of
     Hatch_ready i d s \<Rightarrow> (case hatch_cover_state i w of Some (Inr st, w') \<Rightarrow> st \<noteq> Undefined | _ \<Rightarrow> True)
   | _ \<Rightarrow> True)"

definition begin_creation ::
    "(ha_world, 'e ready_device option) co \<Rightarrow> ('e, 'f) running_program \<Rightarrow> ('e, 'f) running_program option" where
  "begin_creation create r = (case create (rn_world r) of
     None \<Rightarrow> None
   | Some (Inl e, w) \<Rightarrow> Some (rethrow (Inl e) (set_world w r))
   | Some (Inr None, w) \<Rightarrow> Some (set_world w r)
   | Some (Inr (Some c), w) \<Rightarrow>
       (let q = set_world w (r\<lparr>rn_ready := rn_ready r @ [c]\<rparr>)
        in if ends_suspended c w then Some q else finish_creation (length (rn_ready r)) q))"

fun handle_event ::
    "('e, 'f) loop_env \<Rightarrow> ha_handler \<Rightarrow> device_event \<Rightarrow> ('e, 'f) running_program \<Rightarrow> ('e, 'f) running_program option" where
  "handle_event E Hatch_event_handler (Device_created k i) r =
     begin_creation (create_device (loop_services E r) Hatch_kind i) r"
| "handle_event E Hatch_event_handler (Device_removed k i) r = on_hatches (hatch_removed i) r"
| "handle_event E Hatch_event_handler (Device_state_changed k i) r =
     on_hatches (hatch_state_changed (loop_services E r) i) r"
| "handle_event E Temp_sensor_event_handler (Device_created k i) r =
     begin_creation (create_device (loop_services E r) Temp_sensor_kind i) r"
| "handle_event E Temp_sensor_event_handler (Device_removed k i) r = on_temps (temp_removed i) r"
| "handle_event E Temp_sensor_event_handler (Device_state_changed k i) r =
     on_temps (temp_state_changed (loop_services E r) i) r"
| "handle_event E Board_event_handler (Device_created k i) r =
     (if handled_board (rn_board r) \<noteq> None
      then Some (rethrow (Inl (Runtime_error ''Unexpected value in std::optional<MainBoardHandler>'')) r)
      else begin_creation (create_device (loop_services E r) Board_kind i) r)"
| "handle_event E Board_event_handler (Device_removed k i) r = on_board (board_removed i) r"
| "handle_event E Board_event_handler (Device_state_changed k i) r =
     on_board (board_state_changed (loop_services E r) (le_order E) i) r"

definition handle_task ::
    "('e, 'f) loop_env \<Rightarrow> nat \<Rightarrow> ('e, 'f) running_program \<Rightarrow> ('e, 'f) running_program option" where
  "handle_task E n r =
     (if n < length (rn_tasks r)
      then let c = rn_tasks r ! n in
        handle_event E (spawned_handler c) (event_payload (spawned_event c))
          (r\<lparr>rn_tasks := take n (rn_tasks r) @ drop (Suc n) (rn_tasks r)\<rparr>)
      else None)"

section \<open>Rounds of the entities\<close>

text \<open>
  One round of the run spawned for the element at an address. A run whose element was erased resumes
  on a destroyed object.
\<close>

fun round_at ::
    "(device_id \<Rightarrow> device_identity \<Rightarrow> ('s, ha_world, 'v, 'st) adapter_impl) \<Rightarrow> nat
      \<Rightarrow> 's element list \<Rightarrow> ha_world \<Rightarrow> (unit result \<times> 's element list \<times> ha_world) option" where
  "round_at I a [] w = Some (Inl (Undefined_behaviour ''destroyed element''), [], w)"
| "round_at I a (e # es) w =
     (if a = el_address e
      then map_option (\<lambda>(r, b). (r, e\<lparr>el_entity := adapted_entity b\<rparr> # es, world b))
             (run_round (I (el_device e) (el_identity e)) \<lparr>adapted_entity = el_entity e, world = w\<rparr>)
      else map_option (\<lambda>(r, es', w'). (r, e # es', w')) (round_at I a es w))"

definition device_round ::
    "(device_id \<Rightarrow> device_identity \<Rightarrow> ('s, ha_world, 'v, 'st) adapter_impl) \<Rightarrow> nat \<Rightarrow> ('s device_handler, unit) co" where
  "device_round I a = (\<lambda>h.
     if a \<notin> set (running h) then None
     else map_option (\<lambda>(r, es, w). (r, h\<lparr>elements := es, handler_world := w\<rparr>))
            (round_at I a (elements h) (handler_world h)))"

text \<open>\<open>MainBoard::async_run\<close> has spawned a run for each indicator and one for the button.\<close>

definition indicator_round ::
    "('e, 'f, 'cb) services \<Rightarrow> indicator_type \<Rightarrow> ('e client topic_entity board_handler, unit) co" where
  "indicator_round V t = (\<lambda>h.
     case handled_board h of
       None \<Rightarrow> None
     | Some (i, d, b) \<Rightarrow>
         (case ha_indicators b t of
            None \<Rightarrow> None
          | Some s \<Rightarrow>
              if board_running h
              then map_option (\<lambda>(r, a). (r, h\<lparr>handled_board := Some (i, d,
                       b\<lparr>ha_indicators := (ha_indicators b)(t \<mapsto> adapted_entity a)\<rparr>), board_world := world a\<rparr>))
                     (run_round (indicator_of V i t d) \<lparr>adapted_entity = s, world = board_world h\<rparr>)
              else None))"

definition button_round ::
    "('e, 'f, 'cb) services \<Rightarrow> ('e client topic_entity board_handler, unit) co" where
  "button_round V = (\<lambda>h.
     case handled_board h of
       None \<Rightarrow> None
     | Some (i, d, b) \<Rightarrow>
         if board_running h
         then map_option (\<lambda>(r, a). (r, h\<lparr>handled_board := Some (i, d, b\<lparr>ha_button := adapted_entity a\<rparr>),
                  board_world := world a\<rparr>))
                (run_round (button_of V i d) \<lparr>adapted_entity = ha_button b, world = board_world h\<rparr>)
         else None)"

section \<open>Steps of the loop\<close>

datatype loop_label =
    Poll_step nat
  | Task_step nat
  | Finish_step nat
  | Hatch_round nat
  | Temp_round nat
  | Indicator_round indicator_type
  | Button_round
  | Hardware fs

text \<open>A step that is not enabled, or whose coroutine does not come to its next pause, is \<open>None\<close>.\<close>

fun loop_step ::
    "('e, 'f) loop_env \<Rightarrow> loop_label \<Rightarrow> ('e, 'f) running_program \<Rightarrow> ('e, 'f) running_program option" where
  "loop_step E (Poll_step n) r =
     (if n < length (pollers (pf_polling (rn_platform r)))
      then poll_device E (pollers (pf_polling (rn_platform r)) ! n) r else None)"
| "loop_step E (Task_step n) r = handle_task E n r"
| "loop_step E (Finish_step n) r = finish_creation n r"
| "loop_step E (Hatch_round a) r = on_hatches (device_round (hatch_of (loop_services E r)) a) r"
| "loop_step E (Temp_round a) r = on_temps (device_round (temp_of (loop_services E r)) a) r"
| "loop_step E (Indicator_round t) r = on_board (indicator_round (loop_services E r) t) r"
| "loop_step E Button_round r = on_board (button_round (loop_services E r)) r"
| "loop_step E (Hardware f) r = Some (set_world ((rn_world r)\<lparr>world_fs := f\<rparr>) r)"

text \<open>Nothing runs any more after a failure.\<close>

inductive loop_reachable ::
    "('e, 'f) loop_env \<Rightarrow> ('e, 'f) running_program \<Rightarrow> ('e, 'f) running_program \<Rightarrow> bool" for E s where
  loop_start: "loop_reachable E s s"
| loop_more: "loop_reachable E s r \<Longrightarrow> rn_failure r = None \<Longrightarrow> loop_step E l r = Some r' \<Longrightarrow>
    loop_reachable E s r'"

section \<open>Lemmas\<close>

lemma rethrow_same [simp]:
  "rn_platform (rethrow x r) = rn_platform r" "rn_bus (rethrow x r) = rn_bus r" "rn_tasks (rethrow x r) = rn_tasks r"
  "rn_hatches (rethrow x r) = rn_hatches r" "rn_temps (rethrow x r) = rn_temps r" "rn_board (rethrow x r) = rn_board r"
  "rn_ready (rethrow x r) = rn_ready r" "rn_hatch_seen (rethrow x r) = rn_hatch_seen r" "rn_board_seen (rethrow x r) = rn_board_seen r"
  "rn_temp_seen (rethrow x r) = rn_temp_seen r" "rn_world (rethrow x r) = rn_world r"
  by (simp_all add: rethrow_def rn_world_def split: sum.split)

lemma set_world_same [simp]:
  "rn_bus (set_world w r) = rn_bus r" "rn_tasks (set_world w r) = rn_tasks r" "rn_hatches (set_world w r) = rn_hatches r"
  "rn_temps (set_world w r) = rn_temps r" "rn_board (set_world w r) = rn_board r" "rn_ready (set_world w r) = rn_ready r"
  "rn_failure (set_world w r) = rn_failure r" "pf_polling (rn_platform (set_world w r)) = pf_polling (rn_platform r)"
  "pf_store (rn_platform (set_world w r)) = pf_store (rn_platform r)"
  "pf_tree (rn_platform (set_world w r)) = pf_tree (rn_platform r)" "rn_world (set_world w r) = w"
  "rn_hatch_seen (set_world w r) = rn_hatch_seen r"
  by (simp_all add: set_world_def rn_world_def)

lemma begin_creation_cases:
  assumes "begin_creation create r = Some r'"
  obtains e w where "create (rn_world r) = Some (Inl e, w)" "r' = rethrow (Inl e) (set_world w r)"
  | w where "create (rn_world r) = Some (Inr None, w)" "r' = set_world w r"
  | c w where "create (rn_world r) = Some (Inr (Some c), w)" "ends_suspended c w"
      "r' = set_world w (r\<lparr>rn_ready := rn_ready r @ [c]\<rparr>)"
  | c w where "create (rn_world r) = Some (Inr (Some c), w)" "\<not> ends_suspended c w"
      "finish_creation (length (rn_ready r)) (set_world w (r\<lparr>rn_ready := rn_ready r @ [c]\<rparr>)) = Some r'"
proof -
  from assms obtain x w where x: "create (rn_world r) = Some (x, w)"
    by (auto simp: begin_creation_def split: option.splits)
  show thesis
  proof (cases x)
    case (Inl e)
    with x assms that(1) show ?thesis by (simp add: begin_creation_def)
  next
    case (Inr y)
    with x assms that(2-4) show ?thesis
      by (cases y) (simp_all add: begin_creation_def Let_def split: if_splits)
  qed
qed

text \<open>
  A creation that does not suspend, or resumes before anything else runs, is the handler of the event in
  one go.
\<close>

lemma uninterrupted_creation:
  assumes create: "create_device V k i (rn_world r) = Some (Inr (Some c), w)"
    and "begin_creation (create_device V k i) r = Some r1"
    and "k = Board_kind \<Longrightarrow> handled_board (rn_board r) = None"
  shows "(if ends_suspended c w then finish_creation (length (rn_ready r)) r1 else Some r1) = (case k of
      Hatch_kind \<Rightarrow> on_hatches (hatch_created V i) r
    | Temp_sensor_kind \<Rightarrow> on_temps (temp_created V i) r
    | Board_kind \<Rightarrow> on_board (board_created V i) r)"
proof -
  let ?q = "set_world w (r\<lparr>rn_ready := rn_ready r @ [c]\<rparr>)"
  have "set_world w (r\<lparr>rn_ready := rn_ready r @ [c]\<rparr>)\<lparr>rn_ready := rn_ready r\<rparr> = set_world w r"
    by (cases r) (simp add: set_world_def)
  then have "finish_creation (length (rn_ready r)) ?q = add_ready c (set_world w r)"
    by (simp add: finish_creation_def)
  with assms(1,2) have fin: "(if ends_suspended c w then finish_creation (length (rn_ready r)) r1 else Some r1)
      = add_ready c (set_world w r)"
    by (simp add: begin_creation_def Let_def split: if_splits)
  show ?thesis
    using create assms(3) unfolding fin
    by (auto simp: create_device_def co_bind_eq_Some co_return_def co_throw_def hatch_created_def temp_created_def
        device_created_def device_added_def board_created_def board_added_def on_hatches_def on_temps_def on_board_def
        co_result_def set_world_def rn_world_def rethrow_def push_back_def spawn_back_def
        split: device_kind.splits option.splits sum.splits)
qed

text \<open>
  What the handlers and the spawned coroutines are for: the devices of a kind that a list of devices
  has, those whose creation is waiting to be handled, and those that are handled.
\<close>

definition devices_of :: "(device_kind \<times> device_id) list \<Rightarrow> device_kind \<Rightarrow> device_id multiset" where
  "devices_of ds k = mset (map snd (filter (\<lambda>d. fst d = k) ds))"

definition task_event :: "(ha_handler, device_event) spawned \<Rightarrow> device_event" where
  "task_event c = event_payload (spawned_event c)"

definition is_creation :: "device_kind \<Rightarrow> (ha_handler, device_event) spawned \<Rightarrow> bool" where
  "is_creation k c = (case task_event c of Device_created k' i \<Rightarrow> k' = k | _ \<Rightarrow> False)"

definition creations :: "device_kind \<Rightarrow> (ha_handler, device_event) spawned list \<Rightarrow> device_id multiset" where
  "creations k cs = mset (map (\<lambda>c. event_device (task_event c)) (filter (is_creation k) cs))"

definition handled_devices :: "'s device_handler \<Rightarrow> device_id multiset" where
  "handled_devices h = mset (map el_device (elements h))"

definition board_devices :: "'s board_handler \<Rightarrow> device_id multiset" where
  "board_devices h = (case handled_board h of None \<Rightarrow> {#} | Some (i, d, b) \<Rightarrow> {#i#})"

text \<open>A coroutine that the program spawns: the handler of its kind, for a device there is, and no removal.\<close>

definition good_task :: "(device_kind \<times> device_id) list \<Rightarrow> (ha_handler, device_event) spawned \<Rightarrow> bool" where
  "good_task ds c \<longleftrightarrow> spawned_handler c = kind_handler (event_kind (task_event c))
     \<and> (event_kind (task_event c), event_device (task_event c)) \<in> set ds
     \<and> (case task_event c of Device_removed k i \<Rightarrow> False | _ \<Rightarrow> True)"

definition all_alive :: "'s device_handler \<Rightarrow> bool" where
  "all_alive h \<longleftrightarrow> map el_address (elements h) = running h \<and> running h = [0..<next_address h]"

subsection \<open>What steps leave of the devices\<close>

definition same_devices :: "ha_world \<Rightarrow> ha_world \<Rightarrow> bool" where
  "same_devices W w \<longleftrightarrow> world_hatches w = world_hatches W \<and> world_boards w = world_boards W
     \<and> world_sensors w = world_sensors W"

lemma same_devices_refl [simp]: "same_devices w w"
  by (simp add: same_devices_def)

lemma same_devices_update [simp]:
  "same_devices W (w\<lparr>world_fs := f\<rparr>) = same_devices W w" "same_devices W (w\<lparr>restarts := n\<rparr>) = same_devices W w"
  by (simp_all add: same_devices_def)

lemma same_devices_known: "same_devices W w \<Longrightarrow> known k i w = known k i W"
  by (simp add: same_devices_def known_def split: device_kind.split)

lemma on_fs_keeps_devices: "co_keeps (same_devices W) (on_fs m)"
  by (rule co_keepsI) (auto simp: on_fs_def)

text \<open>Waiting neither adds nor removes a device.\<close>

definition calm :: "('e, 'f, 'cb) services \<Rightarrow> bool" where
  "calm V \<longleftrightarrow> (\<forall>W d. co_keeps (same_devices W) (sv_wait V d))"

lemmas keeps_devices = co_keeps_bind co_keeps_return device_at_keeps on_fs_keeps_devices

lemma devices_keep:
  assumes "calm V"
  shows "device_keeps (same_devices W) (hatch_of V i d)" "device_keeps (same_devices W) (temp_of V i d)"
    "device_keeps (same_devices W) (indicator_of V i t d)" "device_keeps (same_devices W) (button_of V i d)"
  using assms
  by (auto simp: device_keeps_def calm_def hatch_of_def hatch_impl_def hatch_cover_state_def temp_of_def temp_impl_def
      temp_state_def indicator_of_def indicator_impl_def indicator_sensor_state_def button_of_def button_impl_def
      intro!: keeps_devices)

lemma board_restart_keeps: "co_keeps (same_devices W) (board_restart b)"
  by (rule co_keepsI) (auto simp: board_restart_def co_return_def)

lemma handling_keeps:
  "co_keeps (same_devices W) (im_handle (hatch_of V i d) x)"
  "co_keeps (same_devices W) (im_handle (temp_of V i d) u)"
  "co_keeps (same_devices W) (im_handle (indicator_of V i t d) u)"
  "co_keeps (same_devices W) (im_handle (button_of V i d) u)"
  by (auto simp: hatch_of_def hatch_impl_def hatch_handle_def temp_of_def temp_impl_def indicator_of_def
      indicator_impl_def button_of_def button_impl_def button_handle_def
      intro!: keeps_devices board_restart_keeps split: cover_request.split)

lemma co_result_keeps: "co_keeps P (co_result r)"
  by (simp add: co_result_def co_keeps_intros split: sum.split)

lemma creations_keep:
  assumes "calm V"
  shows "co_keeps (same_devices W) (hatch_create V i)" "co_keeps (same_devices W) (temp_create V i)"
    "co_keeps (same_devices W) (board_create V i)"
proof -
  note create = create_keeps_world [OF init_keeps_world, OF devices_keep(1) [OF assms]]
    create_keeps_world [OF init_keeps_world, OF devices_keep(2) [OF assms]]
    create_keeps_world [OF init_keeps_world, OF devices_keep(3) [OF assms]]
    create_keeps_world [OF init_keeps_world, OF devices_keep(4) [OF assms]]
  show "co_keeps (same_devices W) (hatch_create V i)" "co_keeps (same_devices W) (temp_create V i)"
    unfolding hatch_create_def temp_create_def by (intro co_keeps_bind co_result_keeps create co_keeps_return)+
  have "co_keeps (same_devices W) (indicator_create V i t d)" for t d
    unfolding indicator_create_def by (auto intro!: keeps_devices create)
  moreover have "co_keeps (same_devices W) (button_create V i d)" for d
    unfolding button_create_def by (rule create)
  ultimately show "co_keeps (same_devices W) (board_create V i)"
    unfolding board_create_def
    by (auto intro!: co_keeps_bind co_keeps_return co_result_keeps split: option.split)
qed

text \<open>A step of a handler keeps the devices and the runs of all its elements, and adds at most some devices.\<close>

definition grows :: "ha_world \<Rightarrow> device_id multiset \<Rightarrow> ('s device_handler, unit) co \<Rightarrow> bool" where
  "grows W X m \<longleftrightarrow> (\<forall>h r h'. all_alive h \<longrightarrow> same_devices W (handler_world h) \<longrightarrow> m h = Some (r, h') \<longrightarrow>
     all_alive h' \<and> same_devices W (handler_world h') \<and> handled_devices h' \<subseteq># handled_devices h + X)"

lemma device_added_grows: "grows W {#i#} (device_added i d s)"
  by (auto simp: grows_def device_added_def co_return_def all_alive_def handled_devices_def spawn_back_def push_back_def)

lemma same_elements_grow:
  assumes same: "\<And>es w r es' w'. same_devices W w \<Longrightarrow> step es w = Some (r, es', w') \<Longrightarrow>
      map el_address es' = map el_address es \<and> map el_device es' = map el_device es \<and> same_devices W w'"
  shows "grows W X (\<lambda>h. map_option (\<lambda>(r, es, w). (r, h\<lparr>elements := es, handler_world := w\<rparr>))
      (step (elements h) (handler_world h)))"
  unfolding grows_def
proof (intro allI impI)
  fix h r h'
  assume alive: "all_alive h" and "same_devices W (handler_world h)"
    and "map_option (\<lambda>(r, es, w). (r, h\<lparr>elements := es, handler_world := w\<rparr>)) (step (elements h) (handler_world h))
      = Some (r, h')"
  then obtain es w where "step (elements h) (handler_world h) = Some (r, es, w)"
    and h': "h' = h\<lparr>elements := es, handler_world := w\<rparr>" by auto
  from same [OF \<open>same_devices W (handler_world h)\<close> this(1)] alive
  show "all_alive h' \<and> same_devices W (handler_world h') \<and> handled_devices h' \<subseteq># handled_devices h + X"
    unfolding h' by (simp add: all_alive_def handled_devices_def)
qed

lemma sync_first_keeps:
  assumes "\<And>d. device_keeps P (I i d)"
  shows "P w \<Longrightarrow> sync_first I i es w = Some (r, es', w') \<Longrightarrow> P w'"
proof (induction es arbitrary: es')
  case (Cons e es)
  have "sync_state (I i d) \<lparr>adapted_entity = s, world = w\<rparr> = Some (r, b) \<Longrightarrow> P (world b)" for d s b
    using co_keepsD [OF sync_keeps_world [OF assms], of "\<lparr>adapted_entity = s, world = w\<rparr>"] Cons.prems(1) by simp
  with Cons show ?case by (auto split: if_splits)
qed simp

lemma state_changed_grows:
  assumes "\<And>i d. device_keeps (same_devices W) (I i d)"
  shows "grows W X (device_state_changed I i)"
  unfolding device_state_changed_def
proof (rule same_elements_grow)
  fix es :: "'a element list" and w r es' w'
  assume "same_devices W w" and run: "sync_first I i es w = Some (r, es', w')"
  from sync_first_keeps [where P = "same_devices W", OF assms this] sync_first_addresses [OF run]
  show "map el_address es' = map el_address es \<and> map el_device es' = map el_device es \<and> same_devices W w'" by blast
qed

lemma round_at_keeps:
  assumes "\<And>i d. device_keeps P (I i d)" and "\<And>i d v. co_keeps P (im_handle (I i d) v)"
  shows "P w \<Longrightarrow> round_at I a es w = Some (r, es', w') \<Longrightarrow>
    map el_address es' = map el_address es \<and> map el_device es' = map el_device es \<and> P w'"
proof (induction es arbitrary: es')
  case (Cons e es)
  have "run_round (I i d) \<lparr>adapted_entity = s, world = w\<rparr> = Some (r, b) \<Longrightarrow> P (world b)" for i d s b
    using co_keepsD [where s = "\<lparr>adapted_entity = s, world = w\<rparr>", OF run_round_keeps_world [OF assms]] Cons.prems(1) by simp
  with Cons show ?case by (auto split: if_splits)
qed simp

lemma device_round_grows:
  assumes "\<And>i d. device_keeps (same_devices W) (I i d)" and "\<And>i d v. co_keeps (same_devices W) (im_handle (I i d) v)"
  shows "grows W X (device_round I a)"
proof -
  have "grows W X (\<lambda>h. map_option (\<lambda>(r, es, w). (r, h\<lparr>elements := es, handler_world := w\<rparr>))
      (round_at I a (elements h) (handler_world h)))"
    by (rule same_elements_grow) (rule round_at_keeps [where P = "same_devices W", OF assms])
  then show ?thesis
    unfolding grows_def device_round_def by (intro allI impI) (elim allE impE; simp split: if_splits)
qed

definition board_grows :: "ha_world \<Rightarrow> device_id multiset \<Rightarrow> ('s board_handler, unit) co \<Rightarrow> bool" where
  "board_grows W X m \<longleftrightarrow> (\<forall>h r h'. same_devices W (board_world h) \<longrightarrow> m h = Some (r, h') \<longrightarrow>
     same_devices W (board_world h') \<and> board_devices h' \<subseteq># board_devices h + X)"

lemma board_added_grows: "board_grows W {#i#} (board_added i d b)"
  by (auto simp: board_grows_def board_added_def co_return_def board_devices_def)

lemma board_sync_keeps:
  assumes "calm V"
  shows "same_devices W (world a) \<Longrightarrow> board_sync_state V i d ts a = Some (r, a') \<Longrightarrow> same_devices W (world a')"
proof (induction ts arbitrary: a)
  case Nil
  then show ?case by (simp add: co_return_def)
next
  case (Cons t ts)
  have sync: "sync_state (indicator_of V i t d) \<lparr>adapted_entity = s, world = world a\<rparr> = Some (q, b) \<Longrightarrow>
      same_devices W (world b)" for s q b
    using co_keepsD [where s = "\<lparr>adapted_entity = s, world = world a\<rparr>", OF sync_keeps_world [OF devices_keep(3) [OF assms]]]
      Cons.prems(1) by simp
  have "board_sync_state V i d ts \<lparr>adapted_entity = e, world = world b\<rparr> = Some (r, a') \<Longrightarrow>
      same_devices W (world b) \<Longrightarrow> same_devices W (world a')" for e b
    using Cons.IH [of "\<lparr>adapted_entity = e, world = world b\<rparr>"] by simp
  then have more: "board_sync_state V i d ts \<lparr>adapted_entity = e, world = world b\<rparr> = Some (r, a') \<Longrightarrow>
      sync_state (indicator_of V i t d) \<lparr>adapted_entity = s, world = world a\<rparr> = Some (q, b) \<Longrightarrow>
      same_devices W (world a')" for e s q b
    using sync by blast
  show ?case
  proof (cases "ha_indicators (adapted_entity a) t")
    case None
    with Cons show ?thesis by simp
  next
    case (Some s)
    with Cons.prems(2) obtain q b where b: "sync_state (indicator_of V i t d) \<lparr>adapted_entity = s, world = world a\<rparr> = Some (q, b)"
      by (auto split: option.splits)
    with Some Cons.prems(2) sync [OF b] more [OF _ b] show ?thesis by (auto simp: Let_def split: sum.splits)
  qed
qed

lemma board_state_changed_grows:
  assumes "calm V"
  shows "board_grows W X (board_state_changed V ts i)"
proof -
  have "same_devices W w \<Longrightarrow> board_sync_state V j d ts \<lparr>adapted_entity = s, world = w\<rparr> = Some (q, b) \<Longrightarrow>
      same_devices W (world b)" for w j d s q b
    using board_sync_keeps [OF assms, of W "\<lparr>adapted_entity = s, world = w\<rparr>"] by simp
  then show ?thesis
    by (fastforce simp: board_grows_def board_state_changed_def board_devices_def co_return_def
        split: option.splits prod.splits)
qed

lemma board_rounds_grow:
  assumes "calm V"
  shows "board_grows W X (indicator_round V t)" "board_grows W X (button_round V)"
proof -
  have keep: "same_devices W w \<Longrightarrow> run_round (indicator_of V i t d) \<lparr>adapted_entity = s, world = w\<rparr> = Some (q, b) \<Longrightarrow>
      same_devices W (world b)"
    "same_devices W w \<Longrightarrow> run_round (button_of V i d) \<lparr>adapted_entity = s, world = w\<rparr> = Some (q, b) \<Longrightarrow>
      same_devices W (world b)" for w i d s q b
    using co_keepsD [where s = "\<lparr>adapted_entity = s, world = w\<rparr>",
        OF run_round_keeps_world [OF devices_keep(3) [OF assms] handling_keeps(3)]]
      co_keepsD [where s = "\<lparr>adapted_entity = s, world = w\<rparr>",
        OF run_round_keeps_world [OF devices_keep(4) [OF assms] handling_keeps(4)]] by simp_all
  show "board_grows W X (indicator_round V t)" "board_grows W X (button_round V)"
    using keep by (fastforce simp: board_grows_def indicator_round_def button_round_def board_devices_def
        split: option.splits if_splits prod.splits)+
qed

subsection \<open>The invariant of the loop\<close>

fun ready_kind :: "'e ready_device \<Rightarrow> device_kind" where
  "ready_kind (Hatch_ready i d s) = Hatch_kind"
| "ready_kind (Temp_ready i d s) = Temp_sensor_kind"
| "ready_kind (Board_ready i d b) = Board_kind"

fun ready_id :: "'e ready_device \<Rightarrow> device_id" where
  "ready_id (Hatch_ready i d s) = i"
| "ready_id (Temp_ready i d s) = i"
| "ready_id (Board_ready i d b) = i"

definition readied :: "device_kind \<Rightarrow> 'e ready_device list \<Rightarrow> device_id multiset" where
  "readied k cs = mset (map ready_id (filter (\<lambda>c. ready_kind c = k) cs))"

text \<open>The devices of a kind that are in its handler or about to be moved into it.\<close>

definition occupied :: "('e, 'f) running_program \<Rightarrow> device_kind \<Rightarrow> device_id multiset" where
  "occupied r k = readied k (rn_ready r) + (case k of
     Board_kind \<Rightarrow> board_devices (rn_board r)
   | Hatch_kind \<Rightarrow> handled_devices (rn_hatches r)
   | Temp_sensor_kind \<Rightarrow> handled_devices (rn_temps r))"

text \<open>
  The creation of a device is handled at most once: those handled, those waiting and those of \<open>D\<close>, which
  the handler that runs may add, are different devices of the platform.
\<close>

definition loop_inv ::
    "(device_kind \<times> device_id) list \<Rightarrow> platform \<Rightarrow> (device_kind \<Rightarrow> device_id multiset)
      \<Rightarrow> (device_kind \<Rightarrow> device_id multiset) \<Rightarrow> ('e, 'f) running_program \<Rightarrow> bool" where
  "loop_inv ds p M D r \<longleftrightarrow> rn_bus r = ha_bus \<and> list_all (good_task ds) (rn_tasks r)
     \<and> pf_polling (rn_platform r) = pf_polling p \<and> pf_store (rn_platform r) = pf_store p
     \<and> pf_tree (rn_platform r) = pf_tree p \<and> same_devices (pf_world p) (rn_world r)
     \<and> all_alive (rn_hatches r) \<and> all_alive (rn_temps r)
     \<and> (\<forall>k. occupied r k + creations k (rn_tasks r) + D k \<subseteq># M k)"

definition no_devices :: "device_kind \<Rightarrow> device_id multiset" where
  "no_devices k = {#}"

lemma loop_inv_less: "loop_inv ds p M D r \<Longrightarrow> loop_inv ds p M no_devices r"
  by (simp add: loop_inv_def no_devices_def)
    (meson mset_subset_eq_add_left subset_mset.order_trans)

lemma occupied_rethrow [simp]: "occupied (rethrow x r) k = occupied r k"
  by (simp add: occupied_def split: device_kind.split)

lemma loop_inv_rethrow [simp]: "loop_inv ds p M D (rethrow x r) = loop_inv ds p M D r"
  by (simp add: loop_inv_def)

lemma grown_within:
  fixes x :: "device_id multiset"
  shows "x' \<subseteq># x + d \<Longrightarrow> x + c + d \<subseteq># m \<Longrightarrow> x' + c \<subseteq># m"
  by (metis (no_types, lifting) add.commute add.left_commute subset_mset.add_left_mono subset_mset.order_trans)

lemma occupied_within:
  assumes "\<forall>k. occupied r k + cs k + D k \<subseteq># M k" and "occupied r' k0 \<subseteq># occupied r k0 + D k0"
    and "\<And>k. k \<noteq> k0 \<Longrightarrow> occupied r' k = occupied r k"
  shows "occupied r' k + cs k + no_devices k \<subseteq># M k"
proof (cases "k = k0")
  case True
  with assms show ?thesis by (auto simp: no_devices_def intro: grown_within)
next
  case False
  have "occupied r k + cs k \<subseteq># occupied r k + cs k + D k" by simp
  from subset_mset.order_trans [OF this, of "M k"] assms(1,3) False show ?thesis by (simp add: no_devices_def)
qed

text \<open>A handler has run: it changed its own devices, which it may have added to, and the world.\<close>

lemma handler_ran_inv:
  assumes inv: "loop_inv ds p M D r" and "same_devices (pf_world p) w"
    and "rn_bus q = rn_bus r" "rn_tasks q = rn_tasks r" "rn_platform q = rn_platform r"
    and "all_alive (rn_hatches q)" "all_alive (rn_temps q)"
    and grown: "occupied q k0 \<subseteq># occupied r k0 + D k0" and others: "\<And>k. k \<noteq> k0 \<Longrightarrow> occupied q k = occupied r k"
  shows "loop_inv ds p M no_devices (rethrow x (set_world w q))"
proof -
  have "occupied (set_world w q) k = occupied q k" for k by (simp add: occupied_def split: device_kind.split)
  moreover have "occupied q k + creations k (rn_tasks r) + no_devices k \<subseteq># M k" for k
    by (rule occupied_within [where r = r and D = D and ?k0.0 = k0])
      (use inv grown others in \<open>auto simp: loop_inv_def\<close>)
  ultimately show ?thesis using inv assms(2-7) by (simp add: loop_inv_def)
qed

lemma on_hatches_inv:
  assumes inv: "loop_inv ds p M D r" and grow: "grows (pf_world p) (D Hatch_kind) m" and run: "on_hatches m r = Some r'"
  shows "loop_inv ds p M no_devices r'"
proof -
  from run obtain x h where m: "m ((rn_hatches r)\<lparr>handler_world := rn_world r\<rparr>) = Some (x, h)"
    and r': "r' = rethrow x (set_world (handler_world h) (r\<lparr>rn_hatches := h\<rparr>))" by (auto simp: on_hatches_def)
  from inv have "all_alive ((rn_hatches r)\<lparr>handler_world := rn_world r\<rparr>)" "same_devices (pf_world p) (rn_world r)"
    by (simp_all add: loop_inv_def all_alive_def)
  with grow m have "all_alive h" "same_devices (pf_world p) (handler_world h)"
    "handled_devices h \<subseteq># handled_devices (rn_hatches r) + D Hatch_kind"
    by (fastforce simp: grows_def handled_devices_def)+
  with inv show ?thesis
    unfolding r' by (intro handler_ran_inv [where ?k0.0 = Hatch_kind and D = D and r = r])
      (auto simp: loop_inv_def occupied_def split: device_kind.split)
qed

lemma on_temps_inv:
  assumes inv: "loop_inv ds p M D r" and grow: "grows (pf_world p) (D Temp_sensor_kind) m" and run: "on_temps m r = Some r'"
  shows "loop_inv ds p M no_devices r'"
proof -
  from run obtain x h where m: "m ((rn_temps r)\<lparr>handler_world := rn_world r\<rparr>) = Some (x, h)"
    and r': "r' = rethrow x (set_world (handler_world h) (r\<lparr>rn_temps := h\<rparr>))" by (auto simp: on_temps_def)
  from inv have "all_alive ((rn_temps r)\<lparr>handler_world := rn_world r\<rparr>)" "same_devices (pf_world p) (rn_world r)"
    by (simp_all add: loop_inv_def all_alive_def)
  with grow m have "all_alive h" "same_devices (pf_world p) (handler_world h)"
    "handled_devices h \<subseteq># handled_devices (rn_temps r) + D Temp_sensor_kind"
    by (fastforce simp: grows_def handled_devices_def)+
  with inv show ?thesis
    unfolding r' by (intro handler_ran_inv [where ?k0.0 = Temp_sensor_kind and D = D and r = r])
      (auto simp: loop_inv_def occupied_def split: device_kind.split)
qed

lemma on_board_inv:
  assumes inv: "loop_inv ds p M D r" and grow: "board_grows (pf_world p) (D Board_kind) m" and run: "on_board m r = Some r'"
  shows "loop_inv ds p M no_devices r'"
proof -
  from run obtain x h where m: "m ((rn_board r)\<lparr>board_world := rn_world r\<rparr>) = Some (x, h)"
    and r': "r' = rethrow x (set_world (board_world h) (r\<lparr>rn_board := h\<rparr>))" by (auto simp: on_board_def)
  from inv have "same_devices (pf_world p) (rn_world r)" by (simp add: loop_inv_def)
  moreover have "board_devices ((rn_board r)\<lparr>board_world := w\<rparr>) = board_devices (rn_board r)" for w
    by (simp add: board_devices_def)
  ultimately have "same_devices (pf_world p) (board_world h)"
    "board_devices h \<subseteq># board_devices (rn_board r) + D Board_kind"
    using grow [unfolded board_grows_def, rule_format, OF _ m] by simp_all
  with inv show ?thesis
    unfolding r' by (intro handler_ran_inv [where ?k0.0 = Board_kind and D = D and r = r])
      (auto simp: loop_inv_def occupied_def split: device_kind.split)
qed

text \<open>Publishing spawns the handler of the kind for each event, and leaves the bus as it is.\<close>

lemma spawn_published_ha_bus:
  assumes "rn_bus r = ha_bus"
  shows "\<exists>cs. spawn_published E es r = r\<lparr>rn_tasks := rn_tasks r @ cs\<rparr>
    \<and> map (\<lambda>c. (spawned_handler c, task_event c)) cs = map (\<lambda>e. (kind_handler (event_kind e), e)) es"
proof -
  obtain x cs b where pub: "publish_all (le_moved E) es ha_bus = (x, cs, b)" by (cases "publish_all (le_moved E) es ha_bus")
  note spec = publish_all_ha_bus [OF pub]
  with pub assms have "spawn_published E es r = r\<lparr>rn_bus := rn_bus r, rn_tasks := rn_tasks r @ cs\<rparr>"
    by (simp add: spawn_published_def rethrow_def)
  also have "\<dots> = r\<lparr>rn_tasks := rn_tasks r @ cs\<rparr>" by (cases r) simp
  finally show ?thesis using spec unfolding task_event_def by blast
qed

lemma spawn_published_inv:
  assumes inv: "loop_inv ds p M no_devices r"
    and es: "list_all (\<lambda>e. (event_kind e, event_device e) \<in> set ds
      \<and> (case e of Device_state_changed k i \<Rightarrow> True | _ \<Rightarrow> False)) es"
  shows "loop_inv ds p M no_devices (spawn_published E es r)"
proof -
  from spawn_published_ha_bus [of r E es] inv obtain cs where r': "spawn_published E es r = r\<lparr>rn_tasks := rn_tasks r @ cs\<rparr>"
    and cs: "map (\<lambda>c. (spawned_handler c, task_event c)) cs = map (\<lambda>e. (kind_handler (event_kind e), e)) es"
    by (auto simp: loop_inv_def)
  have task: "\<exists>e \<in> set es. spawned_handler c = kind_handler (event_kind e) \<and> task_event c = e" if "c \<in> set cs" for c
  proof -
    from that have "(spawned_handler c, task_event c) \<in> set (map (\<lambda>c. (spawned_handler c, task_event c)) cs)" by auto
    then show ?thesis unfolding cs by auto
  qed
  have "list_all (good_task ds) cs"
    using task es by (fastforce simp: list_all_iff good_task_def split: device_event.splits)
  moreover have "filter (is_creation k) cs = []" for k
    using task es by (fastforce simp: list_all_iff filter_empty_conv is_creation_def split: device_event.splits)
  then have "creations k (rn_tasks r @ cs) = creations k (rn_tasks r)" for k by (simp add: creations_def)
  moreover have "occupied (r\<lparr>rn_tasks := ts\<rparr>) k = occupied r k" for ts k
    by (simp add: occupied_def split: device_kind.split)
  ultimately show ?thesis using inv unfolding r' by (simp add: loop_inv_def rn_world_def)
qed

lemma poll_once_keeps:
  assumes keep: "co_keeps (same_devices W) current" and "same_devices W (polled_world p)"
    and run: "poll_once differs current e p = Some (x, q)"
  shows "same_devices W (polled_world q) \<and> published q \<in> {published p, published p @ [e]}"
proof -
  from run obtain y w where "current (polled_world p) = Some (y, w)" "polled_world q = w"
    "published q \<in> {published p, published p @ [e]}"
    by (auto simp: poll_once_def co_bind_def on_polled_def poller_update_def publish_event_def co_return_def
        split: option.splits sum.splits if_splits)
  with co_keepsD [OF keep assms(2)] show ?thesis by simp
qed

lemma run_poll_inv:
  assumes inv: "loop_inv ds p M no_devices r" and e: "(k, i) \<in> set ds"
    and keep: "co_keeps (same_devices (pf_world p)) current"
    and put: "\<And>v r. loop_inv ds p M no_devices (put v r) = loop_inv ds p M no_devices r"
    and run: "run_poll E (poll_once differs current (Device_state_changed k i)) seen put r = Some r'"
  shows "loop_inv ds p M no_devices r'"
proof -
  from run obtain x q where
    poll: "poll_once differs current (Device_state_changed k i)
      \<lparr>last_seen = seen, polled_world = rn_world r, published = []\<rparr> = Some (x, q)"
    and r': "r' = rethrow x (spawn_published E (published q) (put (last_seen q) (set_world (polled_world q) r)))"
    by (auto simp: run_poll_def)
  have "same_devices (pf_world p) (rn_world r)" using inv by (simp add: loop_inv_def)
  with poll_once_keeps [OF keep _ poll] have q: "same_devices (pf_world p) (polled_world q)"
    "published q \<in> {[], [Device_state_changed k i]}" by simp_all
  have "occupied (set_world w r) k = occupied r k" for w k by (simp add: occupied_def split: device_kind.split)
  with inv q(1) have "loop_inv ds p M no_devices (set_world (polled_world q) r)" by (simp add: loop_inv_def)
  then have "loop_inv ds p M no_devices (put (last_seen q) (set_world (polled_world q) r))" by (simp add: put)
  from spawn_published_inv [OF this, of "published q" E] q(2) e show ?thesis unfolding r' by auto
qed

lemma seen_same:
  "loop_inv ds p M D (r\<lparr>rn_hatch_seen := f\<rparr>) = loop_inv ds p M D r"
  "loop_inv ds p M D (r\<lparr>rn_board_seen := f\<rparr>) = loop_inv ds p M D r"
  "loop_inv ds p M D (r\<lparr>rn_temp_seen := g\<rparr>) = loop_inv ds p M D r"
proof -
  have "occupied (r\<lparr>rn_hatch_seen := f\<rparr>) k = occupied r k" "occupied (r\<lparr>rn_board_seen := f\<rparr>) k = occupied r k"
    "occupied (r\<lparr>rn_temp_seen := g\<rparr>) k = occupied r k" for k
    by (simp_all add: occupied_def split: device_kind.split)
  then show "loop_inv ds p M D (r\<lparr>rn_hatch_seen := f\<rparr>) = loop_inv ds p M D r"
    "loop_inv ds p M D (r\<lparr>rn_board_seen := f\<rparr>) = loop_inv ds p M D r"
    "loop_inv ds p M D (r\<lparr>rn_temp_seen := g\<rparr>) = loop_inv ds p M D r"
    by (simp_all add: loop_inv_def rn_world_def)
qed

lemma poll_device_inv:
  assumes "loop_inv ds p M no_devices r" and "(poller_kind e, poller_device e) \<in> set ds" and "poll_device E e r = Some r'"
  shows "loop_inv ds p M no_devices r'"
proof -
  have keep: "co_keeps (same_devices W) (hatch_current_hash hash i)"
    "co_keeps (same_devices W) (board_current_hash hc i)" "co_keeps (same_devices W) (current_temp fl i)" for W hash hc fl i
    unfolding hatch_current_hash_def board_current_hash_def current_temp_def by (intro keeps_devices)+
  show ?thesis
    using assms(2,3)
    by (cases "poller_kind e")
      (simp_all add: poll_device_def poll_hatch_def poll_board_def poll_temp_def Let_def,
        (erule run_poll_inv [OF assms(1), rotated -1]; simp add: keep seen_same)+)
qed

text \<open>A creation suspends with the device it was for, or is over.\<close>

lemma create_device_keeps: "calm V \<Longrightarrow> co_keeps (same_devices W) (create_device V k i)"
  unfolding create_device_def
  by (auto intro!: co_keeps_bind creations_keep co_keeps_intros co_result_keeps split: device_kind.split option.split)

lemma create_device_ready:
  "create_device V k i w = Some (Inr (Some c), w') \<Longrightarrow> ready_kind c = k \<and> ready_id c = i"
  by (auto simp: create_device_def co_bind_eq_Some co_return_def co_throw_def split: device_kind.splits option.splits)

lemma readied_append [simp]: "readied k (cs @ ds) = readied k cs + readied k ds"
  by (simp add: readied_def)

lemma finish_creation_inv:
  assumes inv: "loop_inv ds p M no_devices r" and run: "finish_creation m r = Some r'"
  shows "loop_inv ds p M no_devices r'"
proof -
  define c where "c = rn_ready r ! m"
  let ?cs = "take m (rn_ready r) @ drop (Suc m) (rn_ready r)"
  let ?D = "\<lambda>k. if ready_kind c = k then {#ready_id c#} else {#}"
  from run have m: "m < length (rn_ready r)" and add: "add_ready c (r\<lparr>rn_ready := ?cs\<rparr>) = Some r'"
    by (auto simp: finish_creation_def c_def split: if_splits)
  have "rn_ready r = take m (rn_ready r) @ c # drop (Suc m) (rn_ready r)"
    using m by (simp add: c_def id_take_nth_drop [symmetric])
  then have "readied k (rn_ready r) = readied k (take m (rn_ready r) @ c # drop (Suc m) (rn_ready r))" for k
    by (rule arg_cong)
  then have "occupied r k = occupied (r\<lparr>rn_ready := ?cs\<rparr>) k + ?D k" for k
    by (simp add: occupied_def readied_def split: device_kind.split)
  then have "loop_inv ds p M ?D (r\<lparr>rn_ready := ?cs\<rparr>)"
    using inv by (simp add: loop_inv_def rn_world_def no_devices_def ac_simps)
  note added = on_hatches_inv [OF this _, rotated] on_temps_inv [OF this _, rotated] on_board_inv [OF this _, rotated]
  show ?thesis
    by (cases c) (use add in \<open>auto simp: device_added_grows board_added_grows intro: added\<close>)
qed

lemma begin_creation_inv:
  assumes inv: "loop_inv ds p M D r" and D: "D k = {#i#}" and calm: "calm V"
    and run: "begin_creation (create_device V k i) r = Some r'"
  shows "loop_inv ds p M no_devices r'"
proof -
  have before: "same_devices (pf_world p) (rn_world r)" using inv by (simp add: loop_inv_def)
  have ran: "loop_inv ds p M no_devices (rethrow y (set_world w (r\<lparr>rn_ready := rn_ready r @ cs\<rparr>)))"
    if "\<And>c. c \<in> set cs \<Longrightarrow> ready_kind c = k \<and> ready_id c = i" "length cs \<le> 1"
      and create: "create_device V k i (rn_world r) = Some (x, w)" for x y w cs
  proof (rule handler_ran_inv [where ?k0.0 = k and D = D, OF inv co_keepsD [OF create_device_keeps [OF calm] before create]])
    have "cs = [] \<or> (\<exists>c. cs = [c])" using that(2) by (cases cs) auto
    then have cs: "readied k cs \<subseteq># D k" "j \<noteq> k \<Longrightarrow> readied j cs = {#}" for j
      using that(1) D by (auto simp: readied_def)
    have eq: "occupied (r\<lparr>rn_ready := rn_ready r @ cs\<rparr>) j = occupied r j + readied j cs" for j
      by (simp add: occupied_def add.assoc add.commute [of "readied j cs"] split: device_kind.split)
    show "occupied (r\<lparr>rn_ready := rn_ready r @ cs\<rparr>) k \<subseteq># occupied r k + D k"
      unfolding eq using cs(1) by simp
    show "occupied (r\<lparr>rn_ready := rn_ready r @ cs\<rparr>) j = occupied r j" if "j \<noteq> k" for j
      unfolding eq using cs(2) [OF that] by simp
  qed (use inv in \<open>simp_all add: loop_inv_def\<close>)
  have none: "rethrow (Inr ()) q = q" "r\<lparr>rn_ready := rn_ready r @ []\<rparr> = r" for q by (simp_all add: rethrow_def)
  from run show ?thesis
  proof (cases rule: begin_creation_cases)
    case (1 e w)
    with ran [of "[]" _ w "Inl e"] show ?thesis by (simp add: none(2))
  next
    case (2 w)
    with ran [of "[]" _ w "Inr ()"] show ?thesis by (simp add: none)
  next
    case (3 c w)
    with ran [of "[c]" _ w "Inr ()"] create_device_ready [OF 3(1)] show ?thesis by (simp add: none(1))
  next
    case (4 c w)
    from ran [of "[c]" _ w "Inr ()"] create_device_ready [OF 4(1)] 4(1)
    have "loop_inv ds p M no_devices (set_world w (r\<lparr>rn_ready := rn_ready r @ [c]\<rparr>))" by (simp add: none(1))
    from finish_creation_inv [OF this 4(3)] show ?thesis .
  qed
qed

lemma handle_event_inv:
  assumes inv: "loop_inv ds p M (\<lambda>k. if is_creation k c then {#event_device (task_event c)#} else {#}) r"
    and good: "good_task ds c" and calm: "calm (le_services E)"
    and run: "handle_event E (spawned_handler c) (task_event c) r = Some r'"
  shows "loop_inv ds p M no_devices r'"
proof -
  have calm': "calm (loop_services E r)" using calm by (simp add: calm_def loop_services_def)
  have hatch: "grows W X (hatch_state_changed (loop_services E r) i)" "grows W X (temp_state_changed (loop_services E r) i)" for W X i
    unfolding hatch_state_changed_def temp_state_changed_def by (rule state_changed_grows devices_keep [OF calm'])+
  note board = board_state_changed_grows [OF calm']
  show ?thesis
  proof (cases "task_event c")
    case (Device_created k i)
    then have "(if is_creation k c then {#event_device (task_event c)#} else {#}) = {#i#}" by (simp add: is_creation_def)
    note begun = begin_creation_inv [OF inv this calm']
    from Device_created good run show ?thesis
      by (cases k) (auto simp: good_task_def loop_inv_less [OF inv] intro: begun split: if_splits)
  next
    case (Device_removed k i)
    with good show ?thesis by (simp add: good_task_def)
  next
    case (Device_state_changed k i)
    with good run inv show ?thesis
      by (cases k) (auto simp: good_task_def is_creation_def hatch board
          intro: on_hatches_inv [OF inv, rotated] on_temps_inv [OF inv, rotated] on_board_inv [OF inv, rotated])
  qed
qed

lemma handle_task_inv:
  assumes inv: "loop_inv ds p M no_devices r" and calm: "calm (le_services E)" and run: "handle_task E n r = Some r'"
  shows "loop_inv ds p M no_devices r'"
proof -
  define c where "c = rn_tasks r ! n"
  let ?ts = "take n (rn_tasks r) @ drop (Suc n) (rn_tasks r)"
  let ?D = "\<lambda>k. if is_creation k c then {#event_device (task_event c)#} else {#}"
  from run have n: "n < length (rn_tasks r)"
    and step: "handle_event E (spawned_handler c) (task_event c) (r\<lparr>rn_tasks := ?ts\<rparr>) = Some r'"
    by (auto simp: handle_task_def c_def task_event_def Let_def split: if_splits)
  have split: "rn_tasks r = take n (rn_tasks r) @ c # drop (Suc n) (rn_tasks r)"
    using n by (simp add: c_def id_take_nth_drop [symmetric])
  have tasks: "list_all (good_task ds) (rn_tasks r)" using inv by (simp add: loop_inv_def)
  then have good: "list_all (good_task ds) ?ts" "good_task ds c" by (subst (asm) split; simp)+
  have "creations k (take n (rn_tasks r) @ c # drop (Suc n) (rn_tasks r)) = creations k ?ts + ?D k" for k
    by (simp add: creations_def)
  then have "creations k (rn_tasks r) = creations k ?ts + ?D k" for k by (simp flip: split)
  moreover have "occupied (r\<lparr>rn_tasks := ts\<rparr>) k = occupied r k" for ts k
    by (simp add: occupied_def split: device_kind.split)
  ultimately have "loop_inv ds p M ?D (r\<lparr>rn_tasks := ?ts\<rparr>)"
    using inv good(1) by (simp add: loop_inv_def rn_world_def no_devices_def add.assoc)
  from handle_event_inv [OF this good(2) calm step] show ?thesis .
qed

lemma loop_step_inv:
  assumes inv: "loop_inv ds p M no_devices r" and calm: "calm (le_services E)"
    and polled: "list_all (\<lambda>e. (poller_kind e, poller_device e) \<in> set ds) (pollers (pf_polling p))"
    and run: "loop_step E l r = Some r'"
  shows "loop_inv ds p M no_devices r'"
proof -
  have calm': "calm (loop_services E r)" using calm by (simp add: calm_def loop_services_def)
  note keep = devices_keep [OF calm'] handling_keeps
  have hatch: "grows W X (device_round (hatch_of (loop_services E r)) a)" for W X a by (rule device_round_grows) (rule keep)+
  have temp: "grows W X (device_round (temp_of (loop_services E r)) a)" for W X a by (rule device_round_grows) (rule keep)+
  note board = board_rounds_grow [OF calm']
  show ?thesis
  proof (cases l)
    case (Poll_step n)
    moreover have "pf_polling (rn_platform r) = pf_polling p" using inv by (simp add: loop_inv_def)
    ultimately have n: "n < length (pollers (pf_polling p))"
      and step: "poll_device E (pollers (pf_polling p) ! n) r = Some r'" using run by (auto split: if_splits)
    show ?thesis by (rule poll_device_inv [OF inv _ step]) (use polled n in \<open>simp add: list_all_length\<close>)
  next
    case (Task_step n)
    with run show ?thesis by (auto intro: handle_task_inv [OF inv calm])
  next
    case (Finish_step n)
    with run show ?thesis by (auto intro: finish_creation_inv [OF inv])
  next
    case (Hatch_round a)
    with run show ?thesis by (auto intro: on_hatches_inv [OF inv hatch])
  next
    case (Temp_round a)
    with run show ?thesis by (auto intro: on_temps_inv [OF inv temp])
  next
    case (Indicator_round t)
    with run show ?thesis by (auto intro: on_board_inv [OF inv board(1)])
  next
    case Button_round
    with run show ?thesis by (auto intro: on_board_inv [OF inv board(2)])
  next
    case (Hardware f)
    have "occupied (set_world w r) k = occupied r k" for w k by (simp add: occupied_def split: device_kind.split)
    with Hardware run inv show ?thesis by (auto simp: loop_inv_def)
  qed
qed

lemma reachable_loop_inv:
  assumes "loop_reachable E s r" and "loop_inv ds p M no_devices s" and "calm (le_services E)"
    and "list_all (\<lambda>e. (poller_kind e, poller_device e) \<in> set ds) (pollers (pf_polling p))"
  shows "loop_inv ds p M no_devices r"
  using assms by (induction rule: loop_reachable.induct) (auto intro: loop_step_inv)

text \<open>The start: what waits is the creation of every device, once.\<close>

lemma announced_tasks:
  assumes "map (\<lambda>s. (spawned_handler s, event_payload (spawned_event s))) cs
    = map (\<lambda>(k, i). (kind_handler k, Device_created k i)) ds"
  shows "list_all (good_task ds) cs \<and> creations k cs = devices_of ds k"
proof -
  have "list_all (good_task es) cs \<and> creations k cs = devices_of ds k" if "set ds \<subseteq> set es" for es
    using assms that
  proof (induction ds arbitrary: cs)
    case Nil
    then show ?case by (simp add: creations_def devices_of_def)
  next
    case (Cons d ds)
    then obtain c cs' where "cs = c # cs'" by (cases cs) auto
    with Cons.prems Cons.IH [of cs'] show ?case
      by (cases d) (auto simp: good_task_def task_event_def creations_def devices_of_def is_creation_def)
  qed
  then show ?thesis by blast
qed

lemma started_loop_inv:
  assumes "map (\<lambda>s. (spawned_handler s, event_payload (spawned_event s))) cs
      = map (\<lambda>(k, i). (kind_handler k, Device_created k i)) ds"
  shows "loop_inv ds p (devices_of ds) no_devices (running_start E p cs)"
proof -
  obtain x ts b where pub: "publish_all (le_moved E) (pf_events p) ha_bus = (x, ts, b)"
    by (cases "publish_all (le_moved E) (pf_events p) ha_bus")
  have "occupied (running_start E p cs) k = {#}" for k
    by (simp add: occupied_def running_start_def new_board_handler_def board_devices_def new_device_handler_def
        handled_devices_def readied_def split: device_kind.split)
  with publish_all_ha_bus [OF pub] announced_tasks [OF assms] pub show ?thesis
    by (simp add: loop_inv_def running_start_def rn_world_def all_alive_def new_device_handler_def no_devices_def)
qed

text \<open>What the invariant says of the devices.\<close>

lemma devices_of_all:
  "devices_of ds Board_kind + devices_of ds Hatch_kind + devices_of ds Temp_sensor_kind = mset (map snd ds)"
proof (induction ds)
  case (Cons d ds)
  then show ?case by (cases d; cases "fst d") (simp_all add: devices_of_def)
qed (simp add: devices_of_def)

lemma readied_all: "readied Board_kind cs + readied Hatch_kind cs + readied Temp_sensor_kind cs = mset (map ready_id cs)"
proof (induction cs)
  case (Cons c cs)
  then show ?case by (cases c) (simp_all add: readied_def)
qed (simp add: readied_def)

lemma distinct_sub_mset:
  assumes sub: "mset xs \<subseteq># mset ys" and "distinct ys"
  shows "distinct xs"
proof -
  have "count (mset xs) a = (if a \<in> set xs then 1 else 0)" for a
  proof (cases "a \<in> set xs")
    case True
    have "count (mset ys) a = (if a \<in> set ys then 1 else 0)" 
      using iffD1 [OF distinct_count_atmost_1 assms(2)] by (rule spec)
    then have "count (mset ys) a \<le> 1" by simp
    with mset_subset_eq_count [OF sub, of a] have "count (mset xs) a \<le> 1" by linarith
    moreover have "a \<in># mset xs" using True by simp
    then have "count (mset xs) a \<noteq> 0" by (simp only: count_eq_zero_iff not_not)
    ultimately have "count (mset xs) a = 1" by linarith
    with True show ?thesis by (simp only: if_True)
  qed (simp add: count_mset_0_iff)
  then show ?thesis by (intro iffD2 [OF distinct_count_atmost_1] allI)
qed

lemma occupied_sub:
  assumes "loop_inv ds p (devices_of ds) no_devices r"
  shows "occupied r k \<subseteq># devices_of ds k"
proof -
  have "occupied r k \<subseteq># occupied r k + creations k (rn_tasks r)" by simp
  also have "\<dots> \<subseteq># devices_of ds k" using assms by (simp add: loop_inv_def no_devices_def)
  finally show ?thesis .
qed

lemma occupied_distinct:
  assumes inv: "loop_inv ds p (devices_of ds) no_devices r" and "distinct (map snd ds)"
  shows "distinct (map fst (case handled_board (rn_board r) of None \<Rightarrow> [] | Some x \<Rightarrow> [x])
    @ map el_device (elements (rn_hatches r)) @ map el_device (elements (rn_temps r)) @ map ready_id (rn_ready r))"
proof (rule distinct_sub_mset [OF _ assms(2)])
  have "occupied r Board_kind + occupied r Hatch_kind + occupied r Temp_sensor_kind \<subseteq># mset (map snd ds)"
    unfolding devices_of_all [symmetric] by (intro subset_mset.add_mono occupied_sub [OF inv])
  moreover have "board_devices (rn_board r) = mset (map fst (case handled_board (rn_board r) of None \<Rightarrow> [] | Some x \<Rightarrow> [x]))"
    by (simp add: board_devices_def split: option.split)
  moreover have ready: "image_mset ready_id (mset (rn_ready r)) = readied Board_kind (rn_ready r)
      + readied Hatch_kind (rn_ready r) + readied Temp_sensor_kind (rn_ready r)"
    using readied_all [of "rn_ready r"] by simp
  ultimately show "mset (map fst (case handled_board (rn_board r) of None \<Rightarrow> [] | Some x \<Rightarrow> [x])
      @ map el_device (elements (rn_hatches r)) @ map el_device (elements (rn_temps r)) @ map ready_id (rn_ready r))
        \<subseteq># mset (map snd ds)"
    by (simp add: ready occupied_def handled_devices_def ac_simps)
qed

lemma board_creation_once:
  assumes inv: "loop_inv ((Board_kind, 1) # ds) p (devices_of ((Board_kind, 1) # ds)) no_devices r" and "Board_kind \<notin> set (map fst ds)"
  shows "handled_board (rn_board r) = None \<or> creations Board_kind (rn_tasks r) + readied Board_kind (rn_ready r) = {#}"
proof -
  have "filter (\<lambda>d. fst d = Board_kind) ds = []" using assms(2) by (force simp: filter_empty_conv)
  then have "devices_of ((Board_kind, 1) # ds) Board_kind = {#1#}" by (simp add: devices_of_def)
  moreover have "occupied r Board_kind + creations Board_kind (rn_tasks r) + no_devices Board_kind
      \<subseteq># devices_of ((Board_kind, 1) # ds) Board_kind" using inv unfolding loop_inv_def by blast
  ultimately have "board_devices (rn_board r) + (creations Board_kind (rn_tasks r) + readied Board_kind (rn_ready r)) \<subseteq># {#1#}"
    by (simp add: no_devices_def occupied_def ac_simps)
  from size_mset_mono [OF this] show ?thesis
    by (cases "handled_board (rn_board r)") (auto simp: board_devices_def)
qed

text \<open>From the start of the program to any point of its run.\<close>

lemma program_start_inv:
  assumes "mgmt_main L sink moved argv w = Some (Started c p cs)"
  obtains ds h where "loop_inv ((Board_kind, 1) # ds) p (devices_of ((Board_kind, 1) # ds)) no_devices (running_start E p cs)"
    and "all_announced ((Board_kind, 1) # ds) h p" and "Board_kind \<notin> set (map fst ds)"
    and "map (\<lambda>e. (poller_kind e, poller_device e)) (pollers (pf_polling p)) = (Board_kind, 1) # ds"
    and "\<And>k. creations k cs = devices_of ((Board_kind, 1) # ds) k"
proof -
  from started_announces [OF assms] obtain ds h where
    all: "all_announced ((Board_kind, 1) # ds) h p" and kinds: "Board_kind \<notin> set (map fst ds)"
    and cs: "map (\<lambda>s. (spawned_handler s, event_payload (spawned_event s))) cs
      = map (\<lambda>(k, i). (kind_handler k, Device_created k i)) ((Board_kind, 1) # ds)" by blast
  from all have "map (\<lambda>e. (poller_kind e, poller_device e)) (pollers (pf_polling p)) = (Board_kind, 1) # ds"
    unfolding all_announced_def by blast
  from that [OF started_loop_inv [OF cs] all kinds this] announced_tasks [OF cs] show ?thesis by blast
qed

lemma polled_devices:
  assumes "map (\<lambda>e. (poller_kind e, poller_device e)) es = ds"
  shows "list_all (\<lambda>e. (poller_kind e, poller_device e) \<in> set ds) es"
  unfolding assms [symmetric] by (simp add: list_all_iff image_iff) blast

lemma running_program_inv:
  assumes "mgmt_main L sink moved argv w = Some (Started c p cs)" and "calm (le_services E)"
    and "loop_reachable E (running_start E p cs) r"
  shows "\<exists>ds h. loop_inv ((Board_kind, 1) # ds) p (devices_of ((Board_kind, 1) # ds)) no_devices r \<and> all_announced ((Board_kind, 1) # ds) h p
    \<and> Board_kind \<notin> set (map fst ds)
    \<and> list_all (\<lambda>e. (poller_kind e, poller_device e) \<in> set ((Board_kind, 1) # ds)) (pollers (pf_polling p))"
proof -
  obtain ds h where
    inv: "loop_inv ((Board_kind, 1) # ds) p (devices_of ((Board_kind, 1) # ds)) no_devices (running_start E p cs)"
    and all: "all_announced ((Board_kind, 1) # ds) h p" "Board_kind \<notin> set (map fst ds)"
    and pol: "map (\<lambda>e. (poller_kind e, poller_device e)) (pollers (pf_polling p)) = (Board_kind, 1) # ds"
    by (rule program_start_inv [OF assms(1), where E = E])
  from reachable_loop_inv [OF assms(3) inv assms(2) polled_devices [OF pol]] all polled_devices [OF pol] show ?thesis by blast
qed

text \<open>Devices are created by the coroutines of the start only: those handled or waiting never become more.\<close>

lemma devices_never_grow:
  assumes inv: "loop_inv ds p M no_devices r" and calm: "calm (le_services E)"
    and polled: "list_all (\<lambda>e. (poller_kind e, poller_device e) \<in> set ds) (pollers (pf_polling p))"
    and reach: "loop_reachable E r r'"
  shows "occupied r' k + creations k (rn_tasks r') \<subseteq># occupied r k + creations k (rn_tasks r)"
proof -
  have "loop_inv ds p (\<lambda>k. occupied r k + creations k (rn_tasks r)) no_devices r"
    using inv by (simp add: loop_inv_def no_devices_def)
  from reachable_loop_inv [OF reach this calm polled] show ?thesis by (simp add: loop_inv_def no_devices_def)
qed

section \<open>No device is forgotten\<close>

text \<open>The creation of a device fails at a step: an exception, or nothing to add.\<close>

definition creation_fails ::
    "('e, 'f) loop_env \<Rightarrow> ('e, 'f) running_program \<Rightarrow> loop_label \<Rightarrow> device_kind \<Rightarrow> device_id \<Rightarrow> bool" where
  "creation_fails E r l k i \<longleftrightarrow> (\<exists>n x w. l = Task_step n \<and> n < length (rn_tasks r)
     \<and> task_event (rn_tasks r ! n) = Device_created k i
     \<and> create_device (loop_services E r) k i (rn_world r) = Some (x, w) \<and> (\<forall>c. x \<noteq> Inr (Some c)))"

text \<open>What runs on a handler and lets no device go.\<close>

definition holds_devices :: "('s device_handler, unit) co \<Rightarrow> bool" where
  "holds_devices m \<longleftrightarrow> (\<forall>h r h'. m h = Some (r, h') \<longrightarrow> handled_devices h \<subseteq># handled_devices h')"

definition holds_board :: "('s board_handler, unit) co \<Rightarrow> bool" where
  "holds_board m \<longleftrightarrow> (\<forall>h r h'. m h = Some (r, h') \<longrightarrow> board_devices h \<subseteq># board_devices h')"

lemma holds_devicesD: "m h = Some (r, h') \<Longrightarrow> holds_devices m \<Longrightarrow> handled_devices h \<subseteq># handled_devices h'"
  by (simp add: holds_devices_def)

lemma holds_boardD: "m h = Some (r, h') \<Longrightarrow> holds_board m \<Longrightarrow> board_devices h \<subseteq># board_devices h'"
  by (simp add: holds_board_def)

lemma handlers_hold:
  "holds_devices (device_added i d s)" "holds_devices (device_state_changed I i)" "holds_devices (device_round I a)"
proof -
  have round: "round_at I a es w = Some (r, es', w') \<Longrightarrow> map el_device es' = map el_device es" for es w r es' w'
    using round_at_keeps [where P = "\<lambda>_. True" and I = I] by (simp add: device_keeps_def co_keeps_def)
  show "holds_devices (device_added i d s)"
    by (auto simp: holds_devices_def device_added_def co_return_def handled_devices_def spawn_back_def push_back_def)
  show "holds_devices (device_state_changed I i)"
    by (auto simp: holds_devices_def device_state_changed_def handled_devices_def simp del: mset_map
        dest!: sync_first_addresses)
  show "holds_devices (device_round I a)"
    by (auto simp: holds_devices_def device_round_def handled_devices_def simp del: mset_map
        dest!: round split: if_splits)
qed

lemma board_steps_hold:
  "holds_board (board_state_changed V ts i)" "holds_board (indicator_round V t)" "holds_board (button_round V)"
  by (auto simp: holds_board_def board_state_changed_def indicator_round_def button_round_def board_devices_def
      co_return_def split: option.splits if_splits)

lemma handlers_conserve:
  "holds_devices m \<Longrightarrow> on_hatches m r = Some r' \<Longrightarrow> occupied r k \<subseteq># occupied r' k \<and> rn_tasks r' = rn_tasks r"
  "holds_devices m \<Longrightarrow> on_temps m r = Some r' \<Longrightarrow> occupied r k \<subseteq># occupied r' k \<and> rn_tasks r' = rn_tasks r"
  "holds_board n \<Longrightarrow> on_board n r = Some r' \<Longrightarrow> occupied r k \<subseteq># occupied r' k \<and> rn_tasks r' = rn_tasks r"
proof -
  have world: "handled_devices (h\<lparr>handler_world := w\<rparr>) = handled_devices h"
    "board_devices (b\<lparr>board_world := w\<rparr>) = board_devices b" for h :: "'a client topic_entity device_handler" and w b
    by (simp_all add: handled_devices_def board_devices_def)
  show "holds_devices m \<Longrightarrow> on_hatches m r = Some r' \<Longrightarrow> occupied r k \<subseteq># occupied r' k \<and> rn_tasks r' = rn_tasks r"
    "holds_devices m \<Longrightarrow> on_temps m r = Some r' \<Longrightarrow> occupied r k \<subseteq># occupied r' k \<and> rn_tasks r' = rn_tasks r"
    unfolding on_hatches_def on_temps_def
    by (auto simp: occupied_def world split: device_kind.split dest!: holds_devicesD)
  show "holds_board n \<Longrightarrow> on_board n r = Some r' \<Longrightarrow> occupied r k \<subseteq># occupied r' k \<and> rn_tasks r' = rn_tasks r"
    unfolding on_board_def by (auto simp: occupied_def world split: device_kind.split dest!: holds_boardD)
qed

text \<open>What each step does to the devices that are handled, ready or waiting.\<close>

lemma finish_conserves:
  assumes run: "finish_creation m r = Some r'"
    and board: "handled_board (rn_board r) = None \<or> readied Board_kind (rn_ready r) = {#}"
  shows "occupied r k \<subseteq># occupied r' k \<and> rn_tasks r' = rn_tasks r"
proof -
  define c where "c = rn_ready r ! m"
  let ?cs = "take m (rn_ready r) @ drop (Suc m) (rn_ready r)"
  let ?r = "r\<lparr>rn_ready := ?cs\<rparr>"
  from run have m: "m < length (rn_ready r)" and add: "add_ready c ?r = Some r'"
    by (auto simp: finish_creation_def c_def split: if_splits)
  have split: "rn_ready r = take m (rn_ready r) @ c # drop (Suc m) (rn_ready r)"
    using m by (simp add: c_def id_take_nth_drop [symmetric])
  then have "readied k (rn_ready r) = readied k (take m (rn_ready r) @ c # drop (Suc m) (rn_ready r))" for k
    by (rule arg_cong)
  then have parts: "readied k (rn_ready r) = readied k ?cs + (if ready_kind c = k then {#ready_id c#} else {#})" for k
    by (simp add: readied_def)
  show ?thesis
  proof (cases c)
    case (Hatch_ready i d s)
    with add parts show ?thesis
      by (auto simp: on_hatches_def device_added_def co_return_def occupied_def handled_devices_def spawn_back_def
          push_back_def add.assoc split: device_kind.split)
  next
    case (Temp_ready i d s)
    with add parts show ?thesis
      by (auto simp: on_temps_def device_added_def co_return_def occupied_def handled_devices_def spawn_back_def
          push_back_def add.assoc split: device_kind.split)
  next
    case (Board_ready i d b)
    with parts [of Board_kind] board have "handled_board (rn_board r) = None" by auto
    with Board_ready add parts show ?thesis
      by (auto simp: on_board_def board_added_def co_return_def occupied_def board_devices_def
          add.assoc split: device_kind.split)
  qed
qed

lemma ready_grows: "occupied r k \<subseteq># occupied (set_world w (r\<lparr>rn_ready := rn_ready r @ [c]\<rparr>)) k"
  by (simp add: occupied_def add.assoc split: device_kind.split)

lemma suspended_board:
  assumes "\<not> ends_suspended c w" and "handled_board (rn_board r) = None \<or> readied Board_kind (rn_ready r) = {#}"
  shows "handled_board (rn_board (set_world w (r\<lparr>rn_ready := rn_ready r @ [c]\<rparr>))) = None
    \<or> readied Board_kind (rn_ready (set_world w (r\<lparr>rn_ready := rn_ready r @ [c]\<rparr>))) = {#}"
  using assms by (cases c) (simp_all add: ends_suspended_def readied_def)

lemma handle_event_conserves:
  assumes "good_task ds c" and board: "handled_board (rn_board r) = None \<or> readied Board_kind (rn_ready r) = {#}"
    and "handle_event E (spawned_handler c) (task_event c) r = Some r'"
  shows "occupied r k \<subseteq># occupied r' k \<and> rn_tasks r' = rn_tasks r"
proof -
  have begun: "occupied r k \<subseteq># occupied r' k \<and> rn_tasks r' = rn_tasks r"
    if "begin_creation create r = Some r'" for create
    using that
  proof (cases rule: begin_creation_cases)
    case (4 c w)
    with finish_conserves [OF 4(3) suspended_board [OF 4(2) board], where k = k] ready_grows [of r k w c]
    show ?thesis by (auto intro: subset_mset.order_trans)
  qed (auto simp: occupied_def readied_def split: device_kind.split)
  note keep = handlers_conserve(1,2) [OF handlers_hold(2), where k = k] handlers_conserve(3) [OF board_steps_hold(1), where k = k]
  show ?thesis
  proof (cases "task_event c")
    case (Device_created j i)
    with assms(1,3) show ?thesis by (cases j) (auto simp: good_task_def dest: begun split: if_splits)
  next
    case (Device_removed j i)
    with assms(1) show ?thesis by (simp add: good_task_def)
  next
    case (Device_state_changed j i)
    with assms(1,3) show ?thesis
      by (cases j) (auto simp: good_task_def hatch_state_changed_def temp_state_changed_def dest: keep)
  qed
qed

lemma created_or_failed:
  assumes "good_task ds c" and "task_event c = Device_created k i"
    and "k = Board_kind \<Longrightarrow> handled_board (rn_board r) = None"
    and board: "handled_board (rn_board r) = None \<or> readied Board_kind (rn_ready r) = {#}"
    and "handle_event E (spawned_handler c) (task_event c) r = Some r'"
  shows "i \<in># occupied r' k
    \<or> (\<exists>x w. create_device (loop_services E r) k i (rn_world r) = Some (x, w) \<and> (\<forall>y. x \<noteq> Inr (Some y)))"
proof -
  from assms have "begin_creation (create_device (loop_services E r) k i) r = Some r'"
    by (cases k) (auto simp: good_task_def)
  then show ?thesis
  proof (cases rule: begin_creation_cases)
    case (3 c w)
    with create_device_ready [OF 3(1)] show ?thesis by (simp add: occupied_def readied_def)
  next
    case (4 c w)
    have "i \<in># occupied (set_world w (r\<lparr>rn_ready := rn_ready r @ [c]\<rparr>)) k"
      using create_device_ready [OF 4(1)] by (simp add: occupied_def readied_def)
    with finish_conserves [OF 4(3) suspended_board [OF 4(2) board], where k = k] show ?thesis
      by (auto dest: mset_subset_eqD)
  qed auto
qed

lemma poll_conserves:
  assumes "rn_bus r = ha_bus" and "poll_device E e r = Some r'"
  shows "occupied r k \<subseteq># occupied r' k \<and> creations k (rn_tasks r) \<subseteq># creations k (rn_tasks r')"
proof -
  have spawned: "occupied r k \<subseteq># occupied (spawn_published E es r) k
      \<and> creations k (rn_tasks r) \<subseteq># creations k (rn_tasks (spawn_published E es r))"
    if bus: "rn_bus r = ha_bus" for es and r :: "('a, 'b) running_program"
  proof -
    from spawn_published_ha_bus [OF bus] obtain cs where "spawn_published E es r = r\<lparr>rn_tasks := rn_tasks r @ cs\<rparr>" by blast
    then show ?thesis by (simp add: occupied_def creations_def split: device_kind.split)
  qed
  have same: "occupied ((set_world w r)\<lparr>rn_hatch_seen := f\<rparr>) k = occupied r k"
    "occupied ((set_world w r)\<lparr>rn_board_seen := f\<rparr>) k = occupied r k"
    "occupied ((set_world w r)\<lparr>rn_temp_seen := g\<rparr>) k = occupied r k" for w f g
    by (simp_all add: occupied_def split: device_kind.split)
  have run: "occupied r k \<subseteq># occupied r' k \<and> creations k (rn_tasks r) \<subseteq># creations k (rn_tasks r')"
    if "run_poll E poll seen put r = Some r'"
      and put: "\<And>v w. occupied (put v (set_world w r)) k = occupied r k \<and> rn_tasks (put v (set_world w r)) = rn_tasks r
        \<and> rn_bus (put v (set_world w r)) = rn_bus r"
    for poll :: "('h polled, unit) co" and seen put
  proof -
    from that(1) obtain x q where "poll \<lparr>last_seen = seen, polled_world = rn_world r, published = []\<rparr> = Some (x, q)"
      and r': "r' = rethrow x (spawn_published E (published q)
        (put (last_seen q) (set_world (polled_world q) r)))" by (auto simp: run_poll_def)
    have "rn_bus (put (last_seen q) (set_world (polled_world q) r)) = ha_bus" using put assms(1) by simp
    from spawned [OF this] put r' show ?thesis by simp
  qed
  show ?thesis
    using assms(2) by (cases "poller_kind e") (auto simp: poll_device_def Let_def same dest!: run)
qed

lemma handle_task_conserves:
  assumes inv: "loop_inv ds p M no_devices r"
    and board: "handled_board (rn_board r) = None \<or> creations Board_kind (rn_tasks r) + readied Board_kind (rn_ready r) = {#}"
    and run: "handle_task E n r = Some r'" and i: "i \<in># occupied r k + creations k (rn_tasks r)"
  shows "i \<in># occupied r' k + creations k (rn_tasks r') \<or> creation_fails E r (Task_step n) k i"
proof -
  define c where "c = rn_tasks r ! n"
  let ?ts = "take n (rn_tasks r) @ drop (Suc n) (rn_tasks r)"
  let ?r = "r\<lparr>rn_tasks := ?ts\<rparr>"
  from run have n: "n < length (rn_tasks r)"
    and step: "handle_event E (spawned_handler c) (task_event c) ?r = Some r'"
    by (auto simp: handle_task_def c_def task_event_def Let_def split: if_splits)
  have split: "rn_tasks r = take n (rn_tasks r) @ c # drop (Suc n) (rn_tasks r)"
    using n by (simp add: c_def id_take_nth_drop [symmetric])
  have good: "good_task ds c" using inv n by (simp add: loop_inv_def list_all_length c_def)
  have "creations k (take n (rn_tasks r) @ c # drop (Suc n) (rn_tasks r))
      = creations k ?ts + (if is_creation k c then {#event_device (task_event c)#} else {#})" for k
    by (simp add: creations_def)
  then have tasks: "creations k (rn_tasks r) = creations k ?ts + (if is_creation k c then {#event_device (task_event c)#} else {#})"
    for k by (simp flip: split)
  have nob: "handled_board (rn_board ?r) = None" if "task_event c = Device_created Board_kind j" for j
    using board tasks [of Board_kind] that by (auto simp: is_creation_def)
  have occ: "occupied ?r k = occupied r k" by (simp add: occupied_def split: device_kind.split)
  have board': "handled_board (rn_board ?r) = None \<or> readied Board_kind (rn_ready ?r) = {#}" using board by auto
  from handle_event_conserves [OF good board' step, where k = k] have keep: "occupied r k \<subseteq># occupied r' k" "rn_tasks r' = ?ts"
    by (simp_all add: occ)
  have serv: "loop_services E ?r = loop_services E r" "rn_world ?r = rn_world r" by (simp_all add: loop_services_def rn_world_def)
  show ?thesis
  proof (cases "is_creation k c \<and> event_device (task_event c) = i")
    case True
    then have ev: "task_event c = Device_created k i" by (auto simp: is_creation_def split: device_event.splits)
    with created_or_failed [OF good ev _ board' step] nob serv show ?thesis
      using n by (auto simp: creation_fails_def c_def)
  next
    case False
    with i tasks keep show ?thesis by (auto dest: mset_subset_eqD split: if_splits)
  qed
qed

lemma loop_step_conserves:
  assumes inv: "loop_inv ds p M no_devices r"
    and board: "handled_board (rn_board r) = None \<or> creations Board_kind (rn_tasks r) + readied Board_kind (rn_ready r) = {#}"
    and run: "loop_step E l r = Some r'" and i: "i \<in># occupied r k + creations k (rn_tasks r)"
  shows "i \<in># occupied r' k + creations k (rn_tasks r') \<or> creation_fails E r l k i"
proof -
  have grown: ?thesis if "occupied r k \<subseteq># occupied r' k \<and> creations k (rn_tasks r) \<subseteq># creations k (rn_tasks r')"
    using that i by (auto dest: mset_subset_eqD)
  note keep = handlers_conserve [where k = k]
  show ?thesis
  proof (cases l)
    case (Poll_step n)
    have "rn_bus r = ha_bus" using inv by (simp add: loop_inv_def)
    from poll_conserves [OF this] run Poll_step show ?thesis by (intro grown) (auto split: if_splits)
  next
    case (Task_step n)
    with handle_task_conserves [OF inv board _ i] run show ?thesis by auto
  next
    case (Finish_step n)
    with finish_conserves [where k = k and r = r and r' = r'] board run show ?thesis by (intro grown) auto
  next
    case (Hatch_round a)
    with keep(1) [OF handlers_hold(3)] run show ?thesis by (intro grown) auto
  next
    case (Temp_round a)
    with keep(2) [OF handlers_hold(3)] run show ?thesis by (intro grown) auto
  next
    case (Indicator_round t)
    with keep(3) [OF board_steps_hold(2)] run show ?thesis by (intro grown) auto
  next
    case Button_round
    with keep(3) [OF board_steps_hold(3)] run show ?thesis by (intro grown) auto
  next
    case (Hardware f)
    with run show ?thesis by (intro grown) (auto simp: occupied_def split: device_kind.split)
  qed
qed

lemma reachable_conserves:
  assumes reach: "loop_reachable E s r"
    and inv: "loop_inv ((Board_kind, 1) # ds) p (devices_of ((Board_kind, 1) # ds)) no_devices s" and kinds: "Board_kind \<notin> set (map fst ds)"
    and calm: "calm (le_services E)"
    and polled: "list_all (\<lambda>e. (poller_kind e, poller_device e) \<in> set ((Board_kind, 1) # ds)) (pollers (pf_polling p))"
    and i: "i \<in># occupied s k + creations k (rn_tasks s)"
  shows "i \<in># occupied r k + creations k (rn_tasks r)
    \<or> (\<exists>r0 l r1. loop_reachable E s r0 \<and> loop_step E l r0 = Some r1 \<and> loop_reachable E r1 r \<and> creation_fails E r0 l k i)"
  using reach
proof (induction rule: loop_reachable.induct)
  case loop_start
  with i show ?case by blast
next
  case (loop_more r l r')
  from loop_more.IH show ?case
  proof
    assume "i \<in># occupied r k + creations k (rn_tasks r)"
    with loop_step_conserves [OF reachable_loop_inv [OF loop_more.hyps(1) inv calm polled]
        board_creation_once [OF reachable_loop_inv [OF loop_more.hyps(1) inv calm polled] kinds] loop_more.hyps(3)]
    have "i \<in># occupied r' k + creations k (rn_tasks r') \<or> creation_fails E r l k i" by blast
    with loop_more.hyps(1,3) loop_reachable.loop_start [of E r'] show ?thesis by blast
  next
    assume "\<exists>r0 l r1. loop_reachable E s r0 \<and> loop_step E l r0 = Some r1 \<and> loop_reachable E r1 r \<and> creation_fails E r0 l k i"
    then obtain r0 j r1 where "loop_reachable E s r0" "loop_step E j r0 = Some r1" "loop_reachable E r1 r"
      "creation_fails E r0 j k i" by blast
    with loop_reachable.loop_more [OF this(3) loop_more.hyps(2,3)] show ?thesis by blast
  qed
qed

end
