(* ===== verification/Running_Program.thy ===== *)
theory Running_Program
  imports Event_Loop
begin

text \<open>
  What the running program guarantees from its start on: its devices and coroutines stay sound, changes of a
  hatch and commands for it go through, a failed reading ends the program, and a hatch that could not be
  created is lost. The example is the program of \<open>Application\<close> with a hatch that opens.
\<close>

section \<open>A hatch that is not created\<close>

lemma uncreated_step:
  assumes "n < length (rn_tasks r)" and "task_event (rn_tasks r ! n) = Device_created k i"
    and "spawned_handler (rn_tasks r ! n) = Hatch_event_handler"
    and "hatch_create (loop_services E r) i (rn_world r) = Some (Inr None, w)"
  shows "loop_step E (Task_step n) r = Some (set_world w (r\<lparr>rn_tasks := take n (rn_tasks r) @ drop (Suc n) (rn_tasks r)\<rparr>))"
proof -
  have "loop_services E (r\<lparr>rn_tasks := ts\<rparr>) = loop_services E r" for ts by (simp add: loop_services_def)
  with assms show ?thesis
    by (simp add: handle_task_def Let_def task_event_def begin_creation_def create_device_def co_bind_def co_return_def
        rn_world_def)
qed

lemma handled_or_waiting_once:
  assumes inv: "loop_inv ds p (devices_of ds) no_devices r" and "distinct (map snd ds)"
  shows "count (occupied r k + creations k (rn_tasks r)) i \<le> 1"
proof -
  have "devices_of ds k \<subseteq># mset (map snd ds)"
    unfolding devices_of_all [symmetric] by (cases k) simp_all
  moreover have "count (mset (map snd ds)) i \<le> 1"
    using iffD1 [OF distinct_count_atmost_1 assms(2), THEN spec, of i] by simp
  moreover have "occupied r k + creations k (rn_tasks r) \<subseteq># devices_of ds k"
    using inv by (simp add: loop_inv_def no_devices_def)
  ultimately show ?thesis by (meson le_trans mset_subset_eq_count)
qed

lemma in_creations: "i \<in># creations k cs \<Longrightarrow> Device_created k i \<in> task_event ` set cs"
proof -
  assume "i \<in># creations k cs"
  then obtain c where c: "c \<in> set cs" "is_creation k c" "event_device (task_event c) = i" by (auto simp: creations_def)
  then have "task_event c = Device_created k i" by (cases "task_event c") (auto simp: is_creation_def)
  with c(1) show ?thesis by (metis image_eqI)
qed

lemma no_creations: "count (creations k cs) i = 0 \<Longrightarrow> Device_created k i \<notin> task_event ` set cs"
proof
  assume none: "count (creations k cs) i = 0" and "Device_created k i \<in> task_event ` set cs"
  then obtain c where c: "c \<in> set cs" "task_event c = Device_created k i" by auto
  then have "i \<in># creations k cs" by (force simp: creations_def is_creation_def)
  with none show False by (simp add: count_eq_zero_iff)
qed

lemma in_readied: "i \<in># readied k cs \<Longrightarrow> (k, i) \<in> (\<lambda>x. (ready_kind x, ready_id x)) ` set cs"
  by (auto simp: readied_def)

section \<open>A change of a hatch\<close>

lemma map_update_absent: "a \<notin> set (map f xs) \<Longrightarrow> map (\<lambda>x. if f x = a then g x else x) xs = xs"
  by (induction xs) auto

lemma sync_first_only:
  assumes "distinct (map el_device es)" and "e \<in> set es" and "el_device e = i"
    and "sync_state (I i (el_identity e)) \<lparr>adapted_entity = el_entity e, world = w\<rparr>
      = Some (r, \<lparr>adapted_entity = s', world = w'\<rparr>)"
  shows "sync_first I i es w = Some (r, map (\<lambda>x. if el_device x = i then x\<lparr>el_entity := s'\<rparr> else x) es, w')"
  using assms
proof (induction es)
  case (Cons x es)
  have "e \<in> set es \<Longrightarrow> el_device x \<noteq> i" using Cons.prems(1,3) by force
  then show ?case using Cons map_update_absent [of _ el_device es] by auto
qed simp

lemma sync_first_absent: "i \<notin> set (map el_device es) \<Longrightarrow> sync_first I i es w = Some (Inr (), es, w)"
  by (induction es) auto

text \<open>A round of a run changes the entity of its element only.\<close>

lemma round_at_only:
  assumes "distinct (map el_address es)" and "e \<in> set es"
    and "run_round (I (el_device e) (el_identity e)) \<lparr>adapted_entity = el_entity e, world = w\<rparr>
      = Some (r, \<lparr>adapted_entity = s', world = w'\<rparr>)"
  shows "round_at I (el_address e) es w
    = Some (r, map (\<lambda>x. if el_address x = el_address e then x\<lparr>el_entity := s'\<rparr> else x) es, w')"
  using assms
proof (induction es)
  case (Cons x es)
  have "e \<in> set es \<Longrightarrow> el_address x \<noteq> el_address e" using Cons.prems(1) by force
  then show ?case using Cons map_update_absent [of _ el_address es] by auto
qed simp

lemma alive_addresses:
  assumes "all_alive h"
  shows "distinct (map el_address (elements h)) \<and> (\<forall>e \<in> set (elements h). el_address e \<in> set (running h))"
  using assms by (metis all_alive_def distinct_upt image_eqI set_map)

text \<open>A poll that finds a new hash spawns the handler of the change; one that finds the old one spawns nothing.\<close>

lemma hatch_poll_step:
  assumes "rn_bus r = ha_bus" and "n < length (pollers (pf_polling (rn_platform r)))"
    and "poller_kind (pollers (pf_polling (rn_platform r)) ! n) = Hatch_kind"
    and "poller_device (pollers (pf_polling (rn_platform r)) ! n) = i"
    and "world_hatches (rn_world r) i = Some h"
    and "hatch_status h (world_fs (rn_world r)) = Some (Inr st, world_fs (rn_world r))"
  shows "if le_hash E st = rn_hatch_seen r i then loop_step E (Poll_step n) r = Some r
    else \<exists>c. loop_step E (Poll_step n) r = Some (r\<lparr>rn_hatch_seen := (rn_hatch_seen r)(i := le_hash E st),
          rn_tasks := rn_tasks r @ [c]\<rparr>)
      \<and> spawned_handler c = Hatch_event_handler \<and> task_event c = Device_state_changed Hatch_kind i"
proof -
  let ?p = "\<lparr>last_seen = rn_hatch_seen r i, polled_world = rn_world r, published = []\<rparr>"
  let ?e = "Device_state_changed Hatch_kind i"
  have "hatch_current_hash (le_hash E) i (rn_world r) = Some (Inr (le_hash E st), (rn_world r)\<lparr>world_fs := world_fs (rn_world r)\<rparr>)"
    by (rule hatch_hash_reads) (rule assms)+
  then have "hatch_current_hash (le_hash E) i (polled_world ?p) = Some (Inr (le_hash E st), rn_world r)" by simp
  note poll = poll_once_value [where differs = "(\<noteq>)" and e = ?e and p = ?p
      and current = "hatch_current_hash (le_hash E) i", OF this]
  have same: "set_world (rn_world r) r = r" by (simp add: set_world_def rn_world_def)
  have step: "loop_step E (Poll_step n) r = run_poll E (poll_hatch (le_hash E) i) (rn_hatch_seen r i)
      (\<lambda>v r. r\<lparr>rn_hatch_seen := (rn_hatch_seen r)(i := v)\<rparr>) r"
    using assms(2-4) by (simp add: poll_device_def)
  let ?r = "r\<lparr>rn_hatch_seen := (rn_hatch_seen r)(i := le_hash E st)\<rparr>"
  have "rn_bus ?r = ha_bus" using assms(1) by simp
  from spawn_published_ha_bus [OF this, of E "[?e]"] obtain c where "spawn_published E [?e] ?r = ?r\<lparr>rn_tasks := rn_tasks ?r @ [c]\<rparr>"
    "spawned_handler c = Hatch_event_handler" "task_event c = ?e"
    by (auto simp: map_eq_Cons_conv)
  moreover from spawn_published_ha_bus [OF assms(1), of E "[]"] have "spawn_published E [] r = r" by simp
  ultimately show ?thesis
    using poll unfolding step by (auto simp: run_poll_def poll_hatch_def rethrow_def same)
qed

lemma last_task_step:
  assumes "hatch_state_changed (loop_services E r) i ((rn_hatches r)\<lparr>handler_world := rn_world r\<rparr>) = Some (x, h)"
    and "spawned_handler c = Hatch_event_handler" and "task_event c = Device_state_changed Hatch_kind i"
  shows "loop_step E (Task_step (length (rn_tasks r))) (r\<lparr>rn_tasks := rn_tasks r @ [c]\<rparr>)
    = Some (rethrow x (set_world (handler_world h) (r\<lparr>rn_hatches := h\<rparr>)))"
proof -
  have "r\<lparr>rn_tasks := rn_tasks r\<rparr> = r" by simp
  with assms show ?thesis by (simp add: handle_task_def task_event_def on_hatches_def)
qed

text \<open>The handler of a change of a hatch that it does not have does nothing.\<close>

lemma absent_change_step:
  assumes "n < length (rn_tasks r)" and "task_event (rn_tasks r ! n) = Device_state_changed Hatch_kind i"
    and "spawned_handler (rn_tasks r ! n) = Hatch_event_handler"
    and "i \<notin> el_device ` set (elements (rn_hatches r))"
  shows "loop_step E (Task_step n) r = Some (r\<lparr>rn_tasks := take n (rn_tasks r) @ drop (Suc n) (rn_tasks r),
    rn_hatches := (rn_hatches r)\<lparr>handler_world := rn_world r\<rparr>\<rparr>)"
proof -
  have absent: "i \<notin> set (map el_device (elements (rn_hatches r)))" using assms(4) by simp
  show ?thesis
    using assms(1-3) by (simp add: handle_task_def Let_def task_event_def on_hatches_def hatch_state_changed_def
        device_state_changed_def rethrow_def set_world_def rn_world_def sync_first_absent [OF absent])
qed

section \<open>An example\<close>

text \<open>Steps one after the other; \<open>None\<close> when one is not enabled or the program has failed before it.\<close>

fun loop_run ::
    "('e, 'f) loop_env \<Rightarrow> loop_label list \<Rightarrow> ('e, 'f) running_program \<Rightarrow> ('e, 'f) running_program option" where
  "loop_run E [] r = Some r"
| "loop_run E (l # ls) r =
     (case rn_failure r of
        Some x \<Rightarrow> None
      | None \<Rightarrow> (case loop_step E l r of None \<Rightarrow> None | Some r' \<Rightarrow> loop_run E ls r'))"

lemma loop_run_reachable: "loop_reachable E s r \<Longrightarrow> loop_run E ls r = Some r' \<Longrightarrow> loop_reachable E s r'"
  by (induction ls arbitrary: r) (auto split: option.splits intro: loop_more)

text \<open>
  The platform of the example of the application, with a hatch whose status reads as given, and a broker
  that delivers a command for it once it has accepted the document.
\<close>

definition example_sys :: "string \<Rightarrow> fs" where
  "example_sys st = example_disk_files\<lparr>files := (files example_disk_files)(''/sys/hatch/status'' \<mapsto> regular_file st)\<rparr>"

definition example_command :: publish_packet where
  "example_command = \<lparr>publish_id = 3, publish_topic = ''cover_default-/etc/hw-serial_2/set'', publish_payload = ''close'',
     publish_opts = \<lparr>qos_of = At_most_once, retain = False\<rparr>\<rparr>"

definition example_loop :: "(in_packet list, unit) loop_env" where
  "example_loop = \<lparr>le_services = example_services (accepting_broker @ [Publish_in example_command]),
     le_hash = (\<lambda>st. case st of Hatch_open \<Rightarrow> 1 | _ \<Rightarrow> 0), le_hash_combine = (\<lambda>n s. n), le_float_neq = (\<lambda>x y. False),
     le_moved = id, le_order = [Fault, Status, Warning, Maintenance]\<rparr>"

lemma example_calm: "calm (le_services example_loop)"
  by (simp add: calm_def example_loop_def example_services_def co_keeps_return)

text \<open>The hatch is found closed, its entity is created, and it opens.\<close>

definition example_moves :: "loop_label list" where
  "example_moves = [Hardware (example_sys ''closed''), Task_step 1, Finish_step 0, Hardware (example_sys ''open'')]"

lemma example_runs:
  "case mgmt_main example_json (\<lambda>_. None) id [''mgmt'', ''/config.json''] example_disk_files of
     Some (Started c p cs) \<Rightarrow>
       map (\<lambda>e. (poller_kind e, poller_device e)) (pollers (pf_polling p)) = [(Board_kind, 1), (Hatch_kind, 2), (Temp_sensor_kind, 3)]
       \<and> (case loop_run example_loop example_moves (running_start example_loop p cs) of
          None \<Rightarrow> False
        | Some r \<Rightarrow>
            rn_hatch_seen r 2 = 0 \<and> (case world_hatches (rn_world r) 2 of None \<Rightarrow> False | Some h \<Rightarrow> hatch_dir h = ''/sys/hatch'')
            \<and> healthy (world_fs (rn_world r)) ''/sys/hatch/status'' ''open''
            \<and> (case files (world_fs (rn_world r)) ''/sys/hatch/change_position'' of
                 None \<Rightarrow> may_create (world_fs (rn_world r)) ''/sys/hatch/change_position'' | Some f \<Rightarrow> False)
            \<and> (case elements (rn_hatches r) of
                 [e] \<Rightarrow> el_device e = 2 \<and> is_cover (el_entity e)
                   \<and> (case entity_publish (services_ops (le_services example_loop)) (entity_topic (el_entity e) ''state'')
                         ''open'' adapter_pubopts (el_entity e) of Some (Inr x, s) \<Rightarrow> True | _ \<Rightarrow> False)
                   \<and> (case entity_receive (services_ops (le_services example_loop)) (sv_fuel (le_services example_loop)) (el_entity e) of
                         Some (Inr (Inr p), s) \<Rightarrow> publish_topic p = entity_topic s ''set'' \<and> publish_payload p = ''close''
                       | _ \<Rightarrow> False)
               | _ \<Rightarrow> False))
   | _ \<Rightarrow> False"
  by code_simp

lemma healthy_hatch_open:
  assumes "healthy f (path_join (hatch_dir h) ''status'') ''open''"
  shows "hatch_status h f = Some (Inr Hatch_open, f)"
  using healthy_read [OF assms]
  by (simp add: hatch_status_def co_bind_def fs_result_def last_word_single is_space_def static_map_at_value_def
      status_mapping_def)

lemma got_packet:
  assumes "case m of Some (Inr (Inr q), t) \<Rightarrow> P q t \<and> Q q t | _ \<Rightarrow> False"
  obtains q t where "m = Some (Inr (Inr q), t)" "P q t" "Q q t"
proof (cases m)
  case None
  with assms show ?thesis by simp
next
  case (Some a)
  obtain r t where a: "a = (r, t)" by (cases a)
  with Some assms obtain y where y: "r = Inr y" by (cases r) simp_all
  with Some a assms obtain q where "y = Inr q" by (cases y) simp_all
  with Some a y assms that show ?thesis by simp
qed

lemma example_reached:
  "\<exists>c p cs r h e x s q t. mgmt_main example_json (\<lambda>_. None) id [''mgmt'', ''/config.json''] example_disk_files = Some (Started c p cs)
    \<and> loop_reachable example_loop (running_start example_loop p cs) r
    \<and> map (\<lambda>e. (poller_kind e, poller_device e)) (pollers (pf_polling p)) = [(Board_kind, 1), (Hatch_kind, 2), (Temp_sensor_kind, 3)]
    \<and> rn_hatch_seen r 2 = 0 \<and> world_hatches (rn_world r) 2 = Some h \<and> hatch_dir h = ''/sys/hatch''
    \<and> hatch_status h (world_fs (rn_world r)) = Some (Inr Hatch_open, world_fs (rn_world r))
    \<and> elements (rn_hatches r) = [e] \<and> el_device e = 2 \<and> is_cover (el_entity e)
    \<and> entity_publish (services_ops (le_services example_loop)) (entity_topic (el_entity e) ''state'') ''open'' adapter_pubopts
        (el_entity e) = Some (Inr x, s)
    \<and> entity_receive (services_ops (le_services example_loop)) (sv_fuel (le_services example_loop)) (el_entity e) = Some (Inr (Inr q), t)
    \<and> publish_topic q = entity_topic t ''set'' \<and> publish_payload q = ''close''
    \<and> keeps_writes (world_fs (rn_world r)) (path_join (hatch_dir h) ''change_position'')"
proof -
  let ?receive = "\<lambda>e. entity_receive (services_ops (le_services example_loop)) (sv_fuel (le_services example_loop)) (el_entity e)"
  let ?publish = "\<lambda>e. entity_publish (services_ops (le_services example_loop)) (entity_topic (el_entity e) ''state'') ''open''
      adapter_pubopts (el_entity e)"
  obtain c p cs where start:
    "mgmt_main example_json (\<lambda>_. None) id [''mgmt'', ''/config.json''] example_disk_files = Some (Started c p cs)"
    using example_program_starts by (auto split: option.splits program_state.splits)
  note runs = example_runs [unfolded start option.case program_state.case]
  then obtain r where r: "loop_run example_loop example_moves (running_start example_loop p cs) = Some r"
    by (cases "loop_run example_loop example_moves (running_start example_loop p cs)") simp_all
  note runs = runs [unfolded r option.case]
  from runs obtain h where h: "world_hatches (rn_world r) 2 = Some h" "hatch_dir h = ''/sys/hatch''"
    by (cases "world_hatches (rn_world r) 2") simp_all
  from runs obtain e where e: "elements (rn_hatches r) = [e]"
    by (cases "elements (rn_hatches r)" rule: remdups_adj.cases) simp_all
  note runs = runs [unfolded e list.case]
  from runs have "case ?publish e of Some (Inr x, s) \<Rightarrow> True | _ \<Rightarrow> False" by blast
  then obtain x s where "?publish e = Some (Inr x, s)" by (auto split: option.splits sum.splits prod.splits)
  moreover from runs have "case ?receive e of Some (Inr (Inr p), s) \<Rightarrow>
      publish_topic p = entity_topic s ''set'' \<and> publish_payload p = ''close'' | _ \<Rightarrow> False" by blast
  then obtain q t where "?receive e = Some (Inr (Inr q), t)"
    "publish_topic q = entity_topic t ''set''" "publish_payload q = ''close''"
    by (rule got_packet)
  moreover from runs have "case files (world_fs (rn_world r)) ''/sys/hatch/change_position'' of
      None \<Rightarrow> may_create (world_fs (rn_world r)) ''/sys/hatch/change_position'' | Some f \<Rightarrow> False" by blast
  then have "keeps_writes (world_fs (rn_world r)) (path_join (hatch_dir h) ''change_position'')"
    by (simp add: path_join_def h keeps_writes_def split: option.splits)
  moreover from runs have "map (\<lambda>e. (poller_kind e, poller_device e)) (pollers (pf_polling p))
      = [(Board_kind, 1), (Hatch_kind, 2), (Temp_sensor_kind, 3)]" "rn_hatch_seen r 2 = 0"
    "el_device e = 2" "is_cover (el_entity e)" "healthy (world_fs (rn_world r)) ''/sys/hatch/status'' ''open''"
    by blast+
  moreover from this(5) have "hatch_status h (world_fs (rn_world r)) = Some (Inr Hatch_open, world_fs (rn_world r))"
    by (intro healthy_hatch_open) (simp add: path_join_def h)
  moreover note loop_run_reachable [OF loop_start r] start h e
  ultimately show ?thesis
    by - (intro exI [of _ c] exI [of _ p] exI [of _ cs] exI [of _ r] exI [of _ h] exI [of _ e] exI [of _ x] exI [of _ s]
      exI [of _ q] exI [of _ t] conjI;
      assumption)
qed

section \<open>Properties\<close>

text \<open>C2: The program at any point of its run, whatever polls, deliveries, rounds of entities and
  changes of the hardware came before, also while a creation waits for the broker: each device has at most one
  entity or board, in its handler or about to be moved into it, no device is created twice, every
  run has its element, so that none resumes on a destroyed one, and every coroutine that waits is the
  handler of its kind, for a device that is still there with its identity, and never for a removal.\<close>

theorem running_program_is_sound:
  assumes "mgmt_main L sink moved argv w = Some (Started c p cs)" and "calm (le_services E)"
    and "loop_reachable E (running_start E p cs) r"
  shows "distinct (map fst (case handled_board (rn_board r) of None \<Rightarrow> [] | Some x \<Rightarrow> [x])
      @ map el_device (elements (rn_hatches r)) @ map el_device (elements (rn_temps r)) @ map ready_id (rn_ready r))
    \<and> (handled_board (rn_board r) = None \<or> creations Board_kind (rn_tasks r) + readied Board_kind (rn_ready r) = {#})
    \<and> running (rn_hatches r) = map el_address (elements (rn_hatches r))
    \<and> running (rn_temps r) = map el_address (elements (rn_temps r))
    \<and> list_all (\<lambda>t. case task_event t of Device_removed k i \<Rightarrow> False
        | e \<Rightarrow> spawned_handler t = kind_handler (event_kind e) \<and> known (event_kind e) (event_device e) (rn_world r)
            \<and> (\<exists>d. identity_of (pf_store (rn_platform r)) (pf_tree (rn_platform r)) (event_device e) = Inr d)) (rn_tasks r)
    \<and> pf_polling (rn_platform r) = pf_polling p"
proof -
  from running_program_inv [OF assms] obtain ds h where inv: "loop_inv ((Board_kind, 1) # ds) p (devices_of ((Board_kind, 1) # ds)) no_devices r"
    and all: "all_announced ((Board_kind, 1) # ds) h p" and kinds: "Board_kind \<notin> set (map fst ds)" by blast
  define es where "es = (Board_kind, 1 :: device_id) # ds"
  have dist: "distinct (map snd es)" using all unfolding all_announced_def es_def by blast
  have same: "same_devices (pf_world p) (rn_world r)" "pf_store (rn_platform r) = pf_store p"
    "pf_tree (rn_platform r) = pf_tree p" "list_all (good_task es) (rn_tasks r)"
    using inv by (simp_all add: loop_inv_def es_def)
  have dev: "known k i (rn_world r)" "\<exists>d. identity_of (pf_store (rn_platform r)) (pf_tree (rn_platform r)) i = Inr d"
    if "(k, i) \<in> set es" for k i
  proof -
    from announced_devices [OF all] that have "known k i (pf_world p)" "get_hardware_identity (pf_store p) (pf_tree p) i = Inr h"
      unfolding es_def [symmetric] list_all_iff by blast+
    then show "known k i (rn_world r)" "\<exists>d. identity_of (pf_store (rn_platform r)) (pf_tree (rn_platform r)) i = Inr d"
      using same_devices_known [OF same(1)] same(2,3) by (simp_all add: identity_of_def)
  qed
  have "list_all (\<lambda>t. case task_event t of Device_removed k i \<Rightarrow> False
      | e \<Rightarrow> spawned_handler t = kind_handler (event_kind e) \<and> known (event_kind e) (event_device e) (rn_world r)
          \<and> (\<exists>d. identity_of (pf_store (rn_platform r)) (pf_tree (rn_platform r)) (event_device e) = Inr d)) (rn_tasks r)"
    using same(4) by (rule list.pred_mono_strong) (auto simp: good_task_def dest: dev split: device_event.splits)
  with inv occupied_distinct [OF inv dist [unfolded es_def]] board_creation_once [OF inv kinds] show ?thesis
    by (simp add: loop_inv_def all_alive_def)
qed

theorem running_program_is_sound_witness:
  "\<exists>c p cs r. mgmt_main example_json (\<lambda>_. None) id [''mgmt'', ''/config.json''] example_disk_files = Some (Started c p cs)
    \<and> loop_reachable example_loop (running_start example_loop p cs) r \<and> length (elements (rn_hatches r)) = 1
    \<and> running (rn_hatches r) = map el_address (elements (rn_hatches r))"
proof -
  from example_reached obtain c p cs r e where
    run: "mgmt_main example_json (\<lambda>_. None) id [''mgmt'', ''/config.json''] example_disk_files = Some (Started c p cs)"
      "loop_reachable example_loop (running_start example_loop p cs) r" and e: "elements (rn_hatches r) = [e]"
    by (elim exE conjE) (rule that)
  from running_program_is_sound [OF run(1) example_calm run(2)] run e show ?thesis
    by (intro exI [of _ c] exI [of _ p] exI [of _ cs] exI [of _ r]) simp
qed

text \<open>C3: A change of a hatch reaches Home Assistant: at any point of the run, a poll of a hatch whose hash is
  not the one seen last spawns one coroutine, which publishes open or closed on the state topic of
  the one entity of that hatch, nothing while the hatch is in between, and leaves the other entities,
  the other coroutines and the fate of the program as they are; a poll that finds no change does nothing.\<close>

theorem changed_hatch_reaches_home_assistant:
  assumes "mgmt_main L sink moved argv w = Some (Started c p cs)" and "calm (le_services E)"
    and "loop_reachable E (running_start E p cs) r"
    and "n < length (pollers (pf_polling p))" and "poller_kind (pollers (pf_polling p) ! n) = Hatch_kind"
    and "poller_device (pollers (pf_polling p) ! n) = i"
    and "world_hatches (rn_world r) i = Some h"
    and "hatch_status h (world_fs (rn_world r)) = Some (Inr st, world_fs (rn_world r))"
    and "e \<in> set (elements (rn_hatches r))" and "el_device e = i" and "is_cover (el_entity e)"
    and "(case st of
        Hatch_open \<Rightarrow> entity_publish (services_ops (le_services E)) (entity_topic (el_entity e) ''state'') ''open'' adapter_pubopts
      | Hatch_closed \<Rightarrow> entity_publish (services_ops (le_services E)) (entity_topic (el_entity e) ''state'') ''closed'' adapter_pubopts
      | _ \<Rightarrow> co_return no_error) (el_entity e) = Some (Inr x, s')"
  shows "if le_hash E st = rn_hatch_seen r i then loop_step E (Poll_step n) r = Some r
    else \<exists>r1 r2. loop_step E (Poll_step n) r = Some r1 \<and> length (rn_tasks r1) = Suc (length (rn_tasks r))
      \<and> loop_step E (Task_step (length (rn_tasks r))) r1 = Some r2
      \<and> rn_tasks r2 = rn_tasks r \<and> rn_failure r2 = rn_failure r \<and> rn_world r2 = rn_world r
      \<and> rn_hatch_seen r2 = (rn_hatch_seen r)(i := le_hash E st)
      \<and> elements (rn_hatches r2) = map (\<lambda>y. if el_device y = i then y\<lparr>el_entity := s'\<rparr> else y) (elements (rn_hatches r))"
proof -
  from running_program_inv [OF assms(1-3)] obtain ds hi where inv: "loop_inv ((Board_kind, 1) # ds) p (devices_of ((Board_kind, 1) # ds)) no_devices r"
    and all: "all_announced ((Board_kind, 1) # ds) hi p" by blast
  have "distinct (map snd ((Board_kind, 1) # ds))" using all unfolding all_announced_def by blast
  from occupied_distinct [OF inv this] have dist: "distinct (map el_device (elements (rn_hatches r)))" by simp
  have bus: "rn_bus r = ha_bus" and pol: "pf_polling (rn_platform r) = pf_polling p" using inv by (simp_all add: loop_inv_def)
  note poll = hatch_poll_step [OF bus assms(4-6) [folded pol] assms(7,8), of E]
  show ?thesis
  proof (cases "le_hash E st = rn_hatch_seen r i")
    case True
    with poll show ?thesis by simp
  next
    case False
    let ?q = "r\<lparr>rn_hatch_seen := (rn_hatch_seen r)(i := le_hash E st)\<rparr>"
    from poll False obtain t where r1: "loop_step E (Poll_step n) r = Some (?q\<lparr>rn_tasks := rn_tasks ?q @ [t]\<rparr>)"
      and t: "spawned_handler t = Hatch_event_handler" "task_event t = Device_state_changed Hatch_kind i" by auto
    have ops: "services_ops (loop_services E q) = services_ops (le_services E)" for q
      by (simp add: services_ops_def loop_services_def)
    have "sync_state (hatch_of (loop_services E ?q) i (el_identity e)) \<lparr>adapted_entity = el_entity e, world = rn_world r\<rparr>
        = Some (Inr (), \<lparr>adapted_entity = s', world = rn_world r\<rparr>)"
      unfolding hatch_sync [OF assms(11,7,8)] ops using assms(12)
      by (cases st) (simp_all add: co_bind_def on_entity_def co_return_def)
    from sync_first_only [where I = "hatch_of (loop_services E ?q)", OF dist assms(9,10) this]
    have "hatch_state_changed (loop_services E ?q) i ((rn_hatches ?q)\<lparr>handler_world := rn_world ?q\<rparr>)
      = Some (Inr (), (rn_hatches r)\<lparr>elements := map (\<lambda>y. if el_device y = i then y\<lparr>el_entity := s'\<rparr> else y)
          (elements (rn_hatches r)), handler_world := rn_world r\<rparr>)"
      by (simp add: hatch_state_changed_def device_state_changed_def rn_world_def)
    from last_task_step [OF this t] r1 False show ?thesis by (simp add: rethrow_def)
  qed
qed

theorem changed_hatch_reaches_home_assistant_witness:
  "\<exists>c p cs r r1 r2. mgmt_main example_json (\<lambda>_. None) id [''mgmt'', ''/config.json''] example_disk_files = Some (Started c p cs)
    \<and> loop_reachable example_loop (running_start example_loop p cs) r
    \<and> loop_step example_loop (Poll_step 1) r = Some r1
    \<and> loop_step example_loop (Task_step (length (rn_tasks r))) r1 = Some r2 \<and> rn_failure r2 = rn_failure r"
proof -
  from example_reached obtain c p cs r h e x s where
    run: "mgmt_main example_json (\<lambda>_. None) id [''mgmt'', ''/config.json''] example_disk_files = Some (Started c p cs)"
      "loop_reachable example_loop (running_start example_loop p cs) r"
    and pol: "map (\<lambda>e. (poller_kind e, poller_device e)) (pollers (pf_polling p)) =
      [(Board_kind, 1), (Hatch_kind, 2), (Temp_sensor_kind, 3)]"
    and seen: "rn_hatch_seen r 2 = 0"
    and h: "world_hatches (rn_world r) 2 = Some h"
      "hatch_status h (world_fs (rn_world r)) = Some (Inr Hatch_open, world_fs (rn_world r))"
    and e: "elements (rn_hatches r) = [e]" "el_device e = 2" "is_cover (el_entity e)"
    and pub: "entity_publish (services_ops (le_services example_loop)) (entity_topic (el_entity e) ''state'') ''open''
      adapter_pubopts (el_entity e) = Some (Inr x, s)"
    by (elim exE conjE) (rule that)
  from pol have n: "1 < length (pollers (pf_polling p))" "poller_kind (pollers (pf_polling p) ! 1) = Hatch_kind"
    "poller_device (pollers (pf_polling p) ! 1) = 2" by (auto simp: map_eq_Cons_conv)
  have "le_hash example_loop Hatch_open \<noteq> rn_hatch_seen r 2" using seen by (simp add: example_loop_def)
  moreover have "e \<in> set (elements (rn_hatches r))" using e(1) by simp
  from changed_hatch_reaches_home_assistant [OF run(1) example_calm run(2) n h this e(2,3), of x s] pub
  have "if le_hash example_loop Hatch_open = rn_hatch_seen r 2 then True else
      \<exists>r1 r2. loop_step example_loop (Poll_step 1) r = Some r1
        \<and> loop_step example_loop (Task_step (length (rn_tasks r))) r1 = Some r2 \<and> rn_failure r2 = rn_failure r"
    by (auto simp del: loop_step.simps split: if_splits)
  ultimately obtain r1 r2 where "loop_step example_loop (Poll_step 1) r = Some r1"
    "loop_step example_loop (Task_step (length (rn_tasks r))) r1 = Some r2" "rn_failure r2 = rn_failure r"
    by (auto simp del: loop_step.simps)
  with run show ?thesis by blast
qed

text \<open>C33: A hatch whose status cannot be read, or reads as no known word, ends the whole program at its next
  poll: the exception leaves the coroutine of the poller, is rethrown out of the loop, and nothing
  runs any more, though no coroutine was spawned and no other lost.\<close>

theorem failed_reading_ends_the_program:
  assumes "n < length (pollers (pf_polling (rn_platform r)))"
    and "poller_kind (pollers (pf_polling (rn_platform r)) ! n) = Hatch_kind"
    and "world_hatches (rn_world r) (poller_device (pollers (pf_polling (rn_platform r)) ! n)) = Some h"
    and "hatch_status h (world_fs (rn_world r)) = Some (Inl x, f)"
  shows "\<exists>r'. loop_step E (Poll_step n) r = Some r' \<and> rn_failure r' = Some x \<and> rn_tasks r' = rn_tasks r
    \<and> (\<forall>q. loop_reachable E r' q = (q = r'))"
proof -
  let ?i = "poller_device (pollers (pf_polling (rn_platform r)) ! n)"
  let ?p = "\<lparr>last_seen = rn_hatch_seen r ?i, polled_world = rn_world r, published = []\<rparr>"
  have "hatch_current_hash (le_hash E) ?i (polled_world ?p) = Some (Inl x, (rn_world r)\<lparr>world_fs := f\<rparr>)"
    using assms(3,4) by (simp add: hatch_current_hash_def co_bind_def device_at_def inventory_get_def on_fs_def)
  from poll_once_throws [where p = ?p and current = "hatch_current_hash (le_hash E) ?i", OF this]
  have "poll_hatch (le_hash E) ?i ?p = Some (Inl x, ?p\<lparr>polled_world := (rn_world r)\<lparr>world_fs := f\<rparr>\<rparr>)"
    by (simp add: poll_hatch_def)
  then obtain r' where r': "loop_step E (Poll_step n) r = Some r'" "rn_failure r' = Some x" "rn_tasks r' = rn_tasks r"
    using assms(1,2) by (simp add: poll_device_def run_poll_def spawn_published_def rethrow_def)
  have "q = r'" if "loop_reachable E r' q" for q
    using that r'(2) by (induction rule: loop_reachable.induct) auto
  with r' loop_start show ?thesis by blast
qed

theorem failed_reading_ends_the_program_witness:
  "\<exists>r r' :: (in_packet list, unit) running_program. loop_step example_loop (Poll_step 0) r = Some r'
    \<and> rn_failure r = None \<and> rn_failure r' = Some (attribute_missing ''h/status'')"
proof -
  let ?w = "example_world\<lparr>world_fs := (world_fs example_world)\<lparr>files := Map.empty\<rparr>\<rparr>"
  let ?p = "(new_platform (world_fs ?w))\<lparr>pf_world := ?w, pf_polling :=
      \<lparr>pollers = [\<lparr>poller_device = 1, poller_interval = 2000, poller_kind = Hatch_kind\<rparr>], started = [1]\<rparr>\<rparr>"
  let ?r = "running_start example_loop ?p []"
  have "hatch_status \<lparr>hatch_dir = ''h''\<rparr> (world_fs (rn_world ?r)) = Some (Inl (attribute_missing ''h/status''), world_fs (rn_world ?r))"
    by (simp add: hatch_status_def co_bind_def read_attr_def open_in_def path_join_def running_start_def rn_world_def)
  moreover have "0 < length (pollers (pf_polling (rn_platform ?r)))"
    "poller_kind (pollers (pf_polling (rn_platform ?r)) ! 0) = Hatch_kind"
    "world_hatches (rn_world ?r) (poller_device (pollers (pf_polling (rn_platform ?r)) ! 0)) = Some \<lparr>hatch_dir = ''h''\<rparr>"
    by (simp_all add: running_start_def rn_world_def example_world_def)
  ultimately obtain r' where "loop_step example_loop (Poll_step 0) ?r = Some r'"
    "rn_failure r' = Some (attribute_missing ''h/status'')"
    using failed_reading_ends_the_program [of 0 ?r "\<lparr>hatch_dir = ''h''\<rparr>" _ _ example_loop] by blast
  moreover have "rn_failure ?r = None" by (simp add: running_start_def)
  ultimately show ?thesis by blast
qed

text \<open>C4: A command of Home Assistant reaches the hatch: at any point of the run, a round of the run of a
  hatch that receives open or close on its command topic writes that word into the position attribute of
  this hatch and into no other file, stop writes nothing; no other entity is touched, nothing is
  spawned, and the program goes on.\<close>

theorem command_reaches_the_hatch:
  assumes "mgmt_main L sink moved argv w = Some (Started c p cs)" and "calm (le_services E)"
    and "loop_reachable E (running_start E p cs) r"
    and "e \<in> set (elements (rn_hatches r))" and "is_cover (el_entity e)"
    and "entity_receive (services_ops (le_services E)) (sv_fuel (le_services E)) (el_entity e) = Some (Inr (Inr q), s')"
    and "publish_topic q = entity_topic s' ''set''"
    and "publish_payload q = (case cmd of Command_open \<Rightarrow> ''open'' | Command_close \<Rightarrow> ''close'' | Command_stop \<Rightarrow> ''stop'')"
    and "world_hatches (rn_world r) (el_device e) = Some h"
    and "hatch_status h (world_fs (rn_world r)) = Some (Inr st, world_fs (rn_world r))"
    and "keeps_writes (world_fs (rn_world r)) (path_join (hatch_dir h) ''change_position'')"
  shows "\<exists>r' f. loop_step E (Hatch_round (el_address e)) r = Some r' \<and> rn_failure r' = rn_failure r
    \<and> rn_tasks r' = rn_tasks r \<and> rn_world r' = (rn_world r)\<lparr>world_fs := f\<rparr>
    \<and> elements (rn_hatches r') = map (\<lambda>y. if el_address y = el_address e then y\<lparr>el_entity := s'\<rparr> else y)
        (elements (rn_hatches r))
    \<and> (if cmd = Command_stop then f = world_fs (rn_world r)
       else read_attr (path_join (hatch_dir h) ''change_position'') f = Some (Inr (publish_payload q), f)
         \<and> (\<forall>a. a \<noteq> path_join (hatch_dir h) ''change_position'' \<longrightarrow> files f a = files (world_fs (rn_world r)) a))"
proof -
  let ?p = "path_join (hatch_dir h) ''change_position''"
  from running_program_inv [OF assms(1-3)] obtain ds where inv: "loop_inv ((Board_kind, 1) # ds) p (devices_of ((Board_kind, 1) # ds)) no_devices r" by blast
  then have "all_alive (rn_hatches r)" by (simp add: loop_inv_def)
  from alive_addresses [OF this] assms(4) have alive: "distinct (map el_address (elements (rn_hatches r)))"
    "el_address e \<in> set (running (rn_hatches r))" by blast+
  have ops: "services_ops (loop_services E r) = services_ops (le_services E)" "sv_fuel (loop_services E r) = sv_fuel (le_services E)"
    by (simp_all add: services_ops_def loop_services_def)
  from hatch_command [where V = "loop_services E r" and d = "el_identity e", OF assms(5) _ assms(7-11)] assms(6) obtain f where
    run: "run_round (hatch_of (loop_services E r) (el_device e) (el_identity e))
      \<lparr>adapted_entity = el_entity e, world = rn_world r\<rparr> = Some (Inr (), \<lparr>adapted_entity = s', world = (rn_world r)\<lparr>world_fs := f\<rparr>\<rparr>)"
    and f: "if cmd = Command_stop then f = world_fs (rn_world r)
       else read_attr ?p f = Some (Inr (publish_payload q), f) \<and> (\<forall>a. a \<noteq> ?p \<longrightarrow> files f a = files (world_fs (rn_world r)) a)"
    unfolding ops by blast
  from round_at_only [where I = "hatch_of (loop_services E r)", OF alive(1) assms(4) run] alive(2)
  have "loop_step E (Hatch_round (el_address e)) r = Some (set_world ((rn_world r)\<lparr>world_fs := f\<rparr>) (r\<lparr>rn_hatches :=
      (rn_hatches r)\<lparr>elements := map (\<lambda>y. if el_address y = el_address e then y\<lparr>el_entity := s'\<rparr> else y)
        (elements (rn_hatches r)), handler_world := (rn_world r)\<lparr>world_fs := f\<rparr>\<rparr>\<rparr>))"
    by (simp add: on_hatches_def device_round_def rethrow_def)
  then show ?thesis using f by (intro exI [of _ f] exI conjI) (assumption | simp)+
qed

theorem command_reaches_the_hatch_witness:
  "\<exists>c p cs r r' a. mgmt_main example_json (\<lambda>_. None) id [''mgmt'', ''/config.json''] example_disk_files = Some (Started c p cs)
    \<and> loop_reachable example_loop (running_start example_loop p cs) r \<and> loop_step example_loop (Hatch_round a) r = Some r'
    \<and> rn_failure r' = rn_failure r
    \<and> read_attr ''/sys/hatch/change_position'' (world_fs (rn_world r')) = Some (Inr ''close'', world_fs (rn_world r'))"
proof -
  from example_reached obtain c p cs r h e q t where
    run: "mgmt_main example_json (\<lambda>_. None) id [''mgmt'', ''/config.json''] example_disk_files = Some (Started c p cs)"
      "loop_reachable example_loop (running_start example_loop p cs) r"
    and h: "world_hatches (rn_world r) 2 = Some h" "hatch_dir h = ''/sys/hatch''"
      "hatch_status h (world_fs (rn_world r)) = Some (Inr Hatch_open, world_fs (rn_world r))"
    and e: "elements (rn_hatches r) = [e]" "el_device e = 2" "is_cover (el_entity e)"
    and q: "entity_receive (services_ops (le_services example_loop)) (sv_fuel (le_services example_loop)) (el_entity e)
        = Some (Inr (Inr q), t)" "publish_topic q = entity_topic t ''set''" "publish_payload q = ''close''"
    and keep: "keeps_writes (world_fs (rn_world r)) (path_join (hatch_dir h) ''change_position'')"
    by (elim exE conjE) (rule that)
  have "e \<in> set (elements (rn_hatches r))" "world_hatches (rn_world r) (el_device e) = Some h"
    "publish_payload q = (case Command_close of Command_open \<Rightarrow> ''open'' | Command_close \<Rightarrow> ''close'' | Command_stop \<Rightarrow> ''stop'')"
    using e h(1) q(3) by simp_all
  from command_reaches_the_hatch [OF run(1) example_calm run(2) this(1) e(3) q(1,2) this(3,2) h(3) keep]
  obtain r' f where r': "loop_step example_loop (Hatch_round (el_address e)) r = Some r'" "rn_failure r' = rn_failure r"
    "rn_world r' = (rn_world r)\<lparr>world_fs := f\<rparr>"
    and f: "read_attr (path_join (hatch_dir h) ''change_position'') f = Some (Inr (publish_payload q), f)"
    by auto
  from f h(2) q(3) r'(3) have "read_attr ''/sys/hatch/change_position'' (world_fs (rn_world r'))
      = Some (Inr ''close'', world_fs (rn_world r'))" by (simp add: path_join_def)
  with run r' show ?thesis by blast
qed

text \<open>C5: A hatch that could not be set up when the event of its creation was handled, because the broker could
  not be reached in all ten attempts or refused its document or its subscription, is never served again,
  although its document may have reached Home Assistant: the program goes on as if nothing had happened, and at
  no later point, whatever the broker and the hatch do, does the program have an entity for it, a creation of it
  that waits for the broker, or an event that would create it; and the event of a change of it is handled
  without any effect.\<close>

theorem uncreated_hatch_is_lost:
  assumes "mgmt_main L sink moved argv w = Some (Started c p cs)" and "calm (le_services E)"
    and "loop_reachable E (running_start E p cs) r"
    and "n < length (rn_tasks r)" and "task_event (rn_tasks r ! n) = Device_created Hatch_kind i"
    and "hatch_create (loop_services E r) i (rn_world r) = Some (Inr None, w')"
  shows "\<exists>r1. loop_step E (Task_step n) r = Some r1 \<and> rn_failure r1 = rn_failure r
    \<and> (\<forall>r2. loop_reachable E r1 r2 \<longrightarrow>
        i \<notin> el_device ` set (elements (rn_hatches r2))
        \<and> (Hatch_kind, i) \<notin> (\<lambda>x. (ready_kind x, ready_id x)) ` set (rn_ready r2)
        \<and> Device_created Hatch_kind i \<notin> task_event ` set (rn_tasks r2)
        \<and> (\<forall>m < length (rn_tasks r2). task_event (rn_tasks r2 ! m) = Device_state_changed Hatch_kind i \<longrightarrow>
            (\<exists>r3. loop_step E (Task_step m) r2 = Some r3 \<and> elements (rn_hatches r3) = elements (rn_hatches r2)
              \<and> rn_world r3 = rn_world r2 \<and> rn_failure r3 = rn_failure r2)))"
proof -
  from running_program_inv [OF assms(1-3)] obtain ds hi where
    inv: "loop_inv ((Board_kind, 1) # ds) p (devices_of ((Board_kind, 1) # ds)) no_devices r"
    and all: "all_announced ((Board_kind, 1) # ds) hi p"
    and polled: "list_all (\<lambda>e. (poller_kind e, poller_device e) \<in> set ((Board_kind, 1) # ds)) (pollers (pf_polling p))"
    by blast
  have dist: "distinct (map snd ((Board_kind, 1) # ds))" using all unfolding all_announced_def by blast
  let ?c = "rn_tasks r ! n"
  let ?ts = "take n (rn_tasks r) @ drop (Suc n) (rn_tasks r)"
  let ?r1 = "set_world w' (r\<lparr>rn_tasks := ?ts\<rparr>)"
  have "good_task ((Board_kind, 1) # ds) ?c" using inv assms(4) by (simp add: loop_inv_def list_all_length)
  with assms(5) have "spawned_handler ?c = Hatch_event_handler" by (simp add: good_task_def)
  from uncreated_step [OF assms(4,5) this assms(6)] have step: "loop_step E (Task_step n) r = Some ?r1" .
  have inv1: "loop_inv ((Board_kind, 1) # ds) p (devices_of ((Board_kind, 1) # ds)) no_devices ?r1"
    by (rule loop_step_inv [OF inv assms(2) polled step])
  have "rn_tasks r = take n (rn_tasks r) @ ?c # drop (Suc n) (rn_tasks r)" using assms(4) by (rule id_take_nth_drop)
  from arg_cong [OF this, of "creations Hatch_kind"]
  have "creations Hatch_kind (rn_tasks r) = creations Hatch_kind ?ts + {#i#}"
    using assms(5) by (simp add: creations_def is_creation_def)
  moreover have "occupied ?r1 Hatch_kind = occupied r Hatch_kind" by (simp add: occupied_def handled_devices_def)
  ultimately have "count (occupied ?r1 Hatch_kind + creations Hatch_kind ?ts) i = 0"
    using handled_or_waiting_once [OF inv dist, of Hatch_kind i] by simp
  then have gone: "count (occupied ?r1 Hatch_kind + creations Hatch_kind (rn_tasks ?r1)) i = 0" by simp
  have "i \<notin> el_device ` set (elements (rn_hatches r2))
      \<and> (Hatch_kind, i) \<notin> (\<lambda>x. (ready_kind x, ready_id x)) ` set (rn_ready r2)
      \<and> Device_created Hatch_kind i \<notin> task_event ` set (rn_tasks r2)
      \<and> (\<forall>m < length (rn_tasks r2). task_event (rn_tasks r2 ! m) = Device_state_changed Hatch_kind i \<longrightarrow>
          (\<exists>r3. loop_step E (Task_step m) r2 = Some r3 \<and> elements (rn_hatches r3) = elements (rn_hatches r2)
            \<and> rn_world r3 = rn_world r2 \<and> rn_failure r3 = rn_failure r2))"
    if reach: "loop_reachable E ?r1 r2" for r2
  proof -
    from mset_subset_eq_count [OF devices_never_grow [OF inv1 assms(2) polled reach, of Hatch_kind], of i] gone
    have none: "count (occupied r2 Hatch_kind) i = 0" "count (creations Hatch_kind (rn_tasks r2)) i = 0" by simp_all
    from none(1) have absent: "i \<notin> el_device ` set (elements (rn_hatches r2))"
      by (simp add: occupied_def handled_devices_def count_eq_zero_iff)
    have "loop_inv ((Board_kind, 1) # ds) p (devices_of ((Board_kind, 1) # ds)) no_devices r2"
      by (rule reachable_loop_inv [OF reach inv1 assms(2) polled])
    then have good: "good_task ((Board_kind, 1) # ds) (rn_tasks r2 ! m)" if "m < length (rn_tasks r2)" for m
      using that by (simp add: loop_inv_def list_all_length)
    have "\<exists>r3. loop_step E (Task_step m) r2 = Some r3 \<and> elements (rn_hatches r3) = elements (rn_hatches r2)
            \<and> rn_world r3 = rn_world r2 \<and> rn_failure r3 = rn_failure r2"
      if m: "m < length (rn_tasks r2)" "task_event (rn_tasks r2 ! m) = Device_state_changed Hatch_kind i" for m
    proof -
      have "spawned_handler (rn_tasks r2 ! m) = Hatch_event_handler"
        using good [OF m(1)] by (simp add: good_task_def m(2))
      from absent_change_step [OF m this absent, of E] show ?thesis by (auto simp: rn_world_def)
    qed
    moreover have "Device_created Hatch_kind i \<notin> task_event ` set (rn_tasks r2)" using none(2) by (rule no_creations)
    moreover have "(Hatch_kind, i) \<notin> (\<lambda>x. (ready_kind x, ready_id x)) ` set (rn_ready r2)"
      using none(1) by (auto simp: occupied_def readied_def count_eq_zero_iff)
    ultimately show ?thesis using absent by blast
  qed
  with step show ?thesis by (intro exI [of _ ?r1]) simp
qed

text \<open>C6: A change of a hatch that is polled while the hatch is being created is lost: when the poll finds a new
  hash and its event is handled before the creation has resumed from its last publication, the handler
  finds no hatch and does nothing; the creation then adds the hatch with the entity that had announced
  the old state, and from then on a poll finds no change, so that Home Assistant keeps the old state.\<close>

theorem change_during_creation_is_lost:
  assumes "mgmt_main L sink moved argv w = Some (Started c p cs)" and "calm (le_services E)"
    and "loop_reachable E (running_start E p cs) r"
    and "n < length (pollers (pf_polling p))" and "poller_kind (pollers (pf_polling p) ! n) = Hatch_kind"
    and "poller_device (pollers (pf_polling p) ! n) = i"
    and "world_hatches (rn_world r) i = Some h"
    and "hatch_status h (world_fs (rn_world r)) = Some (Inr st, world_fs (rn_world r))"
    and "le_hash E st \<noteq> rn_hatch_seen r i"
    and "m < length (rn_ready r)" and "rn_ready r ! m = Hatch_ready i d s"
  shows "\<exists>r1 r2 r3 e. loop_step E (Poll_step n) r = Some r1 \<and> length (rn_tasks r1) = Suc (length (rn_tasks r))
    \<and> loop_step E (Task_step (length (rn_tasks r))) r1 = Some r2 \<and> elements (rn_hatches r2) = elements (rn_hatches r)
    \<and> loop_step E (Finish_step m) r2 = Some r3
    \<and> elements (rn_hatches r3) = elements (rn_hatches r) @ [e] \<and> el_device e = i \<and> el_entity e = s
    \<and> rn_tasks r3 = rn_tasks r \<and> rn_failure r3 = rn_failure r \<and> rn_world r3 = rn_world r
    \<and> loop_step E (Poll_step n) r3 = Some r3"
proof -
  from running_program_inv [OF assms(1-3)] obtain ds hi where inv: "loop_inv ((Board_kind, 1) # ds) p (devices_of ((Board_kind, 1) # ds)) no_devices r"
    and all: "all_announced ((Board_kind, 1) # ds) hi p" by blast
  have "distinct (map snd ((Board_kind, 1) # ds))" using all unfolding all_announced_def by blast
  from occupied_distinct [OF inv this] have "set (map el_device (elements (rn_hatches r))) \<inter> set (map ready_id (rn_ready r)) = {}"
    by auto
  moreover have "i \<in> set (map ready_id (rn_ready r))" using nth_mem [OF assms(10)] assms(11) by force
  ultimately have absent: "i \<notin> set (map el_device (elements (rn_hatches r)))" by blast
  have bus: "rn_bus r = ha_bus" and pol: "pf_polling (rn_platform r) = pf_polling p" using inv by (simp_all add: loop_inv_def)
  let ?q = "r\<lparr>rn_hatch_seen := (rn_hatch_seen r)(i := le_hash E st)\<rparr>"
  from hatch_poll_step [OF bus assms(4-6) [folded pol] assms(7,8), of E] assms(9) obtain t where
    r1: "loop_step E (Poll_step n) r = Some (?q\<lparr>rn_tasks := rn_tasks ?q @ [t]\<rparr>)"
    and t: "spawned_handler t = Hatch_event_handler" "task_event t = Device_state_changed Hatch_kind i" by auto
  have "hatch_state_changed (loop_services E ?q) i ((rn_hatches ?q)\<lparr>handler_world := rn_world ?q\<rparr>)
    = Some (Inr (), (rn_hatches r)\<lparr>handler_world := rn_world r\<rparr>)"
    by (simp add: hatch_state_changed_def device_state_changed_def rn_world_def sync_first_absent [OF absent])
  from last_task_step [OF this t] have r2: "loop_step E (Task_step (length (rn_tasks r))) (?q\<lparr>rn_tasks := rn_tasks ?q @ [t]\<rparr>)
      = Some (?q\<lparr>rn_hatches := (rn_hatches r)\<lparr>handler_world := rn_world r\<rparr>\<rparr>)"
    by (simp add: rethrow_def set_world_def rn_world_def)
  let ?r2 = "?q\<lparr>rn_hatches := (rn_hatches r)\<lparr>handler_world := rn_world r\<rparr>\<rparr>"
  let ?h = "spawn_back (push_back i d s ((rn_hatches r)\<lparr>handler_world := rn_world r\<rparr>))"
  let ?r3 = "?r2\<lparr>rn_ready := take m (rn_ready r) @ drop (Suc m) (rn_ready r), rn_hatches := ?h\<rparr>"
  have r3: "loop_step E (Finish_step m) ?r2 = Some ?r3"
    using assms(10,11) by (simp add: finish_creation_def on_hatches_def device_added_def co_return_def rethrow_def
      set_world_def rn_world_def push_back_def spawn_back_def)
  have "rn_bus ?r3 = ha_bus" "pf_polling (rn_platform ?r3) = pf_polling p" "world_hatches (rn_world ?r3) i = Some h"
    "hatch_status h (world_fs (rn_world ?r3)) = Some (Inr st, world_fs (rn_world ?r3))"
    using bus pol assms(7,8) by (simp_all add: rn_world_def)
  from hatch_poll_step [OF this(1) assms(4-6) [folded this(2)] this(3,4), of E]
  have "loop_step E (Poll_step n) ?r3 = Some ?r3" by simp
  with r1 r2 r3 show ?thesis
    by (intro exI [of _ "?q\<lparr>rn_tasks := rn_tasks ?q @ [t]\<rparr>"] exI [of _ ?r2] exI [of _ ?r3]
        exI [of _ "\<lparr>el_address = next_address (rn_hatches r), el_device = i, el_identity = d, el_entity = s\<rparr>"])
      (simp add: push_back_def spawn_back_def rn_world_def)
qed

text \<open>The hatch of the example opens while its creation, which announced it as closed, is suspended.\<close>

definition suspended_moves :: "loop_label list" where
  "suspended_moves = [Hardware (example_sys ''closed''), Task_step 1, Hardware (example_sys ''open'')]"

lemma suspended_runs:
  "case mgmt_main example_json (\<lambda>_. None) id [''mgmt'', ''/config.json''] example_disk_files of
     Some (Started c p cs) \<Rightarrow>
       map (\<lambda>e. (poller_kind e, poller_device e)) (pollers (pf_polling p)) = [(Board_kind, 1), (Hatch_kind, 2), (Temp_sensor_kind, 3)]
       \<and> (case loop_run example_loop suspended_moves (running_start example_loop p cs) of
          None \<Rightarrow> False
        | Some r \<Rightarrow>
            rn_hatch_seen r 2 = 0 \<and> (case world_hatches (rn_world r) 2 of None \<Rightarrow> False | Some h \<Rightarrow> hatch_dir h = ''/sys/hatch'')
            \<and> healthy (world_fs (rn_world r)) ''/sys/hatch/status'' ''open''
            \<and> elements (rn_hatches r) = []
            \<and> (case rn_ready r of [Hatch_ready i d s] \<Rightarrow> i = 2 | _ \<Rightarrow> False))
   | _ \<Rightarrow> False"
  by code_simp

theorem change_during_creation_is_lost_witness:
  "\<exists>c p cs r r1 r2 r3. mgmt_main example_json (\<lambda>_. None) id [''mgmt'', ''/config.json''] example_disk_files = Some (Started c p cs)
    \<and> loop_run example_loop suspended_moves (running_start example_loop p cs) = Some r
    \<and> loop_step example_loop (Poll_step 1) r = Some r1
    \<and> loop_step example_loop (Task_step (length (rn_tasks r))) r1 = Some r2
    \<and> loop_step example_loop (Finish_step 0) r2 = Some r3 \<and> length (elements (rn_hatches r3)) = 1
    \<and> loop_step example_loop (Poll_step 1) r3 = Some r3"
proof -
  obtain c p cs where start:
    "mgmt_main example_json (\<lambda>_. None) id [''mgmt'', ''/config.json''] example_disk_files = Some (Started c p cs)"
    using example_program_starts by (auto split: option.splits program_state.splits)
  note runs = suspended_runs [unfolded start option.case program_state.case]
  then obtain r where r: "loop_run example_loop suspended_moves (running_start example_loop p cs) = Some r"
    by (cases "loop_run example_loop suspended_moves (running_start example_loop p cs)") simp_all
  note runs = runs [unfolded r option.case]
  from runs obtain h where h: "world_hatches (rn_world r) 2 = Some h" "hatch_dir h = ''/sys/hatch''"
    by (cases "world_hatches (rn_world r) 2") simp_all
  from runs have "healthy (world_fs (rn_world r)) ''/sys/hatch/status'' ''open''" by blast
  then have st: "hatch_status h (world_fs (rn_world r)) = Some (Inr Hatch_open, world_fs (rn_world r))"
    by (intro healthy_hatch_open) (simp add: path_join_def h)
  from runs have "case rn_ready r of [Hatch_ready i d s] \<Rightarrow> i = 2 | _ \<Rightarrow> False" by blast
  then obtain d s where ready: "rn_ready r = [Hatch_ready 2 d s]"
    by (auto split: list.splits ready_device.splits)
  from runs have "map (\<lambda>e. (poller_kind e, poller_device e)) (pollers (pf_polling p))
      = [(Board_kind, 1), (Hatch_kind, 2), (Temp_sensor_kind, 3)]" by blast
  then have n: "1 < length (pollers (pf_polling p))" "poller_kind (pollers (pf_polling p) ! 1) = Hatch_kind"
    "poller_device (pollers (pf_polling p) ! 1) = 2" by (auto simp: map_eq_Cons_conv)
  from runs have "le_hash example_loop Hatch_open \<noteq> rn_hatch_seen r 2" "elements (rn_hatches r) = []"
    by (simp_all add: example_loop_def)
  moreover have "0 < length (rn_ready r)" "rn_ready r ! 0 = Hatch_ready 2 d s" by (simp_all add: ready)
  ultimately obtain r1 r2 r3 e where "loop_step example_loop (Poll_step 1) r = Some r1"
    "loop_step example_loop (Task_step (length (rn_tasks r))) r1 = Some r2"
    "loop_step example_loop (Finish_step 0) r2 = Some r3" "elements (rn_hatches r3) = [e]"
    "loop_step example_loop (Poll_step 1) r3 = Some r3"
    using change_during_creation_is_lost [OF start example_calm loop_run_reachable [OF loop_start r] n h(1) st,
        where m = 0 and d = d and s = s] by (simp del: loop_step.simps) blast
  with start r show ?thesis
    by (intro exI [of _ c] exI [of _ p] exI [of _ cs] exI [of _ r] exI [of _ r1] exI [of _ r2] exI [of _ r3]) (simp del: loop_step.simps)
qed

text \<open>C7: No device is forgotten: at any point of the run each device that is polled, which is every device the
  platform has, waits for its creation to be handled, or is created and about to be moved into its
  handler, or has its entity or board there, unless some earlier step handled its creation and that
  failed.\<close>

theorem every_device_is_accounted_for:
  assumes "mgmt_main L sink moved argv w = Some (Started c p cs)" and "calm (le_services E)"
    and "loop_reachable E (running_start E p cs) r"
    and "(k, i) \<in> (\<lambda>e. (poller_kind e, poller_device e)) ` set (pollers (pf_polling p))"
  shows "Device_created k i \<in> task_event ` set (rn_tasks r)
    \<or> (k, i) \<in> (\<lambda>x. (ready_kind x, ready_id x)) ` set (rn_ready r)
    \<or> (case k of
         Board_kind \<Rightarrow> map_option fst (handled_board (rn_board r)) = Some i
       | Hatch_kind \<Rightarrow> i \<in> el_device ` set (elements (rn_hatches r))
       | Temp_sensor_kind \<Rightarrow> i \<in> el_device ` set (elements (rn_temps r)))
    \<or> (\<exists>r0 l r1. loop_reachable E (running_start E p cs) r0 \<and> loop_step E l r0 = Some r1 \<and> loop_reachable E r1 r
         \<and> creation_fails E r0 l k i)"
proof -
  obtain ds hi where
    inv: "loop_inv ((Board_kind, 1) # ds) p (devices_of ((Board_kind, 1) # ds)) no_devices (running_start E p cs)"
    and "all_announced ((Board_kind, 1) # ds) hi p" and kinds: "Board_kind \<notin> set (map fst ds)"
    and pol: "map (\<lambda>e. (poller_kind e, poller_device e)) (pollers (pf_polling p)) = (Board_kind, 1) # ds"
    and cs: "\<And>k. creations k cs = devices_of ((Board_kind, 1) # ds) k"
    using program_start_inv [OF assms(1), where E = E] that by blast
  have "rn_tasks (running_start E p cs) = cs" by (simp add: running_start_def)
  moreover have "(k, i) \<in> set ((Board_kind, 1) # ds)" using assms(4) unfolding pol [symmetric] by simp
  ultimately have "i \<in># occupied (running_start E p cs) k + creations k (rn_tasks (running_start E p cs))"
    using cs by (force simp: devices_of_def)
  from reachable_conserves [OF assms(3) inv kinds assms(2) polled_devices [OF pol] this] show ?thesis
  proof
    assume "i \<in># occupied r k + creations k (rn_tasks r)"
    then consider "i \<in># creations k (rn_tasks r)" | "i \<in># readied k (rn_ready r)"
      | "i \<in># (case k of Board_kind \<Rightarrow> board_devices (rn_board r) | Hatch_kind \<Rightarrow> handled_devices (rn_hatches r)
          | Temp_sensor_kind \<Rightarrow> handled_devices (rn_temps r))" by (auto simp: occupied_def)
    then show ?thesis
    proof cases
      case 1
      with in_creations show ?thesis by blast
    next
      case 2
      with in_readied show ?thesis by blast
    next
      case 3
      then show ?thesis
        by (auto simp: board_devices_def handled_devices_def split: device_kind.splits option.splits)
    qed
  qed blast
qed

theorem every_device_is_accounted_for_witness:
  "\<exists>c p cs r. mgmt_main example_json (\<lambda>_. None) id [''mgmt'', ''/config.json''] example_disk_files = Some (Started c p cs)
    \<and> loop_run example_loop suspended_moves (running_start example_loop p cs) = Some r
    \<and> (Device_created Temp_sensor_kind 3 \<in> task_event ` set (rn_tasks r)
      \<or> (Temp_sensor_kind, 3) \<in> (\<lambda>x. (ready_kind x, ready_id x)) ` set (rn_ready r)
      \<or> 3 \<in> el_device ` set (elements (rn_temps r))
      \<or> (\<exists>r0 l. creation_fails example_loop r0 l Temp_sensor_kind 3))"
proof -
  obtain c p cs where start:
    "mgmt_main example_json (\<lambda>_. None) id [''mgmt'', ''/config.json''] example_disk_files = Some (Started c p cs)"
    using example_program_starts by (auto split: option.splits program_state.splits)
  note runs = suspended_runs [unfolded start option.case program_state.case]
  then obtain r where r: "loop_run example_loop suspended_moves (running_start example_loop p cs) = Some r"
    by (cases "loop_run example_loop suspended_moves (running_start example_loop p cs)") simp_all
  from runs have "map (\<lambda>e. (poller_kind e, poller_device e)) (pollers (pf_polling p))
      = [(Board_kind, 1), (Hatch_kind, 2), (Temp_sensor_kind, 3)]" by blast
  from arg_cong [OF this, of set]
  have "(Temp_sensor_kind, 3) \<in> (\<lambda>e. (poller_kind e, poller_device e)) ` set (pollers (pf_polling p))" by simp
  from every_device_is_accounted_for [OF start example_calm loop_run_reachable [OF loop_start r] this] start r
  show ?thesis by (intro exI [of _ c] exI [of _ p] exI [of _ cs] exI [of _ r]) auto
qed

text \<open>The same program with a broker that refuses the subscription to the commands.\<close>

definition refusing_loop :: "(in_packet list, unit) loop_env" where
  "refusing_loop = example_loop\<lparr>le_services := example_services
     [Connack False 0, Puback 7, Suback \<lparr>suback_id = 7, suback_entries = [Suback_failure]\<rparr>]\<rparr>"

lemma refusing_calm: "calm (le_services refusing_loop)"
  by (simp add: calm_def refusing_loop_def example_services_def co_keeps_return)

lemma refused_creation:
  "case mgmt_main example_json (\<lambda>_. None) id [''mgmt'', ''/config.json''] example_disk_files of
     Some (Started c p cs) \<Rightarrow>
       (case cs of
          [a, t, b] \<Rightarrow>
            (case task_event t of
               Device_created Hatch_kind j \<Rightarrow>
                (case hatch_create (loop_services refusing_loop (running_start refusing_loop p cs)) j
                    (rn_world (running_start refusing_loop p cs)) of
                   Some (Inr None, w) \<Rightarrow> True | _ \<Rightarrow> False)
             | _ \<Rightarrow> False)
        | _ \<Rightarrow> False)
   | _ \<Rightarrow> False"
  by code_simp

theorem uncreated_hatch_is_lost_witness:
  "\<exists>c p cs i r1. mgmt_main example_json (\<lambda>_. None) id [''mgmt'', ''/config.json''] example_disk_files = Some (Started c p cs)
    \<and> loop_step refusing_loop (Task_step 1) (running_start refusing_loop p cs) = Some r1 \<and> rn_failure r1 = None
    \<and> i \<notin> el_device ` set (elements (rn_hatches r1))"
proof -
  obtain c p cs where start:
    "mgmt_main example_json (\<lambda>_. None) id [''mgmt'', ''/config.json''] example_disk_files = Some (Started c p cs)"
    using example_program_starts by (auto split: option.splits program_state.splits)
  let ?s = "running_start refusing_loop p cs"
  note created = refused_creation [unfolded start option.case program_state.case]
  obtain a t b where cs: "cs = [a, t, b]" using created by (auto split: list.splits)
  note created = created [unfolded cs list.case, folded cs]
  obtain j where j: "task_event t = Device_created Hatch_kind j"
    using created by (auto split: device_event.splits device_kind.splits)
  note created = created [unfolded j device_event.case device_kind.case]
  obtain w where w: "hatch_create (loop_services refusing_loop ?s) j (rn_world ?s) = Some (Inr None, w)"
    using created by (auto split: option.splits prod.splits sum.splits)
  have "1 < length (rn_tasks ?s)" "task_event (rn_tasks ?s ! 1) = Device_created Hatch_kind j"
    by (simp_all add: running_start_def cs j)
  from uncreated_hatch_is_lost [OF start refusing_calm loop_start this w] obtain r1 where
    r1: "loop_step refusing_loop (Task_step 1) ?s = Some r1" "rn_failure r1 = rn_failure ?s"
      "j \<notin> el_device ` set (elements (rn_hatches r1))" using loop_start by blast
  moreover have "rn_failure ?s = None" by (simp add: running_start_def)
  ultimately show ?thesis using start by metis
qed

end
