(* ===== verification/Task_Store.thy ===== *)
theory Task_Store
  imports Sysfs Json
begin

text \<open>
  The store of scheduled tasks (\<^verbatim>\<open>scheduler/task_store.hpp\<close>, \<^verbatim>\<open>scheduler/file_task_store.cpp\<close>): a list
  in memory, written to a JSON file after every change and read back from it. The UUID library is
  the record \<open>uuid_lib\<close> over the type of identifiers.
\<close>

record 'u uuid_lib =
  uuid_to_string :: "'u \<Rightarrow> string"
  uuid_from_string :: "string \<Rightarrow> 'u result"
  uuid_name_sha1 :: "string \<Rightarrow> 'u"

text \<open>The documented round trip of identifiers, which are printed as 36 ASCII characters.\<close>

definition uuid_round_trip :: "'u uuid_lib \<Rightarrow> bool" where
  "uuid_round_trip U \<longleftrightarrow> (\<forall>u. uuid_from_string U (uuid_to_string U u) = Inr u)"

record 'u task_entity =
  entity_id :: 'u
  entity_owner :: string
  entity_timestamp :: int

section \<open>Entities as JSON\<close>

definition task_to_json :: "'u uuid_lib \<Rightarrow> 'u task_entity \<Rightarrow> json" where
  "task_to_json U t = J_object
     [(''id'', J_string (uuid_to_string U (entity_id t))), (''owner'', J_string (entity_owner t)),
      (''timestamp'', J_int (entity_timestamp t))]"

definition task_from_json :: "'u uuid_lib \<Rightarrow> json \<Rightarrow> 'u task_entity result" where
  "task_from_json U j =
     result_bind (as_object j) (\<lambda>obj.
     result_bind (result_bind (result_bind (object_at obj ''id'') value_to_string) (uuid_from_string U)) (\<lambda>i.
     result_bind (result_bind (object_at obj ''owner'') value_to_string) (\<lambda>ow.
     result_bind (result_bind (object_at obj ''timestamp'') value_to_int64) (\<lambda>ts.
       Inr \<lparr>entity_id = i, entity_owner = ow, entity_timestamp = ts\<rparr>))))"

fun result_list :: "('a \<Rightarrow> 'b result) \<Rightarrow> 'a list \<Rightarrow> 'b list result" where
  "result_list f [] = Inr []"
| "result_list f (x # xs) = result_bind (f x) (\<lambda>y. result_map (Cons y) (result_list f xs))"

section \<open>The store\<close>

record 'u file_store =
  filepath :: string
  cached_tasks :: "'u task_entity list"
  disk :: fs

type_synonym ('u, 'a) store_op = "('u file_store, 'a) co"

text \<open>The chunks of the file are fed to the parser; a read error is never the end of the file.\<close>

definition store_load :: "json_lib \<Rightarrow> 'u uuid_lib \<Rightarrow> ('u, unit) store_op" where
  "store_load L U = (\<lambda>s.
     case open_in (filepath s) (disk s) of
       None \<Rightarrow> Some (Inl (Runtime_error ''Error while reading file.''), s)
     | Some st \<Rightarrow>
         if broken st then None
         else case json_parse L (rest st) of
           Inl x \<Rightarrow> Some (Inl (Runtime_error (if json_incomplete L (rest st)
               then ''Error while parsing file. File may be malformed.'' else ''Error while reading file.'')), s)
         | Inr j \<Rightarrow>
             (case result_bind (as_array j) (result_list (task_from_json U)) of
                Inl x \<Rightarrow> Some (Inl x, s)
              | Inr ts \<Rightarrow> Some (Inr (), s\<lparr>cached_tasks := ts\<rparr>)))"

definition store_store :: "json_lib \<Rightarrow> 'u uuid_lib \<Rightarrow> ('u, unit) store_op" where
  "store_store L U = (\<lambda>s.
     case write_attr (filepath s)
         (json_serialize L (J_array (map (task_to_json U) (cached_tasks s)))) (disk s) of
       (Inl x, w) \<Rightarrow> Some (Inl (Runtime_error ''Error while writing to file.''), s\<lparr>disk := w\<rparr>)
     | (Inr y, w) \<Rightarrow> Some (Inr (), s\<lparr>disk := w\<rparr>))"

definition open_store :: "json_lib \<Rightarrow> 'u uuid_lib \<Rightarrow> string \<Rightarrow> fs \<Rightarrow> (unit result \<times> 'u file_store) option" where
  "open_store L U path w =
     (let s = \<lparr>filepath = path, cached_tasks = [], disk = w\<rparr> in
      if fs_exists w path then store_load L U s
      else co_bind (store_store L U) (\<lambda>_. store_load L U)
             (s\<lparr>disk := snd (write_attr path '''' w)\<rparr>))"

definition has_id :: "'u \<Rightarrow> 'u task_entity \<Rightarrow> bool" where
  "has_id i t \<longleftrightarrow> entity_id t = i"

definition store_add :: "json_lib \<Rightarrow> 'u uuid_lib \<Rightarrow> 'u task_entity \<Rightarrow> ('u, unit) store_op" where
  "store_add L U e = (\<lambda>s.
     case List.find (has_id (entity_id e)) (cached_tasks s) of
       Some t \<Rightarrow> co_throw (Runtime_error ''ITask already exist.'') s
     | None \<Rightarrow>
         co_bind (store_store L U) (\<lambda>_. store_load L U) (s\<lparr>cached_tasks := cached_tasks s @ [e]\<rparr>))"

definition store_exist :: "'u \<Rightarrow> 'u file_store \<Rightarrow> bool" where
  "store_exist i s \<longleftrightarrow> List.find (has_id i) (cached_tasks s) \<noteq> None"

definition store_find :: "'u \<Rightarrow> 'u file_store \<Rightarrow> 'u task_entity option" where
  "store_find i s = List.find (has_id i) (cached_tasks s)"

definition store_remove :: "json_lib \<Rightarrow> 'u uuid_lib \<Rightarrow> 'u \<Rightarrow> ('u, unit) store_op" where
  "store_remove L U i = (\<lambda>s.
     case List.find (has_id i) (cached_tasks s) of
       None \<Rightarrow> co_throw (Runtime_error ''ITask does not exist'') s
     | Some t \<Rightarrow>
         co_bind (store_store L U) (\<lambda>_. store_load L U)
           (s\<lparr>cached_tasks := erase_first (has_id i) (cached_tasks s)\<rparr>))"

section \<open>The interface of a store\<close>

text \<open>
  What the scheduler relies on: a store is a finite map from identifiers to entities, of which it
  says whether an identifier is in it, and the entity if so; adding one that is there and removing
  one that is not are refused.
\<close>

locale task_store =
  fixes add :: "'u task_entity \<Rightarrow> ('s, unit) co"
    and exist :: "'u \<Rightarrow> 's \<Rightarrow> bool"
    and lookup :: "'u \<Rightarrow> 's \<Rightarrow> 'u task_entity option"
    and remove :: "'u \<Rightarrow> ('s, unit) co"
    and inv :: "'s \<Rightarrow> bool"
    and view :: "'s \<Rightarrow> 'u \<Rightarrow> 'u task_entity option"
    and can_hold :: "'u task_entity \<Rightarrow> bool"
    and room :: "'s \<Rightarrow> bool"
  assumes lookup_view: "inv s \<Longrightarrow> lookup i s = view s i"
    and exist_view: "inv s \<Longrightarrow> exist i s \<longleftrightarrow> view s i \<noteq> None"
    and view_id: "inv s \<Longrightarrow> view s i = Some e \<Longrightarrow> entity_id e = i"
    and view_can_hold: "inv s \<Longrightarrow> view s i = Some e \<Longrightarrow> can_hold e"
    and can_hold_timestamp: "can_hold e \<Longrightarrow> can_hold e' \<Longrightarrow>
      can_hold (e\<lparr>entity_timestamp := entity_timestamp e'\<rparr>)"
    and add_new: "inv s \<Longrightarrow> view s (entity_id e) = None \<Longrightarrow> can_hold e \<Longrightarrow> room s \<Longrightarrow>
      \<exists>s'. add e s = Some (Inr (), s') \<and> inv s' \<and> view s' = (view s)(entity_id e \<mapsto> e)"
    and add_old: "inv s \<Longrightarrow> view s (entity_id e) \<noteq> None \<Longrightarrow>
      add e s = Some (Inl (Runtime_error ''ITask already exist.''), s)"
    and remove_old: "inv s \<Longrightarrow> view s i \<noteq> None \<Longrightarrow>
      \<exists>s'. remove i s = Some (Inr (), s') \<and> inv s' \<and> view s' = (view s)(i := None) \<and> room s'"
    and remove_new: "inv s \<Longrightarrow> view s i = None \<Longrightarrow>
      remove i s = Some (Inl (Runtime_error ''ITask does not exist''), s)"
begin

text \<open>Taking an entity out and putting another one of its identifier in replaces it.\<close>

lemma replace:
  assumes "inv s" and "view s (entity_id e) \<noteq> None" and "can_hold e"
  shows "\<exists>s1 s'. remove (entity_id e) s = Some (Inr (), s1) \<and> inv s1 \<and> view s1 (entity_id e) = None
    \<and> room s1 \<and> add e s1 = Some (Inr (), s') \<and> inv s' \<and> view s' = (view s)(entity_id e \<mapsto> e)"
proof -
  from remove_old [OF assms(1,2)] obtain s1 where
    s1: "remove (entity_id e) s = Some (Inr (), s1)" "inv s1" "view s1 = (view s)(entity_id e := None)"
    "room s1"
    by blast
  then have "view s1 (entity_id e) = None" by simp
  from add_new [OF s1(2) this assms(3) s1(4)] obtain s2 where
    "add e s1 = Some (Inr (), s2)" "inv s2" "view s2 = (view s1)(entity_id e \<mapsto> e)" by blast
  with s1 show ?thesis by auto
qed

end

section \<open>The file store provides it\<close>

definition int64_range :: "'u task_entity \<Rightarrow> bool" where
  "int64_range t \<longleftrightarrow> - (2 ^ 63) \<le> entity_timestamp t \<and> entity_timestamp t < 2 ^ 63"

text \<open>
  What the file can hold: a timestamp of 64 bits and texts that survive the JSON file, and so many
  entities. The text of an identifier always does.
\<close>

definition storable :: "'u uuid_lib \<Rightarrow> 'u task_entity \<Rightarrow> bool" where
  "storable U t \<longleftrightarrow> int64_range t \<and> json_text (uuid_to_string U (entity_id t)) \<and> json_text (entity_owner t)"

definition store_room :: "'u file_store \<Rightarrow> bool" where
  "store_room s \<longleftrightarrow> length (cached_tasks s) < json_limit"

definition store_view :: "'u file_store \<Rightarrow> 'u \<Rightarrow> 'u task_entity option" where
  "store_view s i = List.find (has_id i) (cached_tasks s)"

definition store_inv :: "json_lib \<Rightarrow> 'u uuid_lib \<Rightarrow> 'u file_store \<Rightarrow> bool" where
  "store_inv L U s \<longleftrightarrow>
     json_round_trip L \<and> uuid_round_trip U \<and> distinct (map entity_id (cached_tasks s))
     \<and> list_all (storable U) (cached_tasks s) \<and> length (cached_tasks s) \<le> json_limit
     \<and> keeps_writes (disk s) (filepath s)"

lemma tasks_portable:
  assumes "list_all (storable U) ts" and "length ts \<le> json_limit"
  shows "json_portable (J_array (map (task_to_json U) ts))"
proof -
  have keys: "json_text ''id''" "json_text ''owner''" "json_text ''timestamp''"
    by (simp_all add: json_text_def utf8_ascii json_limit_def)
  have "json_fits 31 (J_object kvs) \<longleftrightarrow> length kvs \<le> json_limit \<and> distinct (map fst kvs)
      \<and> list_all (\<lambda>(k, j). json_text k \<and> json_fits 30 j) kvs" for kvs
    using json_fits.simps(8) [of 30 kvs] by simp
  then have "json_fits 31 (task_to_json U t)" if "storable U t" for t
    using that keys by (simp add: task_to_json_def storable_def int64_range_def json_limit_def)
  with assms show ?thesis by (auto simp: json_portable_array list_all_iff)
qed

lemma task_json_round_trip:
  "uuid_round_trip U \<Longrightarrow> int64_range t \<Longrightarrow> task_from_json U (task_to_json U t) = Inr t"
  by (cases t) (simp add: task_from_json_def task_to_json_def object_at_def uuid_round_trip_def int64_range_def)

lemma result_list_round_trip:
  "uuid_round_trip U \<Longrightarrow> list_all (storable U) ts \<Longrightarrow>
    result_list (task_from_json U) (map (task_to_json U) ts) = Inr ts"
  by (induction ts) (simp_all add: task_json_round_trip storable_def)

text \<open>Writing the list and reading it back gives it back, and leaves the file holding it.\<close>

lemma store_then_load:
  assumes "json_round_trip L" and "uuid_round_trip U" and "list_all (storable U) (cached_tasks s)"
    and "length (cached_tasks s) \<le> json_limit" and "keeps_writes (disk s) (filepath s)"
  shows "\<exists>w. co_bind (store_store L U) (\<lambda>_. store_load L U) s = Some (Inr (), s\<lparr>disk := w\<rparr>)
    \<and> keeps_writes w (filepath s) \<and> fs_exists w (filepath s)
    \<and> store_load L U (s\<lparr>disk := w, cached_tasks := []\<rparr>) = Some (Inr (), s\<lparr>disk := w\<rparr>)"
proof -
  let ?v = "json_serialize L (J_array (map (task_to_json U) (cached_tasks s)))"
  obtain w f where w: "write_attr (filepath s) ?v (disk s) = (Inr (), w)"
    and f: "files w (filepath s) = Some f" "opens_for_reading f" "\<not> reads_fail f" "content f = ?v"
    and keep: "keeps_writes w (filepath s)"
    using assms(5) by (cases "files (disk s) (filepath s)")
      (auto simp: keeps_writes_def write_attr_def regular_file_def)
  have load: "store_load L U (s\<lparr>disk := w, cached_tasks := ts\<rparr>) = Some (Inr (), s\<lparr>disk := w\<rparr>)" for ts
    using f json_round_tripD [OF assms(1) tasks_portable [OF assms(3,4)]] result_list_round_trip [OF assms(2,3)]
    by (simp add: store_load_def open_in_def)
  have "store_store L U s = Some (Inr (), s\<lparr>disk := w\<rparr>)" using w by (simp add: store_store_def)
  with load [of "cached_tasks s"] load [of "[]"] keep f(1) show ?thesis
    by (intro exI [of _ w]) (simp add: co_bind_def fs_exists_def)
qed

lemma store_view_iff:
  "distinct (map entity_id (cached_tasks s)) \<Longrightarrow>
    store_view s i = Some e \<longleftrightarrow> e \<in> set (cached_tasks s) \<and> entity_id e = i"
  unfolding store_view_def has_id_def [abs_def]
  using find_key_distinct [of entity_id "cached_tasks s" e] by (auto dest: find_Some_set)

lemma store_view_None: "store_view s i = None \<longleftrightarrow> i \<notin> entity_id ` set (cached_tasks s)"
  by (auto simp: store_view_def find_None_iff has_id_def)

lemma store_view_add:
  "store_view s (entity_id e) = None \<Longrightarrow>
    store_view (s\<lparr>cached_tasks := cached_tasks s @ [e], disk := w\<rparr>) = (store_view s)(entity_id e \<mapsto> e)"
  by (rule ext) (auto simp: store_view_def find_append has_id_def split: option.split)

lemma erase_has_id:
  "distinct (map entity_id ts) \<Longrightarrow> erase_first (has_id i) ts = filter (\<lambda>t. entity_id t \<noteq> i) ts"
  using erase_first_key_distinct [of entity_id ts "has_id i" i] by (simp add: has_id_def)

lemma find_filter_id:
  "List.find (has_id j) (filter (\<lambda>t. entity_id t \<noteq> i) ts) = (if j = i then None else List.find (has_id j) ts)"
  by (induction ts) (auto simp: has_id_def [abs_def])

lemma store_view_remove:
  "distinct (map entity_id (cached_tasks s)) \<Longrightarrow>
    store_view (s\<lparr>cached_tasks := erase_first (has_id i) (cached_tasks s), disk := w\<rparr>) = (store_view s)(i := None)"
  by (rule ext) (simp add: store_view_def erase_has_id find_filter_id)

lemma erase_shorter:
  assumes "store_view s i \<noteq> None" and "distinct (map entity_id (cached_tasks s))"
  shows "length (erase_first (has_id i) (cached_tasks s)) < length (cached_tasks s)"
proof -
  from assms(1) obtain t where "t \<in> set (cached_tasks s)" "\<not> entity_id t \<noteq> i" by (auto simp: store_view_None)
  then have "length (filter (\<lambda>t. entity_id t \<noteq> i) (cached_tasks s)) < length (cached_tasks s)"
    by (rule length_filter_less)
  with assms(2) show ?thesis by (simp add: erase_has_id)
qed

interpretation file_tasks: task_store "store_add L U" store_exist store_find "store_remove L U"
  "store_inv L U" store_view "storable U" store_room
proof
  show "storable U (e\<lparr>entity_timestamp := entity_timestamp e'\<rparr>)" if "storable U e" "storable U e'" for e e'
    using that by (simp add: storable_def int64_range_def)
next
  fix s :: "'a file_store" and i and e :: "'a task_entity"
  assume inv: "store_inv L U s"
  then have d: "distinct (map entity_id (cached_tasks s))" by (simp add: store_inv_def)
  show "store_find i s = store_view s i" by (simp add: store_find_def store_view_def)
  show "store_exist i s \<longleftrightarrow> store_view s i \<noteq> None" by (simp add: store_exist_def store_view_def)
  show "entity_id e = i" if "store_view s i = Some e" using that d by (simp add: store_view_iff)
  show "storable U e" if "store_view s i = Some e"
    using that d inv by (auto simp: store_view_iff store_inv_def list_all_iff)
  show "store_add L U e s = Some (Inl (Runtime_error ''ITask already exist.''), s)"
    if "store_view s (entity_id e) \<noteq> None"
    using that by (auto simp: store_add_def store_view_def co_throw_def)
  show "store_remove L U i s = Some (Inl (Runtime_error ''ITask does not exist''), s)"
    if "store_view s i = None"
    using that by (simp add: store_remove_def store_view_def co_throw_def)
  show "\<exists>s'. store_add L U e s = Some (Inr (), s') \<and> store_inv L U s'
      \<and> store_view s' = (store_view s)(entity_id e \<mapsto> e)"
    if new: "store_view s (entity_id e) = None"
      and range: "storable U e" "store_room s"
  proof -
    let ?s = "s\<lparr>cached_tasks := cached_tasks s @ [e]\<rparr>"
    have ok: "list_all (storable U) (cached_tasks ?s)" "length (cached_tasks ?s) \<le> json_limit"
      "keeps_writes (disk ?s) (filepath ?s)"
      using inv range by (simp_all add: store_inv_def store_room_def)
    from inv store_then_load [OF _ _ ok, of L] obtain w where
      w: "co_bind (store_store L U) (\<lambda>_. store_load L U) ?s = Some (Inr (), ?s\<lparr>disk := w\<rparr>)"
        "keeps_writes w (filepath s)" by (auto simp: store_inv_def)
    have "store_inv L U (?s\<lparr>disk := w\<rparr>)"
      using inv ok w(2) new by (auto simp: store_inv_def store_view_None)
    moreover have "store_view (?s\<lparr>disk := w\<rparr>) = (store_view s)(entity_id e \<mapsto> e)"
      by (rule store_view_add [OF new])
    moreover have "store_add L U e s = Some (Inr (), ?s\<lparr>disk := w\<rparr>)"
      using new w(1) by (simp add: store_add_def store_view_def)
    ultimately show ?thesis by blast
  qed
  show "\<exists>s'. store_remove L U i s = Some (Inr (), s') \<and> store_inv L U s'
      \<and> store_view s' = (store_view s)(i := None) \<and> store_room s'"
    if old: "store_view s i \<noteq> None"
  proof -
    let ?s = "s\<lparr>cached_tasks := erase_first (has_id i) (cached_tasks s)\<rparr>"
    have less: "length (cached_tasks ?s) < length (cached_tasks s)"
      using erase_shorter [of s i] old d by simp
    then have ok: "list_all (storable U) (cached_tasks ?s)" "length (cached_tasks ?s) \<le> json_limit"
      "keeps_writes (disk ?s) (filepath ?s)"
      using inv by (simp_all add: store_inv_def erase_has_id list_all_iff)
    from inv store_then_load [OF _ _ ok, of L] obtain w where
      w: "co_bind (store_store L U) (\<lambda>_. store_load L U) ?s = Some (Inr (), ?s\<lparr>disk := w\<rparr>)"
        "keeps_writes w (filepath s)" by (auto simp: store_inv_def)
    have "store_inv L U (?s\<lparr>disk := w\<rparr>)"
      using inv ok w(2) distinct_map_erase_first [OF d] by (simp add: store_inv_def)
    moreover have "store_room (?s\<lparr>disk := w\<rparr>)" using inv less by (simp add: store_room_def store_inv_def)
    moreover have "store_view (?s\<lparr>disk := w\<rparr>) = (store_view s)(i := None)"
      by (rule store_view_remove [OF d])
    moreover have "store_remove L U i s = Some (Inr (), ?s\<lparr>disk := w\<rparr>)"
      using old w(1) by (auto simp: store_remove_def store_view_def)
    ultimately show ?thesis by blast
  qed
qed

text \<open>A store that a later run of the program finds again.\<close>

definition saved :: "json_lib \<Rightarrow> 'u uuid_lib \<Rightarrow> 'u file_store \<Rightarrow> bool" where
  "saved L U s \<longleftrightarrow> open_store L U (filepath s) (disk s) = Some (Inr (), s)"

lemma write_back_saved:
  assumes "json_round_trip L" and "uuid_round_trip U" and "list_all (storable U) (cached_tasks s)"
    and "length (cached_tasks s) \<le> json_limit" and "keeps_writes (disk s) (filepath s)"
    and "co_bind (store_store L U) (\<lambda>_. store_load L U) s = Some (r, s')"
  shows "saved L U s'"
proof -
  obtain w where w: "co_bind (store_store L U) (\<lambda>_. store_load L U) s = Some (Inr (), s\<lparr>disk := w\<rparr>)"
    "fs_exists w (filepath s)"
    "store_load L U (s\<lparr>disk := w, cached_tasks := []\<rparr>) = Some (Inr (), s\<lparr>disk := w\<rparr>)"
    using store_then_load [OF assms(1-5)] by blast
  have "s\<lparr>disk := w, cached_tasks := []\<rparr> = \<lparr>filepath = filepath s, cached_tasks = [], disk = w\<rparr>"
    by (cases s) simp
  with w assms(6) show ?thesis by (simp add: saved_def open_store_def)
qed

lemma store_add_saved:
  assumes "store_inv L U s" and "storable U e" and "store_room s" and "store_view s (entity_id e) = None"
    and "store_add L U e s = Some (r, s')"
  shows "saved L U s'"
proof (rule write_back_saved [where s = "s\<lparr>cached_tasks := cached_tasks s @ [e]\<rparr>"])
  show "co_bind (store_store L U) (\<lambda>_. store_load L U) (s\<lparr>cached_tasks := cached_tasks s @ [e]\<rparr>) = Some (r, s')"
    using assms(4,5) by (simp add: store_add_def store_view_def)
qed (use assms(1-3) in \<open>simp_all add: store_inv_def store_room_def\<close>)

text \<open>A document the parser refuses is on the disk before it is read back.\<close>

lemma store_add_refused:
  assumes "store_inv L U s" and "store_view s (entity_id e) = None"
    and "json_parse L (json_serialize L (J_array (map (task_to_json U) (cached_tasks s @ [e])))) = Inl x"
  shows "\<exists>y s' s''. store_add L U e s = Some (Inl y, s') \<and> cached_tasks s' = cached_tasks s @ [e]
    \<and> open_store L U (filepath s') (disk s') = Some (Inl y, s'')"
proof -
  let ?s = "s\<lparr>cached_tasks := cached_tasks s @ [e]\<rparr>"
  let ?v = "json_serialize L (J_array (map (task_to_json U) (cached_tasks ?s)))"
  obtain w f where w: "write_attr (filepath s) ?v (disk s) = (Inr (), w)"
    and f: "files w (filepath s) = Some f" "opens_for_reading f" "\<not> reads_fail f" "content f = ?v"
    using assms(1) by (cases "files (disk s) (filepath s)")
      (auto simp: store_inv_def keeps_writes_def write_attr_def regular_file_def)
  obtain y where load: "store_load L U (s\<lparr>cached_tasks := ts, disk := w\<rparr>)
      = Some (Inl y, s\<lparr>cached_tasks := ts, disk := w\<rparr>)" for ts
    using f assms(3) by (simp add: store_load_def open_in_def)
  have eq: "\<lparr>filepath = filepath s, cached_tasks = [], disk = w\<rparr> = s\<lparr>cached_tasks := [], disk := w\<rparr>"
    by (cases s) simp
  have "open_store L U (filepath s) w = Some (Inl y, s\<lparr>cached_tasks := [], disk := w\<rparr>)"
    unfolding open_store_def Let_def eq using load [of "[]"] f(1) by (simp add: fs_exists_def)
  moreover have "store_store L U ?s = Some (Inr (), ?s\<lparr>disk := w\<rparr>)" using w by (simp add: store_store_def)
  ultimately show ?thesis
    using assms(2) load [of "cached_tasks s @ [e]"]
    by (auto simp: store_add_def store_view_def co_bind_def)
qed

lemma store_remove_saved:
  assumes "store_inv L U s" and "store_view s i \<noteq> None" and "store_remove L U i s = Some (r, s')"
  shows "saved L U s'"
proof (rule write_back_saved [where s = "s\<lparr>cached_tasks := erase_first (has_id i) (cached_tasks s)\<rparr>"])
  show "co_bind (store_store L U) (\<lambda>_. store_load L U)
      (s\<lparr>cached_tasks := erase_first (has_id i) (cached_tasks s)\<rparr>) = Some (r, s')"
    using assms(2,3) by (auto simp: store_remove_def store_view_def)
qed (use assms(1) erase_shorter [OF assms(2)] in \<open>auto simp: store_inv_def erase_has_id list_all_iff\<close>)

section \<open>Properties\<close>

text \<open>C38: The file store is a finite map that survives a restart: adding a new task that the file can
  hold (its texts UTF-8, its timestamp of 64 bits) and removing one that is there succeed, act on the
  map and leave a file from which a newly opened store is the same store; adding one that is there
  and removing one that is not are refused and change nothing. A new task that makes the parser
  refuse the document, as an owner does that is not UTF-8, is written all the same: adding it throws
  only when the file is read back, with the task kept in memory, and no store can be opened on the
  file any more.\<close>

theorem file_store_persists:
  assumes "store_inv L U s"
  shows "(case store_view s (entity_id e) of
       None \<Rightarrow>
         if storable U e \<and> store_room s
         then \<exists>s'. store_add L U e s = Some (Inr (), s') \<and> store_inv L U s'
           \<and> store_view s' = (store_view s)(entity_id e \<mapsto> e)
           \<and> open_store L U (filepath s') (disk s') = Some (Inr (), s')
         else (case json_parse L (json_serialize L (J_array (map (task_to_json U) (cached_tasks s @ [e])))) of
             Inl x \<Rightarrow> \<exists>y s' s''. store_add L U e s = Some (Inl y, s') \<and> cached_tasks s' = cached_tasks s @ [e]
               \<and> open_store L U (filepath s') (disk s') = Some (Inl y, s'')
           | Inr j \<Rightarrow> True)
     | Some t \<Rightarrow> store_add L U e s = Some (Inl (Runtime_error ''ITask already exist.''), s))
    \<and> (case store_view s i of
       None \<Rightarrow> store_remove L U i s = Some (Inl (Runtime_error ''ITask does not exist''), s)
     | Some t \<Rightarrow> \<exists>s'. store_remove L U i s = Some (Inr (), s') \<and> store_inv L U s'
         \<and> store_view s' = (store_view s)(i := None)
         \<and> open_store L U (filepath s') (disk s') = Some (Inr (), s'))
    \<and> store_find i s = store_view s i \<and> store_exist i s = (store_view s i \<noteq> None)"
proof -
  have add: "\<exists>s'. store_add L U e s = Some (Inr (), s') \<and> store_inv L U s'
         \<and> store_view s' = (store_view s)(entity_id e \<mapsto> e)
         \<and> open_store L U (filepath s') (disk s') = Some (Inr (), s')"
    if "store_view s (entity_id e) = None" "storable U e" "store_room s"
    using file_tasks.add_new [OF assms that] store_add_saved [OF assms that(2,3,1)]
    by (auto simp: saved_def)
  have remove: "\<exists>s'. store_remove L U i s = Some (Inr (), s') \<and> store_inv L U s'
         \<and> store_view s' = (store_view s)(i := None)
         \<and> open_store L U (filepath s') (disk s') = Some (Inr (), s')"
    if "store_view s i \<noteq> None"
    using file_tasks.remove_old [OF assms that] store_remove_saved [OF assms that]
    by (auto simp: saved_def)
  show ?thesis
    using add remove store_add_refused [OF assms, of e] file_tasks.add_old [OF assms, of e]
      file_tasks.remove_new [OF assms, of i]
    by (auto simp: store_find_def store_exist_def store_view_def split: option.split sum.split)
qed

definition string_uuids :: "string uuid_lib" where
  "string_uuids = \<lparr>uuid_to_string = (\<lambda>u. u), uuid_from_string = Inr, uuid_name_sha1 = (\<lambda>s. s)\<rparr>"

definition empty_store :: "string file_store" where
  "empty_store = \<lparr>filepath = ''tasks.json'', cached_tasks = [],
     disk = \<lparr>files = (\<lambda>p. None), directories = {}, may_create = (\<lambda>p. True)\<rparr>\<rparr>"

lemma empty_store_inv: "store_inv numbering_json string_uuids empty_store" "store_room empty_store"
  using numbering_json_round_trip
  by (simp_all add: store_inv_def uuid_round_trip_def string_uuids_def empty_store_def keeps_writes_def
      store_room_def json_limit_def)

theorem file_store_persists_witness:
  "\<exists>s'. store_add numbering_json string_uuids
      \<lparr>entity_id = ''a'', entity_owner = ''anonymous'', entity_timestamp = 1700000000000\<rparr> empty_store = Some (Inr (), s')
    \<and> open_store numbering_json string_uuids (filepath s') (disk s') = Some (Inr (), s')"
proof -
  let ?e = "\<lparr>entity_id = ''a'', entity_owner = ''anonymous'', entity_timestamp = 1700000000000\<rparr>"
  have "storable string_uuids ?e"
    by (simp add: storable_def int64_range_def string_uuids_def json_text_def utf8_ascii json_limit_def)
  moreover have "store_view empty_store (entity_id ?e) = None" by (simp add: store_view_def empty_store_def)
  ultimately show ?thesis using file_store_persists [OF empty_store_inv(1), of ?e] empty_store_inv(2) by auto
qed

end
