(* ===== verification/Scheduler.thy ===== *)
theory Scheduler
  imports Task_Store
begin

text \<open>
  The scheduler and its tasks (\<^verbatim>\<open>scheduler/scheduler.hpp\<close>, \<^verbatim>\<open>scheduler/scheduler.cpp\<close>,
  \<^verbatim>\<open>scheduler/generic_repeated_task.hpp\<close>, \<^verbatim>\<open>scheduler/everydays_at_task.hpp\<close>,
  \<^verbatim>\<open>utils/datetime.hpp\<close>). Time points of the system clock are nanoseconds; what the clock says is an
  argument, and the date library is a parameter. A timer fires in a step of its own.
\<close>

section \<open>Durations and identifiers\<close>

datatype duration =
    Milliseconds int
  | Seconds int
  | Minutes int
  | Hours int
  | Days int
  | Days_at int string

fun duration_to_str :: "duration \<Rightarrow> string" where
  "duration_to_str (Milliseconds n) = ''milliseconds_'' @ int_to_string n"
| "duration_to_str (Seconds n) = ''seconds_'' @ int_to_string n"
| "duration_to_str (Minutes n) = ''minutes_'' @ int_to_string n"
| "duration_to_str (Hours n) = ''hours_'' @ int_to_string n"
| "duration_to_str (Days n) = ''days_'' @ int_to_string n"
| "duration_to_str (Days_at n at) = ''days_'' @ int_to_string n @ ''_AtTime_t_'' @ at"

definition generate_id :: "'u uuid_lib \<Rightarrow> string \<Rightarrow> duration \<Rightarrow> 'u" where
  "generate_id U owner d = uuid_name_sha1 U (owner @ duration_to_str d)"

definition ns_per_day :: int where
  "ns_per_day = 24 * 60 * 60 * 1000000000"

text \<open>The interval of a repeated task in nanoseconds.\<close>

fun interval :: "duration \<Rightarrow> int" where
  "interval (Milliseconds n) = n * 1000000"
| "interval (Seconds n) = n * 1000000000"
| "interval (Minutes n) = n * 60000000000"
| "interval (Hours n) = n * 3600000000000"
| "interval (Days n) = n * ns_per_day"
| "interval (Days_at n at) = n * ns_per_day"

text \<open>\<open>to_timestamp\<close> casts to milliseconds, which truncates towards zero.\<close>

definition to_timestamp :: "int \<Rightarrow> int" where
  "to_timestamp t = (if t < 0 then - ((- t) div 1000000) else t div 1000000)"

definition from_timestamp :: "int \<Rightarrow> int" where
  "from_timestamp ms = ms * 1000000"

text \<open>
  The date library: formatting a time point, parsing a text into local seconds and a zone, \<open>None\<close> when
  that leaves the stream failed, and the time of local seconds in a zone, in seconds.
\<close>

record date_lib =
  date_format :: "string \<Rightarrow> int \<Rightarrow> string"
  date_parse :: "string \<Rightarrow> string \<Rightarrow> (int \<times> string) option"
  zoned_sys_time :: "string \<Rightarrow> int \<Rightarrow> int result"

definition date_fmt :: string where
  "date_fmt = ''%Y-%m-%d''"

definition datetime_fmt :: string where
  "datetime_fmt = ''%Y-%m-%d %H:%M:%S %Z''"

text \<open>The date of the base time point is put before the time of day.\<close>

definition parse_time :: "date_lib \<Rightarrow> string \<Rightarrow> int \<Rightarrow> int result" where
  "parse_time D at base =
     (case date_parse D datetime_fmt (date_format D date_fmt base @ '' '' @ at) of
        None \<Rightarrow> Inl (Invalid_argument ''Cannot parse datetime due to invalid format.'')
      | Some (local, zone) \<Rightarrow> result_map (\<lambda>s. s * 1000000000) (zoned_sys_time D zone local))"

definition datetime_to_string :: "date_lib \<Rightarrow> int \<Rightarrow> string" where
  "datetime_to_string D t = date_format D datetime_fmt t"

section \<open>Tasks\<close>

record 'u task =
  task_id :: 'u
  task_owner :: string
  task_duration :: duration
  task_expiry :: int
  task_active :: bool

text \<open>
  The constructors configure the expiry; the time of day of an everyday task is parsed for the
  current date, and moved by the days when it is past.
\<close>

definition everyday_expiry :: "date_lib \<Rightarrow> int \<Rightarrow> int \<Rightarrow> string \<Rightarrow> int result" where
  "everyday_expiry D now days at =
     result_map (\<lambda>e. if now > e then e + days * ns_per_day else e) (parse_time D at now)"

fun configure_expiry :: "date_lib \<Rightarrow> int \<Rightarrow> duration \<Rightarrow> int result" where
  "configure_expiry D now (Days_at days at) = everyday_expiry D now days at"
| "configure_expiry D now d = Inr (now + interval d)"

definition new_task ::
    "date_lib \<Rightarrow> int \<Rightarrow> 'u \<Rightarrow> string \<Rightarrow> duration \<Rightarrow> 'u task result" where
  "new_task D now i owner d =
     result_map (\<lambda>e. \<lparr>task_id = i, task_owner = owner, task_duration = d, task_expiry = e, task_active = False\<rparr>)
       (configure_expiry D now d)"

definition set_expiry :: "int \<Rightarrow> 'u task \<Rightarrow> 'u task" where
  "set_expiry e t = t\<lparr>task_expiry := e\<rparr>"

definition activate :: "'u task \<Rightarrow> 'u task" where
  "activate t = t\<lparr>task_active := True\<rparr>"

definition task_to_string :: "'u uuid_lib \<Rightarrow> date_lib \<Rightarrow> 'u task \<Rightarrow> string" where
  "task_to_string U D t =
     (case task_duration t of Days_at n at \<Rightarrow> ''EverydaysAt'' | _ \<Rightarrow> ''GenericRepeatedTask'')
       @ '' - TaskId: '' @ uuid_to_string U (task_id t) @ '' expires: '' @ datetime_to_string D (task_expiry t)"

text \<open>The timer of a task fires: the handler runs, the expiry moves, the timer is started again.\<close>

definition fire :: "int \<Rightarrow> 'u task \<Rightarrow> 'u task" where
  "fire now t = activate (case task_duration t of
     Days_at days at \<Rightarrow> t\<lparr>task_expiry := task_expiry t + days * ns_per_day\<rparr>
   | d \<Rightarrow> t\<lparr>task_expiry := now + interval d\<rparr>)"

section \<open>The scheduler\<close>

text \<open>The scheduler holds its tasks and a reference to a store, whose operations are parameters.\<close>

record ('u, 's) store_ops =
  st_add :: "'u task_entity \<Rightarrow> ('s, unit) co"
  st_find :: "'u \<Rightarrow> 's \<Rightarrow> 'u task_entity option"
  st_remove :: "'u \<Rightarrow> ('s, unit) co"

definition file_store_ops :: "json_lib \<Rightarrow> 'u uuid_lib \<Rightarrow> ('u, 'u file_store) store_ops" where
  "file_store_ops L U = \<lparr>st_add = store_add L U, st_find = store_find, st_remove = store_remove L U\<rparr>"

datatype execution = Relaxed | Strict

record ('u, 's) scheduler =
  active_tasks :: "'u task list"
  tasks_store :: 's

type_synonym ('u, 's, 'a) scheduler_op = "(('u, 's) scheduler, 'a) co"

definition new_scheduler :: "'s \<Rightarrow> ('u, 's) scheduler" where
  "new_scheduler st = \<lparr>active_tasks = [], tasks_store = st\<rparr>"

definition on_store :: "('s, 'a) co \<Rightarrow> ('u, 's, 'a) scheduler_op" where
  "on_store m = (\<lambda>s. map_option (\<lambda>(r, st). (r, s\<lparr>tasks_store := st\<rparr>)) (m (tasks_store s)))"

definition is_task_active :: "'u \<Rightarrow> ('u, 's) scheduler \<Rightarrow> bool" where
  "is_task_active i s \<longleftrightarrow> List.find (\<lambda>t. task_id t = i) (active_tasks s) \<noteq> None"

definition get_active_tasks :: "('u, 's) scheduler \<Rightarrow> ('u \<times> string \<times> int) list" where
  "get_active_tasks s = map (\<lambda>t. (task_id t, task_owner t, task_expiry t)) (active_tasks s)"

definition activate_task :: "'u task \<Rightarrow> ('u, 's, unit) scheduler_op" where
  "activate_task t = (\<lambda>s. co_return () (s\<lparr>active_tasks := active_tasks s @ [activate t]\<rparr>))"

definition task_entity_of :: "'u task \<Rightarrow> 'u task_entity" where
  "task_entity_of t =
     \<lparr>entity_id = task_id t, entity_owner = task_owner t, entity_timestamp = to_timestamp (task_expiry t)\<rparr>"

definition add_task_to_store :: "('u, 's) store_ops \<Rightarrow> 'u task \<Rightarrow> ('u, 's, unit) scheduler_op" where
  "add_task_to_store S t = on_store (st_add S (task_entity_of t))"

text \<open>The task comes back as the policy leaves it.\<close>

definition process_strict_policy_task ::
    "('u, 's) store_ops \<Rightarrow> 'u task \<Rightarrow> ('u, 's, 'u task) scheduler_op" where
  "process_strict_policy_task S t = (\<lambda>s.
     (case st_find S (task_id t) (tasks_store s) of
        Some e \<Rightarrow>
          (let t' = set_expiry (from_timestamp (entity_timestamp e)) t in
           co_bind (on_store (st_remove S (task_id t))) (\<lambda>_.
             co_bind (add_task_to_store S t') (\<lambda>_. co_return t')))
      | None \<Rightarrow> co_bind (add_task_to_store S t) (\<lambda>_. co_return t)) s)"

definition add_task :: "('u, 's) store_ops \<Rightarrow> 'u task \<Rightarrow> execution \<Rightarrow> ('u, 's, unit) scheduler_op" where
  "add_task S t policy = (\<lambda>s.
     if is_task_active (task_id t) s
     then co_throw (Runtime_error ''Cannot add the task. The same task has been already configured.'') s
     else if policy = Strict then co_bind (process_strict_policy_task S t) activate_task s
     else activate_task t s)"

definition every_policy ::
    "('u, 's) store_ops \<Rightarrow> 'u uuid_lib \<Rightarrow> date_lib \<Rightarrow> int
      \<Rightarrow> string \<Rightarrow> execution \<Rightarrow> duration \<Rightarrow> ('u, 's, 'u) scheduler_op" where
  "every_policy S U D now owner policy d = (\<lambda>s.
     let i = generate_id U owner d in
     case new_task D now i owner d of
       Inl x \<Rightarrow> co_throw x s
     | Inr t \<Rightarrow> co_bind (add_task S t policy) (\<lambda>_. co_return i) s)"

text \<open>\<open>Execution{}\<close> is its first enumerator.\<close>

definition every_owner where
  "every_owner S U D now owner d = every_policy S U D now owner Relaxed d"

definition every where
  "every S U D now d = every_owner S U D now ''anonymous'' d"

text \<open>The timer of the n-th task fires.\<close>

definition fire_nth :: "nat \<Rightarrow> int \<Rightarrow> ('u, 's) scheduler \<Rightarrow> ('u, 's) scheduler" where
  "fire_nth k now s =
     (if k < length (active_tasks s)
      then s\<lparr>active_tasks := (active_tasks s)[k := fire now (active_tasks s ! k)]\<rparr> else s)"

section \<open>Lemmas\<close>

lemma fire_fields [simp]: "task_id (fire now t) = task_id t" "task_duration (fire now t) = task_duration t"
  "task_owner (fire now t) = task_owner t"
  by (simp_all add: fire_def activate_def split: duration.split)

lemma is_task_active_iff: "is_task_active i s \<longleftrightarrow> i \<in> task_id ` set (active_tasks s)"
  by (auto simp: is_task_active_def find_None_iff)

text \<open>Whole days from the first expiry, whenever the timer fires.\<close>

lemma fire_everyday:
  "task_duration t = Days_at days at \<Longrightarrow> task_expiry (fire now t) = task_expiry t + days * ns_per_day"
  by (simp add: fire_def activate_def)

lemma fold_fire_everyday:
  assumes "task_duration t = Days_at days at"
  shows "task_expiry (fold fire nows t) = task_expiry t + int (length nows) * days * ns_per_day"
  using assms
proof (induction nows arbitrary: t)
  case (Cons now nows)
  then show ?case by (simp add: fire_everyday algebra_simps)
qed simp

lemma to_timestamp_from: "to_timestamp (from_timestamp ms) = ms"
proof (cases "ms < 0")
  case True
  have "- (ms * 1000000) div 1000000 = ((- ms) * 1000000) div (1000000 :: int)" by simp
  also have "\<dots> = - ms" by (rule nonzero_mult_div_cancel_right) simp
  finally show ?thesis using True by (simp add: to_timestamp_def from_timestamp_def)
qed (simp add: to_timestamp_def from_timestamp_def)

lemma from_timestamp_to: "0 \<le> t \<Longrightarrow> from_timestamp (to_timestamp t) = t - t mod 1000000"
  by (simp add: to_timestamp_def from_timestamp_def minus_mod_eq_mult_div [symmetric] mult.commute)

text \<open>No two active tasks have the same identifier.\<close>

definition scheduler_inv :: "('u, 's) scheduler \<Rightarrow> bool" where
  "scheduler_inv s \<longleftrightarrow> distinct (map task_id (active_tasks s)) \<and> list_all task_active (active_tasks s)"

lemma on_store_tasks: "on_store m s = Some (r, s') \<Longrightarrow> active_tasks s' = active_tasks s"
  by (auto simp: on_store_def)

lemma then_return_tasks:
  "co_bind (add_task_to_store S u) (\<lambda>x. co_return v) s = Some (r, s') \<Longrightarrow>
    active_tasks s' = active_tasks s \<and> (\<forall>t'. r = Inr t' \<longrightarrow> t' = v)"
  unfolding co_bind_eq_Some add_task_to_store_def co_return_def using on_store_tasks by fastforce

lemma process_strict_tasks:
  assumes "process_strict_policy_task S t s = Some (r, s')"
  shows "active_tasks s' = active_tasks s \<and> (\<forall>t'. r = Inr t' \<longrightarrow> task_id t' = task_id t)"
proof (cases "st_find S (task_id t) (tasks_store s)")
  case None
  with assms show ?thesis by (auto simp: process_strict_policy_task_def dest!: then_return_tasks)
next
  case (Some e)
  let ?t = "set_expiry (from_timestamp (entity_timestamp e)) t"
  from assms Some consider x where "on_store (st_remove S (task_id t)) s = Some (Inl x, s')" "r = Inl x"
    | y s1 where "on_store (st_remove S (task_id t)) s = Some (Inr y, s1)"
      "co_bind (add_task_to_store S ?t) (\<lambda>x. co_return ?t) s1 = Some (r, s')"
    by (auto simp: process_strict_policy_task_def Let_def co_bind_eq_Some)
  then show ?thesis
  proof cases
    case 1
    then show ?thesis using on_store_tasks by fastforce
  next
    case 2
    from on_store_tasks [OF 2(1)] then_return_tasks [OF 2(2)] show ?thesis
      by (auto simp: set_expiry_def)
  qed
qed

lemma add_task_tasks:
  assumes "add_task S t policy s = Some (r, s')"
  shows "if is_task_active (task_id t) s
     then r = Inl (Runtime_error ''Cannot add the task. The same task has been already configured.'') \<and> s' = s
     else (case r of Inl x \<Rightarrow> active_tasks s' = active_tasks s
       | Inr y \<Rightarrow> \<exists>t'. task_id t' = task_id t \<and> active_tasks s' = active_tasks s @ [activate t'])"
proof -
  have run: "active_tasks s' = active_tasks s1 @ [activate u] \<and> r = Inr ()"
    if "activate_task u s1 = Some (r, s')" for u s1
    using that by (auto simp: activate_task_def co_return_def)
  consider (old) "is_task_active (task_id t) s" | (relaxed) "\<not> is_task_active (task_id t) s" "policy \<noteq> Strict"
    | (strict) "\<not> is_task_active (task_id t) s" "policy = Strict" by blast
  then show ?thesis
  proof cases
    case old
    with assms show ?thesis by (simp add: add_task_def co_throw_def)
  next
    case relaxed
    with assms have "activate_task t s = Some (r, s')" by (simp add: add_task_def)
    from run [OF this] relaxed(1) show ?thesis by auto
  next
    case strict
    with assms have "co_bind (process_strict_policy_task S t) activate_task s = Some (r, s')"
      by (simp add: add_task_def)
    then consider x where "process_strict_policy_task S t s = Some (Inl x, s')" "r = Inl x"
      | u s1 where "process_strict_policy_task S t s = Some (Inr u, s1)" "activate_task u s1 = Some (r, s')"
      unfolding co_bind_eq_Some by blast
    then show ?thesis
    proof cases
      case 1
      with process_strict_tasks [OF 1(1)] strict show ?thesis by simp
    next
      case 2
      from process_strict_tasks [OF 2(1)] run [OF 2(2)] strict show ?thesis by auto
    qed
  qed
qed

lemma add_task_inv: "scheduler_inv s \<Longrightarrow> add_task S t policy s = Some (r, s') \<Longrightarrow> scheduler_inv s'"
  using add_task_tasks [of S t policy s r s']
  by (auto simp: scheduler_inv_def is_task_active_iff activate_def split: if_splits sum.splits)

lemma fire_nth_ids [simp]: "map task_id (active_tasks (fire_nth k now s)) = map task_id (active_tasks s)"
  by (simp add: fire_nth_def map_update list_update_same_conv)

lemma fire_nth_inv:
  assumes "scheduler_inv s"
  shows "scheduler_inv (fire_nth k now s)"
proof (cases "k < length (active_tasks s)")
  case True
  have "map task_id (active_tasks (fire_nth k now s)) = map task_id (active_tasks s)" by simp
  moreover have "list_all task_active ((active_tasks s)[k := fire now (active_tasks s ! k)])"
    using assms True by (auto simp: scheduler_inv_def list_all_iff fire_def activate_def
        dest!: set_update_subset_insert [THEN subsetD])
  ultimately show ?thesis using assms True by (simp add: scheduler_inv_def fire_nth_def)
qed (use assms in \<open>simp add: fire_nth_def\<close>)

text \<open>The strict policy over any store that keeps the interface.\<close>

context task_store begin

lemma strict_stores:
  assumes ops: "st_add S = add" "st_find S = lookup" "st_remove S = remove"
    and "inv (tasks_store s)" and "\<not> is_task_active (task_id t) s" and "can_hold (task_entity_of t)"
    and "view (tasks_store s) (task_id t) = None \<Longrightarrow> room (tasks_store s)"
    and t': "t' = (case view (tasks_store s) (task_id t) of
        None \<Rightarrow> t | Some e \<Rightarrow> set_expiry (from_timestamp (entity_timestamp e)) t)"
  shows "\<exists>st0 st. add_task S t Strict s =
      Some (Inr (), \<lparr>active_tasks = active_tasks s @ [activate t'], tasks_store = st\<rparr>)
    \<and> inv st0 \<and> view st0 (task_id t) = None \<and> room st0 \<and> add (task_entity_of t') st0 = Some (Inr (), st)
    \<and> inv st \<and> view st = (view (tasks_store s))(task_id t \<mapsto> task_entity_of t')"
proof (cases "view (tasks_store s) (task_id t)")
  case None
  then have "view (tasks_store s) (entity_id (task_entity_of t)) = None" by (simp add: task_entity_of_def)
  from add_new [OF assms(4) this assms(6,7)] None obtain st where
    "add (task_entity_of t) (tasks_store s) = Some (Inr (), st)" "inv st"
    "view st = (view (tasks_store s))(entity_id (task_entity_of t) \<mapsto> task_entity_of t)" by blast
  moreover have "entity_id (task_entity_of t) = task_id t" by (simp add: task_entity_of_def)
  ultimately have "add (task_entity_of t) (tasks_store s) = Some (Inr (), st)" "inv st"
    "view st = (view (tasks_store s))(task_id t \<mapsto> task_entity_of t)" by simp_all
  with None assms(4,5,7) show ?thesis
    by - (rule exI [of _ "tasks_store s"], rule exI [of _ st],
      simp add: t' add_task_def process_strict_policy_task_def ops lookup_view
        add_task_to_store_def on_store_def co_bind_def co_return_def activate_task_def)
next
  case (Some e)
  then have [simp]: "t' = set_expiry (from_timestamp (entity_timestamp e)) t" by (simp add: t')
  have ent: "entity_id (task_entity_of t') = task_id t"
    "task_entity_of t' = (task_entity_of t)\<lparr>entity_timestamp := entity_timestamp e\<rparr>"
    by (simp_all add: task_entity_of_def set_expiry_def to_timestamp_from)
  have "view (tasks_store s) (entity_id (task_entity_of t')) \<noteq> None" using Some ent by simp
  moreover have "can_hold (task_entity_of t')"
    unfolding ent(2) by (rule can_hold_timestamp [OF assms(6) view_can_hold [OF assms(4) Some]])
  ultimately obtain s1 st where
    st: "remove (task_id t) (tasks_store s) = Some (Inr (), s1)" "inv s1" "view s1 (task_id t) = None" "room s1"
    "add (task_entity_of t') s1 = Some (Inr (), st)" "inv st"
    "view st = (view (tasks_store s))(task_id t \<mapsto> task_entity_of t')"
    using replace [OF assms(4), of "task_entity_of t'"] unfolding ent(1) by blast
  with Some assms(4,5) show ?thesis
    by - (rule exI [of _ s1], rule exI [of _ st], simp add: add_task_def process_strict_policy_task_def ops lookup_view
        add_task_to_store_def on_store_def co_bind_def co_return_def activate_task_def Let_def)
qed

end


lemma fold_fire_store [simp]: "tasks_store (fold (\<lambda>(k, now). fire_nth k now) evs s) = tasks_store s"
  by (induction evs arbitrary: s) (auto simp: fire_nth_def)

text \<open>The strict policy on the file store: what is kept, what the task gets, and that a restart finds it.\<close>

lemma strict_on_file:
  assumes inv: "store_inv L U (tasks_store s)" and new: "\<not> is_task_active (task_id t) s"
    and hold: "storable U (task_entity_of t)"
    and room: "store_view (tasks_store s) (task_id t) = None \<Longrightarrow> store_room (tasks_store s)"
    and t': "t' = (case store_view (tasks_store s) (task_id t) of
        None \<Rightarrow> t | Some e \<Rightarrow> set_expiry (from_timestamp (entity_timestamp e)) t)"
  shows "\<exists>st. add_task (file_store_ops L U) t Strict s =
      Some (Inr (), \<lparr>active_tasks = active_tasks s @ [activate t'], tasks_store = st\<rparr>)
    \<and> store_inv L U st \<and> store_view st = (store_view (tasks_store s))(task_id t \<mapsto> task_entity_of t')
    \<and> saved L U st"
proof -
  have ops: "st_add (file_store_ops L U) = store_add L U" "st_find (file_store_ops L U) = store_find"
    "st_remove (file_store_ops L U) = store_remove L U" by (simp_all add: file_store_ops_def)
  from file_tasks.strict_stores [where S = "file_store_ops L U", OF ops inv new hold room t']
  obtain st0 st where st: "add_task (file_store_ops L U) t Strict s =
      Some (Inr (), \<lparr>active_tasks = active_tasks s @ [activate t'], tasks_store = st\<rparr>)"
    "store_inv L U st0" "store_view st0 (task_id t) = None" "store_room st0"
    "store_add L U (task_entity_of t') st0 = Some (Inr (), st)"
    "store_inv L U st" "store_view st = (store_view (tasks_store s))(task_id t \<mapsto> task_entity_of t')"
    by blast
  from file_tasks.view_can_hold [OF st(6), of "task_id t"] have "storable U (task_entity_of t')" by (simp add: st(7))
  moreover have "entity_id (task_entity_of t') = task_id t"
    by (simp add: t' task_entity_of_def set_expiry_def split: option.split)
  ultimately have "saved L U st" using store_add_saved [OF st(2) _ st(4) _ st(5)] st(3) by simp
  with st show ?thesis by blast
qed

section \<open>Properties\<close>

text \<open>C39: A strict task that the file can hold (its owner is UTF-8 and its expiry has 64 bits) is found
  again by a later run: after adding it, and whatever its timer did since, a new store opened on the
  file is the store, and a new scheduler that adds the task gives it the expiry written when it was
  first added, in whole milliseconds.\<close>

theorem strict_task_resumes:
  assumes "store_inv L U (tasks_store s)" and "\<not> is_task_active (task_id t) s" and "task_id t2 = task_id t"
    and "storable U (task_entity_of t)" and "storable U (task_entity_of t2)" and "store_room (tasks_store s)"
  shows "\<exists>s1 s2. add_task (file_store_ops L U) t Strict s = Some (Inr (), s1)
    \<and> (let st = tasks_store (fold (\<lambda>(k, now). fire_nth k now) fires s1) in
        open_store L U (filepath st) (disk st) = Some (Inr (), st)
        \<and> add_task (file_store_ops L U) t2 Strict (new_scheduler st) = Some (Inr (), s2))
    \<and> map task_expiry (active_tasks s2) = [from_timestamp
        (case store_view (tasks_store s) (task_id t) of
           None \<Rightarrow> to_timestamp (task_expiry t) | Some e \<Rightarrow> entity_timestamp e)]"
proof -
  define t' where "t' = (case store_view (tasks_store s) (task_id t) of
        None \<Rightarrow> t | Some e \<Rightarrow> set_expiry (from_timestamp (entity_timestamp e)) t)"
  from strict_on_file [OF assms(1,2,4,6) t'_def] obtain st where
    first: "add_task (file_store_ops L U) t Strict s =
      Some (Inr (), \<lparr>active_tasks = active_tasks s @ [activate t'], tasks_store = st\<rparr>)"
    and inv: "store_inv L U st" "saved L U st"
    and view: "store_view st = (store_view (tasks_store s))(task_id t \<mapsto> task_entity_of t')" by blast
  have inv': "store_inv L U (tasks_store (new_scheduler st))" and
    fresh: "\<not> is_task_active (task_id t2) (new_scheduler st :: ('a, 'a file_store) scheduler)"
    using inv by (simp_all add: new_scheduler_def is_task_active_iff)
  have "store_view (tasks_store (new_scheduler st)) (task_id t2) \<noteq> None"
    using view assms(3) by (simp add: new_scheduler_def)
  with strict_on_file [OF inv' fresh assms(5) _ refl] obtain st2 where
    "add_task (file_store_ops L U) t2 Strict (new_scheduler st) = Some (Inr (),
      \<lparr>active_tasks = [activate (set_expiry (from_timestamp (to_timestamp (task_expiry t'))) t2)], tasks_store = st2\<rparr>)"
    using view assms(3) by (auto simp: new_scheduler_def task_entity_of_def)
  moreover have "to_timestamp (task_expiry t') = (case store_view (tasks_store s) (task_id t) of
           None \<Rightarrow> to_timestamp (task_expiry t) | Some e \<Rightarrow> entity_timestamp e)"
    by (simp add: t'_def set_expiry_def to_timestamp_from split: option.split)
  ultimately show ?thesis
    using first inv(2) by (simp add: saved_def Let_def activate_def set_expiry_def)
qed

definition morning_task :: "string task" where
  "morning_task = \<lparr>task_id = ''a'', task_owner = ''anonymous'', task_duration = Days_at 1 ''07:00:00 UTC'',
     task_expiry = 25200000000000, task_active = False\<rparr>"

theorem strict_task_resumes_witness:
  "\<exists>s1 s2. add_task (file_store_ops numbering_json string_uuids) morning_task Strict (new_scheduler empty_store)
      = Some (Inr (), s1)
    \<and> (let st = tasks_store (fold (\<lambda>(k, now). fire_nth k now) [(0, 25200000000001)] s1) in
        open_store numbering_json string_uuids (filepath st) (disk st) = Some (Inr (), st)
        \<and> add_task (file_store_ops numbering_json string_uuids) morning_task Strict (new_scheduler st) = Some (Inr (), s2))
    \<and> map task_expiry (active_tasks s2) = [25200000000000]"
proof -
  have "storable string_uuids (task_entity_of morning_task)"
    by (simp add: morning_task_def task_entity_of_def storable_def int64_range_def string_uuids_def json_text_def
        utf8_ascii json_limit_def to_timestamp_def)
  then show ?thesis
    using strict_task_resumes [of numbering_json string_uuids "new_scheduler empty_store" morning_task morning_task
        "[(0, 25200000000001)]"] empty_store_inv
    by (simp add: new_scheduler_def morning_task_def is_task_active_iff to_timestamp_def from_timestamp_def
        store_view_def empty_store_def)
qed

text \<open>Scheduling the same owner and duration again is refused while the first task is there, whatever
  the policies and however often the timers fired; the identifiers of the active tasks stay distinct.\<close>

theorem same_task_is_refused:
  assumes "scheduler_inv s" and "every_policy S U D now owner policy d s = Some (Inr i, s1)"
    and "configure_expiry D now2 d = Inr e"
  shows "i = generate_id U owner d
    \<and> (let s2 = fold (\<lambda>(k, now). fire_nth k now) fires s1 in
        scheduler_inv s2 \<and> is_task_active i s2 \<and> length (active_tasks s2) = length (active_tasks s) + 1
        \<and> every_policy S U D now2 owner policy2 d s2
          = Some (Inl (Runtime_error ''Cannot add the task. The same task has been already configured.''), s2))"
proof -
  from assms(2) obtain t where t: "new_task D now (generate_id U owner d) owner d = Inr t"
    by (auto simp: every_policy_def Let_def co_throw_def split: sum.splits)
  with assms(2) have run: "add_task S t policy s = Some (Inr (), s1)" and i: "i = generate_id U owner d"
    by (auto simp: every_policy_def co_bind_eq_Some co_return_def)
  have id: "task_id t = i" using t i by (auto simp: new_task_def result_map_eq_Inr)
  from add_task_tasks [OF run] obtain t' where
    t': "task_id t' = i" "active_tasks s1 = active_tasks s @ [activate t']"
    using id by (auto split: if_splits)
  define s2 where "s2 = fold (\<lambda>(k, now). fire_nth k now) fires s1"
  have ids: "map task_id (active_tasks (fold (\<lambda>(k, now). fire_nth k now) evs u)) = map task_id (active_tasks u)"
    for evs and u :: "('a, 'b) scheduler"
    by (induction evs arbitrary: u) (auto simp: fire_nth_ids)
  have inv: "scheduler_inv (fold (\<lambda>(k, now). fire_nth k now) evs u)" if "scheduler_inv u"
    for evs and u :: "('a, 'b) scheduler"
    using that by (induction evs arbitrary: u) (auto intro: fire_nth_inv)
  have "scheduler_inv s2" unfolding s2_def by (rule inv [OF add_task_inv [OF assms(1) run]])
  moreover have len: "length (active_tasks s2) = length (active_tasks s) + 1"
    using arg_cong [OF ids [of fires s1], of length] t'(2) by (simp add: s2_def)
  moreover have act: "is_task_active i s2"
    using arg_cong [OF ids [of fires s1], of set] t' by (simp add: s2_def is_task_active_iff activate_def)
  moreover have "every_policy S U D now2 owner policy2 d s2
          = Some (Inl (Runtime_error ''Cannot add the task. The same task has been already configured.''), s2)"
    using act assms(3) i by (simp add: every_policy_def new_task_def add_task_def co_bind_def co_throw_def)
  ultimately show ?thesis using i by (simp add: s2_def [symmetric])
qed

definition no_times :: date_lib where
  "no_times = \<lparr>date_format = (\<lambda>f t. ''''), date_parse = (\<lambda>f s. None),
     zoned_sys_time = (\<lambda>z l. Inl (Runtime_error z))\<rparr>"

theorem same_task_is_refused_witness:
  "every_policy (file_store_ops numbering_json string_uuids) string_uuids no_times 9 ''a'' Strict (Seconds 1)
     (fire_nth 0 7 \<lparr>active_tasks = [\<lparr>task_id = ''aseconds_1'', task_owner = ''a'', task_duration = Seconds 1,
       task_expiry = 1000000005, task_active = True\<rparr>], tasks_store = empty_store\<rparr>)
   = Some (Inl (Runtime_error ''Cannot add the task. The same task has been already configured.''),
     fire_nth 0 7 \<lparr>active_tasks = [\<lparr>task_id = ''aseconds_1'', task_owner = ''a'', task_duration = Seconds 1,
       task_expiry = 1000000005, task_active = True\<rparr>], tasks_store = empty_store\<rparr>)"
proof -
  have one: "int_to_string 1 = ''1''"
    by code_simp
  have "every_policy (file_store_ops numbering_json string_uuids) string_uuids no_times 5 ''a'' Relaxed (Seconds 1)
     (new_scheduler empty_store) = Some (Inr ''aseconds_1'', \<lparr>active_tasks = [\<lparr>task_id = ''aseconds_1'',
       task_owner = ''a'', task_duration = Seconds 1, task_expiry = 1000000005, task_active = True\<rparr>],
       tasks_store = empty_store\<rparr>)"
    by (simp add: every_policy_def new_task_def add_task_def is_task_active_def new_scheduler_def generate_id_def
        string_uuids_def activate_task_def activate_def co_bind_def co_return_def one Let_def)
  from same_task_is_refused [OF _ this, of 9 "1000000009" "[(0, 7)]" Strict, THEN conjunct2] show ?thesis
    by (simp add: scheduler_inv_def new_scheduler_def Let_def)
qed

text \<open>
  The seconds of the local day at a time point, in a zone whose offset from UTC is a function of the
  time, as it is where there is daylight saving.
\<close>

definition time_of_day :: "(int \<Rightarrow> int) \<Rightarrow> int \<Rightarrow> int" where
  "time_of_day off t = (t div 1000000000 + off (t div 1000000000)) mod (24 * 60 * 60)"

text \<open>C40: Where the date library reads a time of day on the date it has formatted, and gives for local
  seconds a time at which they are the local time of the zone, a daily task expires at that time of day
  on that date in the zone, or 24 hours later when that is past: less than a day from now, or a day and
  the offset west of Greenwich; not in the past there, and east of Greenwich by less than the offset.
  Every firing moves it by exactly 24 hours, however late it comes. So the time of day in the zone is
  kept as long as the zone keeps its offset from UTC, and is off by the difference once daylight saving
  has changed it.\<close>

theorem daily_task_expiries:
  assumes "date_parse D datetime_fmt (date_format D date_fmt now @ '' '' @ at)
      = Some (now div ns_per_day * (24 * 60 * 60) + tod, zone)"
    and "\<And>local s. zoned_sys_time D zone local = Inr s \<Longrightarrow> s + off s = local"
    and "0 \<le> tod" and "tod < 24 * 60 * 60"
    and "new_task D now i owner (Days_at 1 at) = Inr t"
  shows "\<exists>s. zoned_sys_time D zone (now div ns_per_day * (24 * 60 * 60) + tod) = Inr s
    \<and> (let x = task_expiry (fold fire fires t); change = off (x div 1000000000) - off s in
        x = task_expiry t + int (length fires) * ns_per_day
        \<and> time_of_day off x = (tod + change) mod (24 * 60 * 60)
        \<and> (time_of_day off x = tod) = (change mod (24 * 60 * 60) = 0))
    \<and> now - max (off s) 0 * 1000000000 \<le> task_expiry t
    \<and> task_expiry t < now + ns_per_day + max (- off s) 0 * 1000000000"
proof -
  let ?local = "now div ns_per_day * (24 * 60 * 60) + tod"
  obtain s where s: "zoned_sys_time D zone ?local = Inr s"
    using assms(1,5) by (auto simp: new_task_def everyday_expiry_def parse_time_def result_map_eq_Inr)
  define e where "e = s * 1000000000"
  have "parse_time D at now = Inr e" using assms(1) s by (simp add: parse_time_def e_def)
  then have t: "task_duration t = Days_at 1 at" "task_expiry t = (if now > e then e + ns_per_day else e)"
    using assms(5) by (auto simp: new_task_def everyday_expiry_def)
  have s': "s = ?local - off s" using assms(2) [OF s] by simp
  then have e: "e = now - now mod ns_per_day + tod * 1000000000 - off s * 1000000000"
    by (simp add: e_def minus_mod_eq_div_mult ns_per_day_def algebra_simps)
  define d where "d = (if now > e then 1 else 0) + int (length fires)"
  have fires: "task_expiry (fold fire fires t) = task_expiry t + int (length fires) * ns_per_day"
    using fold_fire_everyday [OF t(1), of fires] by simp
  then have "task_expiry (fold fire fires t) = (s + d * (24 * 60 * 60)) * 1000000000"
    using t(2) by (simp add: e_def d_def ns_per_day_def algebra_simps)
  then have secs: "task_expiry (fold fire fires t) div 1000000000 = s + d * (24 * 60 * 60)" by simp
  define x where "x = task_expiry (fold fire fires t)"
  define change where "change = off (x div 1000000000) - off s"
  have "x div 1000000000 + off (x div 1000000000)
      = (tod + change) + (now div ns_per_day + d) * (24 * 60 * 60)"
    using secs s' by (simp add: x_def change_def algebra_simps)
  then have day: "time_of_day off x = (tod + change) mod (24 * 60 * 60)"
    by (simp only: time_of_day_def mod_mult_self1)
  have "tod mod (24 * 60 * 60) = tod" using assms(3,4) by simp
  then have same: "(time_of_day off x = tod) = (change mod (24 * 60 * 60) = 0)"
    unfolding day using mod_eq_dvd_iff [of "tod + change" "24 * 60 * 60" tod] by (simp add: dvd_eq_mod_eq_0)
  have m: "0 \<le> now mod ns_per_day" "now mod ns_per_day < ns_per_day"
    by (simp_all add: ns_per_day_def)
  have tod: "0 \<le> tod * 1000000000" "tod * 1000000000 < ns_per_day" using assms(3,4) by (simp_all add: ns_per_day_def)
  have bounds: "now - max (off s) 0 * 1000000000 \<le> task_expiry t"
    "task_expiry t < now + ns_per_day + max (- off s) 0 * 1000000000"
  proof -
    have off: "0 \<le> max (off s) 0 * 1000000000" "off s * 1000000000 \<le> max (off s) 0 * 1000000000"
      "0 \<le> max (- off s) 0 * 1000000000" "- (off s * 1000000000) \<le> max (- off s) 0 * 1000000000"
      by (simp_all add: max_def)
    from t(2) consider "now > e" "task_expiry t = e + ns_per_day" | "e \<ge> now" "task_expiry t = e" by (auto split: if_splits)
    then show "now - max (off s) 0 * 1000000000 \<le> task_expiry t"
      and "task_expiry t < now + ns_per_day + max (- off s) 0 * 1000000000"
      using off m tod e by (cases; linarith)+
  qed
  show ?thesis
    unfolding Let_def x_def [symmetric] change_def [symmetric]
    by (rule exI [of _ s])
      (intro conjI s fires [folded x_def] day [unfolded change_def] same [unfolded change_def] bounds)
qed

text \<open>The time 07:00 in Warsaw, on the day before its clocks went forward in the spring of 2024: the
  second firing is at 08:00.\<close>

definition warsaw_offset :: "int \<Rightarrow> int" where
  "warsaw_offset s = (if s < 1711846800 then 60 * 60 else 2 * 60 * 60)"

definition warsaw_dates :: date_lib where
  "warsaw_dates = \<lparr>date_format = (\<lambda>f t. ''2024-03-30''),
     date_parse = (\<lambda>f s. Some (19812 * (24 * 60 * 60) + 7 * 60 * 60, ''Europe/Warsaw'')),
     zoned_sys_time = (\<lambda>z l. if l - 60 * 60 < 1711846800 then Inr (l - 60 * 60)
       else if 1711846800 \<le> l - 2 * 60 * 60 then Inr (l - 2 * 60 * 60)
       else Inl (Runtime_error ''nonexistent local time''))\<rparr>"

theorem daily_task_expiries_witness:
  "let now = 19812 * ns_per_day; t = \<lparr>task_id = ''a'', task_owner = ''o'',
       task_duration = Days_at 1 ''07:00:00 Europe/Warsaw'',
       task_expiry = 19812 * ns_per_day + 6 * 3600000000000, task_active = False\<rparr> in
     new_task warsaw_dates now ''a'' ''o'' (Days_at 1 ''07:00:00 Europe/Warsaw'') = Inr t
     \<and> time_of_day warsaw_offset (task_expiry (fold fire [] t)) = 7 * 60 * 60
     \<and> time_of_day warsaw_offset (task_expiry (fold fire [now] t)) = 8 * 60 * 60"
proof -
  let ?now = "19812 * ns_per_day"
  let ?t = "\<lparr>task_id = ''a'', task_owner = ''o'', task_duration = Days_at 1 ''07:00:00 Europe/Warsaw'',
       task_expiry = 19812 * ns_per_day + 6 * 3600000000000, task_active = False\<rparr>"
  have new: "new_task warsaw_dates ?now ''a'' ''o'' (Days_at 1 ''07:00:00 Europe/Warsaw'') = Inr ?t"
    by (simp add: warsaw_dates_def ns_per_day_def new_task_def everyday_expiry_def parse_time_def)
  have zone: "s + warsaw_offset s = local" if "zoned_sys_time warsaw_dates ''Europe/Warsaw'' local = Inr s" for local s
    using that by (auto simp: warsaw_dates_def warsaw_offset_def split: if_splits)
  have read: "date_parse warsaw_dates datetime_fmt (date_format warsaw_dates date_fmt ?now @ '' '' @ ''07:00:00 Europe/Warsaw'')
      = Some (?now div ns_per_day * (24 * 60 * 60) + 7 * 60 * 60, ''Europe/Warsaw'')"
    by (simp add: warsaw_dates_def ns_per_day_def)
  have tod: "0 \<le> (7 * 60 * 60 :: int)" "7 * 60 * 60 < (24 * 60 * 60 :: int)" by simp_all
  note task = daily_task_expiries [OF read zone tod new]
  have "time_of_day warsaw_offset (task_expiry (fold fire fires ?t)) = (7 * 60 * 60 +
      (warsaw_offset ((task_expiry ?t + int (length fires) * ns_per_day) div 1000000000) - 60 * 60)) mod (24 * 60 * 60)"
    for fires
  proof -
    from task [of fires, unfolded Let_def] obtain s where
      "zoned_sys_time warsaw_dates ''Europe/Warsaw'' (?now div ns_per_day * (24 * 60 * 60) + 7 * 60 * 60) = Inr s"
      and "task_expiry (fold fire fires ?t) = task_expiry ?t + int (length fires) * ns_per_day"
      and "time_of_day warsaw_offset (task_expiry (fold fire fires ?t)) = (7 * 60 * 60 +
        (warsaw_offset (task_expiry (fold fire fires ?t) div 1000000000) - warsaw_offset s)) mod (24 * 60 * 60)"
      by blast
    moreover from this(1) have "warsaw_offset s = 60 * 60"
      by (simp add: warsaw_dates_def warsaw_offset_def ns_per_day_def)
    ultimately show ?thesis by (simp only:)
  qed
  from this [of "[]"] this [of "[?now]"] new show ?thesis
    by (simp add: Let_def warsaw_offset_def ns_per_day_def)
qed

text \<open>East of Greenwich the first expiry can be past: 10:00 twelve hours east, read at 23:00 UTC.\<close>

lemma first_expiry_in_the_past:
  "case new_task \<lparr>date_format = (\<lambda>f t. ''1970-01-01''), date_parse = (\<lambda>f s. Some (10 * 60 * 60, ''Pacific/Auckland'')),
       zoned_sys_time = (\<lambda>z l. Inr (l - 12 * 60 * 60))\<rparr> (23 * 3600000000000) ''a'' ''o''
       (Days_at 1 ''10:00:00 Pacific/Auckland'') of
     Inr t \<Rightarrow> task_expiry t = 22 * 3600000000000 | Inl x \<Rightarrow> False"
  by (simp add: ns_per_day_def new_task_def everyday_expiry_def parse_time_def)

text \<open>Owner and duration are joined without a separator, so two different pairs can have the same
  identifier, and then the second task is refused.\<close>

theorem task_identifiers_collide:
  "case every_policy S U D now ''a'' Relaxed (Milliseconds 10) (new_scheduler st) of
     Some (Inr i, s1) \<Rightarrow> every_policy S U D now ''amilli'' policy (Seconds 10) s1
       = Some (Inl (Runtime_error ''Cannot add the task. The same task has been already configured.''), s1)
   | _ \<Rightarrow> False"
  by (simp add: every_policy_def new_task_def add_task_def is_task_active_def new_scheduler_def generate_id_def
      activate_task_def activate_def co_bind_def co_return_def co_throw_def Let_def)

end
