(* ===== verification/Spec2Isabelle.thy ===== *)
theory Spec2Isabelle
  imports Command_Dispatcher Lookup_Tables Mqtt_Reconnect Mqtt_Entities Mqtt_Text
    Running_Program Scheduler
begin

text \<open>
  \<^bold>\<open>The program.\<close> \<^verbatim>\<open>hhctrl-mgmt\<close> manages the board of a house controller: it finds the devices of the
  board in a description of the platform, drives them through sysfs, polls them, and shows them to
  Home Assistant over MQTT. All paths below are under \<^verbatim>\<open>src/src\<close>.

  \<^item> \<^verbatim>\<open>app/main.cpp\<close> loads the configuration, sets up the loggers, subscribes the handlers of Home
    Assistant on the event bus and spawns the start of the board.
  \<^item> The start (\<^verbatim>\<open>app/main_board_init.hpp\<close>) lets the discovery read the platform device tree, registers
    the board and every device a loader finds, gives each of them a poller, enters the devices into
    the device tree and publishes their creation.
  \<^item> A poller reads its device through sysfs and publishes a change when the reading differs.
  \<^item> A handler of events creates the entity of a new device, whose adapter connects to the broker,
    announces its document and then listens for commands and synchronises the state for ever.
  \<^item> A scheduler with a store of tasks on disk, a command dispatcher and a few tables are libraries of
    the program.

  \<^bold>\<open>How the code is modelled.\<close> A C++ function that may throw is a state transformer with a result
  (\<open>eff\<close>), a coroutine one that may also not return (\<open>co\<close>, where \<open>None\<close> means: not within the fuel of
  its loops, or not at all); an exception keeps the state it was thrown in. Undefined behaviour and
  failed assertions are exceptions of their own. Integers that wrap are words: \<open>int\<close> identifiers of
  devices, \<open>size_t\<close>, packet identifiers, the keep-alive interval. Third-party code is a parameter: the
  network and the clock of the MQTT client (\<open>net\<close>), JSON text (\<open>json_lib\<close>), floats (\<open>floats\<close>), dates
  (\<open>date_lib\<close>), UUIDs, hash functions, the file sink of the logger. What is needed of it is a named hypothesis at the
  theorem, and says no more than the library does: printing and parsing JSON (\<open>json_round_trip\<close>) gives back the
  values that are \<open>json_portable\<close> (UTF-8 texts, numbers of 64 bits, keys that differ, at most 32 levels), and
  local seconds (\<open>zoned_sys_time\<close>) are read in a zone whose offset from UTC is a function of the time.

  \<^bold>\<open>The theories\<close>, in the order they build on each other:

  \<^item> \<open>Prelude\<close>: exceptions, \<open>eff\<close> and \<open>co\<close>, what a computation keeps (\<open>co_keeps\<close>) and when it returns more
    (\<open>co_le\<close>), decimal numbers, searches in lists.
  \<^item> \<open>Device_Tree\<close> (\<^verbatim>\<open>main_board/devicetree.cpp\<close>): nodes with callbacks, slot by slot as \<open>std::remove_if\<close>
    leaves them; a map from devices to parents as its abstraction; locale \<open>parent_directory\<close>.
  \<^item> \<open>Id_Generators\<close>, \<open>Command_Dispatcher\<close>, \<open>Event_Bus\<close> (\<^verbatim>\<open>common/utils/type_id.hpp\<close>, \<^verbatim>\<open>common/command\<close>,
    \<^verbatim>\<open>common/event\<close>): identifiers of types (locale \<open>type_ids\<close>, interpreted for the three generators), and
    the dispatcher and the bus over them, with what is left of handlers that were moved.
  \<^item> \<open>Lookup_Tables\<close> (\<^verbatim>\<open>mapper.hpp\<close>, \<^verbatim>\<open>static_map.hpp\<close>, \<^verbatim>\<open>enum_mapper.hpp\<close>): locale \<open>two_way_table\<close>.
  \<^item> \<open>Sysfs\<close> (\<^verbatim>\<open>utils/sysfs.hpp\<close>): the file system, streams with their bits, and the reading loop that need
    not end; \<open>Devices\<close> (\<^verbatim>\<open>main_board/*.cpp\<close>, \<^verbatim>\<open>device\<close>): LEDs, indicators, the board, the hatch, sensors.
  \<^item> \<open>Mqtt_Types\<close>, \<open>Mqtt_Client\<close>, \<open>Mqtt_Reconnect\<close> (\<^verbatim>\<open>home_assistant_v2/error.cpp\<close>,
    \<^verbatim>\<open>async_mqtt_client.hpp\<close>): packets, errors, connecting, reconnecting, receiving, publishing, and packets as log text
    (\<open>Mqtt_Text\<close>). Fuel bounds the reconnect and receive loops; \<open>try_reconnect_terminates\<close> and \<open>receive_gives_up\<close> say how much
    is enough, \<open>receive_never_returns\<close> that no amount is enough against a broker that accepts connections and
    fails every read, and \<open>connect_outcome\<close> what connecting does on every branch.
  \<^item> \<open>Json\<close>, \<open>Entity_Config\<close>, \<open>Mqtt_Entity\<close>, \<open>Mqtt_Entities\<close> (\<^verbatim>\<open>home_assistant_v2\<close>): documents and the
    entities over any client (locale \<open>client_interface\<close>, interpreted for the MQTT client).
  \<^item> \<open>Device_Register\<close> (\<^verbatim>\<open>device/inventory.hpp\<close>, \<^verbatim>\<open>device_register.hpp\<close>): inventories and identifiers.
  \<^item> \<open>Entity_Adapter\<close>, \<open>Ha_Devices\<close>, \<open>Ha_Event_Handlers\<close> (\<^verbatim>\<open>home_assistant_adapter\<close>): the life of an adapter
    (locale \<open>entity_contract\<close>, which hatch, sensor, indicator and button meet over any \<open>willed_client\<close>), the
    devices as Home Assistant sees them, and what the handlers hold and spawn. Rounds of an adapter and attempts to
    connect are \<open>inductive\<close> relations, so that the statements about them need no fuel.
  \<^item> \<open>Pollers\<close> (\<^verbatim>\<open>poller\<close>), \<open>Platform\<close> (\<^verbatim>\<open>main_board/pdtree.cpp\<close>, \<^verbatim>\<open>main_board/platform\<close>), \<open>Board_Start\<close>
    (\<^verbatim>\<open>app/main_board_init.hpp\<close>; locale \<open>device_loader\<close>, interpreted for the three loaders), \<open>App_Config\<close>
    (\<^verbatim>\<open>app/app_config.cpp\<close>) and \<open>Application\<close> (\<^verbatim>\<open>app/main.cpp\<close>, \<^verbatim>\<open>app/logger.cpp\<close>, \<^verbatim>\<open>app/home_assistant.cpp\<close>).
  \<^item> \<open>Event_Loop\<close>, \<open>Running_Program\<close>: the program after its start, as a transition system. The state \<open>running_program\<close> is the
    platform, the bus, the coroutines the bus has spawned, those suspended in the last publication of a
    creation, what the pollers saw last, the three handlers and the exception that has ended the program; a
    step (\<open>loop_step\<close>) is one poll, one event handled by a spawned coroutine, the end of a creation, one
    round of a running entity, or a change of the files by the hardware, in any order (\<open>loop_reachable\<close>).
    Its invariant counts devices as multisets: those handled, those about to be and those whose creation
    waits are different devices of the platform; \<open>loop_step_conserves\<close> says that no step loses one but a
    creation that fails, and \<open>uninterrupted_creation\<close> that the two halves of a creation, between which
    it is suspended when it had a state to publish, are the handler.
  \<^item> \<open>Task_Store\<close>, \<open>Scheduler\<close> (\<^verbatim>\<open>common/scheduler\<close>): the store as a finite map with its file (locale
    \<open>task_store\<close>, interpreted for the file store), tasks, their timers and the policies.

  \<^bold>\<open>What the properties show.\<close> Each property of a component stands at the end of its theory. From the
  top: a program that starts runs the right handler once for every device the file of its platform describes, and the
  device is registered, polled, in the tree and identified; however its coroutines then follow one another, no device gets
  two entities, none is forgotten unless its creation fails, and no run loses its element; from any point of the run a change of a hatch is published
  by one poll and one event, a command of Home Assistant is written to the hatch by one round, and a failed
  reading ends the program; the discovery builds what the tree describes and a
  failed one starts nothing; a configuration reaches the clients. Below: the tree, the bus, the
  dispatcher, the documents and the store refine maps or lists; the client connects, reconnects within
  its attempts, publishes and receives as stated on every branch; entities announce and follow what
  Home Assistant sends; hatch and indicators follow their attributes. Where the code does something it
  does not mean to (a callback that is lost, a handler that is run after it was moved, a connection
  flag never cleared, a hatch destroyed under its coroutine, a missing LED that crashes, a failed read
  that ends the program, a device that is lost when the broker was away, a change that is lost while its hatch is being
  created, a reconnect that is thrown as an error when it succeeds, a task whose owner makes the store unreadable, a
  daily task that daylight saving moves by an hour), a theorem says what it does.

  \<^bold>\<open>Bounds.\<close> Identifiers of types are distinct for up to \<open>2^64\<close> types, device identifiers as long as
  fewer than \<open>2^32 - 1\<close> were taken; the start needs no bound, since a repeated identifier is refused by
  the polling service.

  \<^bold>\<open>Not modelled.\<close> Texts that are only logged, but for those of packets; sinks and levels of loggers; the network, the timers and
  the event loop of Boost.Asio beyond what a parameter says of them. The coroutines of several
  devices interleave at polls, events, rounds and the last suspension of a creation: what happens inside one of these
  while another coroutine waits is not modelled. A coroutine the bus spawns starts at once in the program (\<open>co_spawn\<close>
  of Boost 1.82 dispatches on the thread of the loop) and at any later step in the model, which has more runs for it;
  likewise the events of the start are delivered when it is done. Compile-time helpers and sources that
  nothing includes are not modelled either.
\<close>

end
